(* ===== verification/Prelude.thy ===== *)
theory Prelude
  imports Main "HOL-Library.Word"
begin

text \<open>
  Shared ground of the development: Rust's \<open>Result\<close> and a panic as values, the parts of
  Rust's \<open>str\<close> the program uses (a Rust string is its UTF-8 bytes, so \<open>length\<close> is
  \<open>str::len\<close>), decimal formatting, and the generic layer for the coroutines of the
  program: a coroutine is a step function from a state and the next awaited input to a new
  state and the effects it performs, \<open>run\<close> folds it over the inputs, and the locales
  \<open>daemon\<close> and \<open>traced_daemon\<close> carry the facts every coroutine shares.
\<close>

named_theorems machine_simps \<open>unfolding rules of the step functions\<close>
named_theorems err_simps \<open>unfolding rules of the error traits\<close>

section \<open>Results and panics\<close>

datatype ('a, 'e) result = Ok 'a | Err 'e

datatype 'a outcome = is_done: Done 'a | Panic string

fun and_then :: "('a, 'e) result \<Rightarrow> ('a \<Rightarrow> ('b, 'e) result) \<Rightarrow> ('b, 'e) result" where
  "and_then (Ok x) f = f x"
| "and_then (Err e) f = Err e"

fun map_err :: "('e \<Rightarrow> 'f) \<Rightarrow> ('a, 'e) result \<Rightarrow> ('a, 'f) result" where
  "map_err f (Ok x) = Ok x"
| "map_err f (Err e) = Err (f e)"

fun ok_or :: "'e \<Rightarrow> 'a option \<Rightarrow> ('a, 'e) result" where
  "ok_or e None = Err e"
| "ok_or e (Some x) = Ok x"

fun outcome_bind :: "'a outcome \<Rightarrow> ('a \<Rightarrow> 'b outcome) \<Rightarrow> 'b outcome" where
  "outcome_bind (Done x) f = f x"
| "outcome_bind (Panic m) f = Panic m"

fun unwrap :: "string \<Rightarrow> 'a option \<Rightarrow> 'a outcome" where
  "unwrap m None = Panic m"
| "unwrap m (Some x) = Done x"

fun is_ok :: "('a, 'e) result \<Rightarrow> bool" where
  "is_ok (Ok _) = True"
| "is_ok (Err _) = False"

lemma and_then_Ok_iff [simp]: "and_then r f = Ok x \<longleftrightarrow> (\<exists>y. r = Ok y \<and> f y = Ok x)"
  by (cases r) auto

lemma and_then_Err_iff: "and_then r f = Err e \<longleftrightarrow> r = Err e \<or> (\<exists>y. r = Ok y \<and> f y = Err e)"
  by (cases r) auto

lemma map_err_Ok_iff [simp]: "map_err f r = Ok x \<longleftrightarrow> r = Ok x"
  by (cases r) auto

lemma ok_or_Ok_iff [simp]: "ok_or e r = Ok x \<longleftrightarrow> r = Some x"
  by (cases r) auto

lemma outcome_bind_Done_iff [simp]: "outcome_bind r f = Done x \<longleftrightarrow> (\<exists>y. r = Done y \<and> f y = Done x)"
  by (cases r) auto

lemma outcome_bind_Panic_iff:
  "outcome_bind r f = Panic m \<longleftrightarrow> r = Panic m \<or> (\<exists>y. r = Done y \<and> f y = Panic m)"
  by (cases r) auto

lemma unwrap_Done_iff [simp]: "unwrap m r = Done x \<longleftrightarrow> r = Some x"
  by (cases r) auto

lemma unwrap_Panic_iff [simp]: "unwrap m r = Panic m' \<longleftrightarrow> r = None \<and> m' = m"
  by (cases r) auto

lemma is_ok_iff [simp]: "is_ok r \<longleftrightarrow> (\<exists>x. r = Ok x)"
  by (cases r) auto

lemma outcome_not_panic_iff: "(\<forall>m. r \<noteq> Panic m) \<longleftrightarrow> (\<exists>x. r = Done x)"
  by (cases r) auto

section \<open>Rust strings\<close>

abbreviation byte :: "char \<Rightarrow> nat" where
  "byte c \<equiv> of_char c"

definition is_cont :: "char \<Rightarrow> bool" where
  "is_cont c \<longleftrightarrow> 128 \<le> byte c \<and> byte c < 192"

definition is_char_boundary :: "string \<Rightarrow> nat \<Rightarrow> bool" where
  "is_char_boundary s n \<longleftrightarrow> n = 0 \<or> n = length s \<or> (n < length s \<and> \<not> is_cont (s ! n))"

text \<open>\<open>String::truncate\<close>: no effect beyond the end, a panic inside a character.\<close>

definition truncate_str :: "nat \<Rightarrow> string \<Rightarrow> string outcome" where
  "truncate_str n s =
     (if n \<le> length s
      then if is_char_boundary s n then Done (take n s) else Panic ''String::truncate''
      else Done s)"

definition ascii :: "string \<Rightarrow> bool" where
  "ascii s \<longleftrightarrow> (\<forall>c \<in> set s. byte c < 128)"

lemma ascii_simps [simp]:
  "ascii []" "ascii (c # s) \<longleftrightarrow> byte c < 128 \<and> ascii s" "ascii (s @ t) \<longleftrightarrow> ascii s \<and> ascii t"
  by (auto simp: ascii_def)

lemma truncate_str_ascii:
  assumes "ascii s"
  shows "truncate_str n s = Done (take n s)"
proof -
  have "n < length s \<Longrightarrow> \<not> is_cont (s ! n)"
    using assms by (auto simp: ascii_def is_cont_def dest!: nth_mem)
  then show ?thesis
    by (auto simp: truncate_str_def is_char_boundary_def)
qed

lemma truncate_str_Done: "truncate_str n s = Done t \<Longrightarrow> t = take n s"
  by (auto simp: truncate_str_def split: if_splits)

lemma truncate_str_at_end [simp]: "length s \<le> n \<Longrightarrow> truncate_str n s = Done s"
  by (auto simp: truncate_str_def is_char_boundary_def)

text \<open>
  \<open>str::chars\<close>: each character is its UTF-8 encoding, a byte and the continuation bytes
  after it.
\<close>

function chars :: "string \<Rightarrow> string list" where
  "chars [] = []"
| "chars (b # bs) = (b # takeWhile is_cont bs) # chars (dropWhile is_cont bs)"
  by pat_completeness auto
termination
  by (relation "measure length") (auto simp: le_imp_less_Suc length_dropWhile_le)

lemma concat_chars [simp]: "concat (chars s) = s"
  by (induction s rule: chars.induct) auto

lemma chars_ascii: "ascii s \<Longrightarrow> chars s = map (\<lambda>c. [c]) s"
proof (induction s)
  case (Cons c s)
  then have "takeWhile is_cont s = []" "dropWhile is_cont s = s"
    by (cases s; simp add: is_cont_def)+
  with Cons show ?case by simp
qed simp

text \<open>\<open>str::split(char)\<close> and \<open>[T]::join\<close>.\<close>

fun split_on :: "char \<Rightarrow> string \<Rightarrow> string list" where
  "split_on c [] = [[]]"
| "split_on c (x # xs) =
     (if x = c then [] # split_on c xs
      else case split_on c xs of [] \<Rightarrow> [[x]] | y # ys \<Rightarrow> (x # y) # ys)"

fun join :: "string \<Rightarrow> string list \<Rightarrow> string" where
  "join sep [] = []"
| "join sep [x] = x"
| "join sep (x # y # xs) = x @ sep @ join sep (y # xs)"

lemma split_on_not_Nil [simp]: "split_on c s \<noteq> []"
  by (induction s) (auto split: list.splits)

lemma split_on_free: "c \<notin> set x \<Longrightarrow> split_on c x = [x]"
  by (induction x) auto

lemma split_on_append:
  "c \<notin> set x \<Longrightarrow> split_on c (x @ c # s) = x # split_on c s"
  by (induction x) auto

lemma split_on_join:
  assumes "xs \<noteq> []" and "\<forall>x \<in> set xs. c \<notin> set x"
  shows "split_on c (join [c] xs) = xs"
  using assms by (induction "[c]" xs rule: join.induct) (auto simp: split_on_free split_on_append)

lemma join_split_on: "join [c] (split_on c s) = s"
proof (induction s)
  case (Cons x xs)
  then show ?case
    by (cases "split_on c xs"; cases "tl (split_on c xs)") auto
qed simp

lemma split_on_piece_free: "p \<in> set (split_on c s) \<Longrightarrow> c \<notin> set p"
  by (induction s arbitrary: p) (fastforce split: if_splits list.splits)+

text \<open>\<open>str::rsplit_once(char)\<close>.\<close>

definition rsplit_once :: "char \<Rightarrow> string \<Rightarrow> (string \<times> string) option" where
  "rsplit_once c s =
     (if c \<in> set s
      then Some (rev (tl (dropWhile (\<lambda>x. x \<noteq> c) (rev s))), rev (takeWhile (\<lambda>x. x \<noteq> c) (rev s)))
      else None)"

lemma rsplit_once_append:
  assumes "c \<notin> set t"
  shows "rsplit_once c (s @ c # t) = Some (s, t)"
proof -
  have "takeWhile (\<lambda>x. x \<noteq> c) (rev t @ c # rev s) = rev t"
    and "dropWhile (\<lambda>x. x \<noteq> c) (rev t @ c # rev s) = c # rev s"
    using assms by (auto simp: takeWhile_append dropWhile_append)
  then show ?thesis by (simp add: rsplit_once_def)
qed

lemma rsplit_once_SomeD:
  assumes "rsplit_once c s = Some (a, b)"
  shows "s = a @ c # b \<and> c \<notin> set b"
proof -
  from assms have "c \<in> set s" by (auto simp: rsplit_once_def split: if_splits)
  then obtain u v where "s = u @ c # v" "c \<notin> set v"
    by (metis split_list_last)
  with assms show ?thesis by (auto simp: rsplit_once_append)
qed

lemma rsplit_once_None_iff: "rsplit_once c s = None \<longleftrightarrow> c \<notin> set s"
  by (simp add: rsplit_once_def)

text \<open>\<open>char::is_whitespace\<close> on a UTF-8 encoded character, and \<open>str::trim_end\<close>.\<close>

definition is_whitespace :: "string \<Rightarrow> bool" where
  "is_whitespace ch \<longleftrightarrow>
     (case map byte ch of
        [b] \<Rightarrow> b = 32 \<or> (9 \<le> b \<and> b \<le> 13)
      | [b, d] \<Rightarrow> b = 0xC2 \<and> (d = 0x85 \<or> d = 0xA0)
      | [b, d, e] \<Rightarrow>
          (b = 0xE1 \<and> d = 0x9A \<and> e = 0x80)
          \<or> (b = 0xE2 \<and> d = 0x80 \<and> ((0x80 \<le> e \<and> e \<le> 0x8A) \<or> e = 0xA8 \<or> e = 0xA9 \<or> e = 0xAF))
          \<or> (b = 0xE2 \<and> d = 0x81 \<and> e = 0x9F)
          \<or> (b = 0xE3 \<and> d = 0x80 \<and> e = 0x80)
      | _ \<Rightarrow> False)"

definition trim_end :: "string \<Rightarrow> string" where
  "trim_end s = concat (rev (dropWhile is_whitespace (rev (chars s))))"

section \<open>Decimal formatting\<close>

definition digit :: "nat \<Rightarrow> char" where
  "digit d = char_of (48 + d)"

fun show_nat :: "nat \<Rightarrow> string" where
  "show_nat n = (if n < 10 then [digit n] else show_nat (n div 10) @ [digit (n mod 10)])"

declare show_nat.simps [simp del]

definition show_int :: "int \<Rightarrow> string" where
  "show_int i = (if i < 0 then CHR ''-'' # show_nat (nat (- i)) else show_nat (nat i))"

definition read_nat :: "string \<Rightarrow> nat" where
  "read_nat s = foldl (\<lambda>n c. 10 * n + (byte c - 48)) 0 s"

lemma byte_digit: "d < 10 \<Longrightarrow> byte (digit d) = 48 + d"
  by (simp add: digit_def)

lemma read_show_nat: "read_nat (show_nat n) = n"
proof (induction n rule: show_nat.induct)
  case (1 n)
  show ?case
  proof (cases "n < 10")
    case True
    then show ?thesis by (subst show_nat.simps) (simp add: read_nat_def byte_digit)
  next
    case False
    with 1 have "read_nat (show_nat (n div 10)) = n div 10" by simp
    with False show ?thesis
      by (subst show_nat.simps) (simp add: read_nat_def byte_digit)
  qed
qed

lemma show_nat_inject: "show_nat m = show_nat n \<longleftrightarrow> m = n"
  by (metis read_show_nat)

section \<open>Coroutines\<close>

text \<open>
  The awaited inputs of a coroutine arrive one at a time; its effects are the calls it makes
  on its environment, in order.
\<close>

fun run :: "('s \<Rightarrow> 'i \<Rightarrow> 's \<times> 'e list) \<Rightarrow> 's \<Rightarrow> 'i list \<Rightarrow> 's \<times> 'e list" where
  "run step s [] = (s, [])"
| "run step s (i # is) =
     (case step s i of (s', es) \<Rightarrow> case run step s' is of (s'', es') \<Rightarrow> (s'', es @ es'))"

lemma run_append:
  "run step s (is @ js) =
     (case run step s is of (s', es) \<Rightarrow> case run step s' js of (s'', es') \<Rightarrow> (s'', es @ es'))"
  by (induction "is" arbitrary: s) (auto split: prod.splits)

lemma run_after: "run step s is = (t, es) \<Longrightarrow> fst (run step s (is @ js)) = fst (run step t js)"
  by (simp add: run_append split: prod.splits)

text \<open>What every step keeps, a run keeps.\<close>

lemma run_keeps:
  assumes "run step s is = (s', es)" and "P s"
    and "\<And>t i t' fs. P t \<Longrightarrow> i \<in> set is \<Longrightarrow> step t i = (t', fs) \<Longrightarrow> P t'"
  shows "P s'"
  using assms
proof (induction "is" arbitrary: s es)
  case (Cons i "is")
  from Cons.prems(1) obtain t fs gs where 1: "step s i = (t, fs)" and 2: "run step t is = (s', gs)"
    by (auto split: prod.splits)
  have "P t" by (rule Cons.prems(3) [OF Cons.prems(2) _ 1]) simp
  from 2 this show ?case
  proof (rule Cons.IH)
    fix u j u' hs
    assume "P u" and "j \<in> set is" and "step u j = (u', hs)"
    then show "P u'" using Cons.prems(3) [of u j u' hs] by simp
  qed
qed simp

text \<open>Every effect of a run is the effect of one of its steps.\<close>

lemma run_effect_split:
  assumes "run step s is = (s', es)" and "e \<in> set es"
  shows "\<exists>xs i ys t fs. is = xs @ i # ys \<and> run step s xs = (t, fs) \<and> e \<in> set (snd (step t i))"
  using assms
proof (induction "is" arbitrary: s es)
  case (Cons i "is")
  then obtain t fs fs' where 1: "step s i = (t, fs)" and 2: "run step t is = (s', fs')" "es = fs @ fs'"
    by (auto split: prod.splits)
  show ?case
  proof (cases "e \<in> set fs")
    case True
    with 1 show ?thesis by (intro exI [where x = "[]"]) auto
  next
    case False
    with Cons.IH [OF 2(1)] 2(2) Cons.prems(2) obtain xs j ys u gs where
      "is = xs @ j # ys" "run step t xs = (u, gs)" "e \<in> set (snd (step u j))" by auto
    with 1 have "i # is = (i # xs) @ j # ys" "run step s (i # xs) = (u, fs @ gs)" by simp_all
    with \<open>e \<in> set (snd (step u j))\<close> show ?thesis by blast
  qed
qed simp

lemma run_effect_origin:
  assumes "run step s is = (s', es)" and "e \<in> set es"
  shows "\<exists>t. \<exists>i \<in> set is. e \<in> set (snd (step t i))"
  using run_effect_split [OF assms] by fastforce

locale daemon =
  fixes step :: "'s \<Rightarrow> 'i \<Rightarrow> 's \<times> 'e list"
    and halted :: "'s \<Rightarrow> bool"
  assumes halted_step: "halted s \<Longrightarrow> step s i = (s, [])"
begin

lemma run_halted: "halted s \<Longrightarrow> run step s is = (s, [])"
  by (induction "is") (simp_all add: halted_step)

lemma run_halted_prefix:
  assumes "run step s is = (s', es)" and "halted s'"
  shows "run step s (is @ js) = (s', es)"
  using assms by (simp add: run_append run_halted)

lemma run_halted_unique:
  assumes "run step s is = (s', es)" and "halted s'"
    and "run step s (is @ js) = (s'', es')"
  shows "s'' = s' \<and> es' = es"
  using run_halted_prefix [OF assms(1,2)] assms(3) by simp

text \<open>A run that ends halted did so in one step of a state that was not.\<close>

lemma run_halting_step:
  assumes "run step s is = (s', es)" and "\<not> halted s" and "halted s'"
  shows "\<exists>js i t fs fs'. run step s js = (t, fs) \<and> set js \<subseteq> set is \<and> i \<in> set is \<and> \<not> halted t
    \<and> step t i = (s', fs') \<and> es = fs @ fs'"
  using assms
proof (induction "is" arbitrary: s es)
  case (Cons i "is")
  then obtain t fs fs' where 1: "step s i = (t, fs)" and 2: "run step t is = (s', fs')" "es = fs @ fs'"
    by (auto split: prod.splits)
  show ?case
  proof (cases "halted t")
    case True
    with 2 have "t = s'" "es = [] @ fs" by (simp_all add: run_halted)
    moreover have "run step s [] = (s, [])" "set [] \<subseteq> set (i # is)" "i \<in> set (i # is)" by simp_all
    ultimately show ?thesis using 1 Cons.prems(2) by blast
  next
    case False
    from Cons.IH [OF 2(1) False Cons.prems(3)] obtain js j u gs gs' where
      "run step t js = (u, gs)" "set js \<subseteq> set is" "j \<in> set is" "\<not> halted u"
      "step u j = (s', gs')" "fs' = gs @ gs'"
      by blast
    moreover from this 1 have "run step s (i # js) = (u, fs @ gs)" by simp
    moreover have "set (i # js) \<subseteq> set (i # is)" "j \<in> set (i # is)" using calculation by auto
    ultimately show ?thesis using 2(2) by (metis append_assoc)
  qed
qed simp

end

text \<open>A property of the state together with everything the coroutine has done so far.\<close>

locale traced_daemon = daemon step halted
  for step :: "'s \<Rightarrow> 'i \<Rightarrow> 's \<times> 'e list" and halted :: "'s \<Rightarrow> bool" +
  fixes inv :: "'s \<Rightarrow> 'e list \<Rightarrow> bool"
  assumes inv_step: "inv s es \<Longrightarrow> \<not> halted s \<Longrightarrow> step s i = (s', es') \<Longrightarrow> inv s' (es @ es')"
begin

lemma inv_step_any: "inv s es \<Longrightarrow> step s i = (s', es') \<Longrightarrow> inv s' (es @ es')"
  by (cases "halted s") (auto simp: halted_step intro: inv_step)

lemma run_inv:
  assumes "inv s es" and "run step s is = (s', es')"
  shows "inv s' (es @ es')"
  using assms
proof (induction "is" arbitrary: s es es')
  case (Cons i "is")
  from Cons.prems(2) obtain t fs fs' where
    1: "step s i = (t, fs)" and 2: "run step t is = (s', fs')" and "es' = fs @ fs'"
    by (auto split: prod.splits)
  from Cons.IH [OF inv_step_any [OF Cons.prems(1) 1] 2] show ?case
    using \<open>es' = fs @ fs'\<close> by simp
qed simp

end

end
