(* ===== verification/Derive.thy ===== *)
theory Derive
  imports Prelude
begin

text \<open>
  The traits every error of the program implements, and the procedural macros that implement
  them: \<open>Kind\<close> (library/kind, library/kind-derive), \<open>HttpCode\<close> (library/httpcode,
  library/httpcode-derive) and the marker \<open>AcmError\<close> (library/error-derive). A macro is a
  function from the item it is attached to to the method it generates; a macro panic is the
  compile error it stands for. The locale \<open>acm_error_type\<close> is the trait bound
  \<open>T: AcmError\<close> as its clients rely on it.
\<close>

section \<open>HTTP status codes\<close>

datatype status = Status (status_code: nat)

instantiation status :: linorder
begin

definition less_eq_status :: "status \<Rightarrow> status \<Rightarrow> bool" where
  "less_eq_status s t \<longleftrightarrow> status_code s \<le> status_code t"

definition less_status :: "status \<Rightarrow> status \<Rightarrow> bool" where
  "less_status s t \<longleftrightarrow> status_code s < status_code t"

instance
  by standard (auto simp: less_eq_status_def less_status_def status.expand)

end

abbreviation StatusOk :: status where "StatusOk \<equiv> Status 200"
abbreviation BadRequest :: status where "BadRequest \<equiv> Status 400"
abbreviation NotFound :: status where "NotFound \<equiv> Status 404"
abbreviation InternalServerError :: status where "InternalServerError \<equiv> Status 500"
abbreviation ServiceUnavailable :: status where "ServiceUnavailable \<equiv> Status 503"

section \<open>The derive macros\<close>

datatype fields = Fields_Unnamed | Fields_Named | Fields_Unit

record 'c variant =
  variant_ident :: string
  variant_fields :: fields
  variant_code :: "'c option"

datatype 'c item_data = Data_Struct | Data_Enum "'c variant list" | Data_Union

record 'c derive_input =
  item_ident :: string
  item_data :: "'c item_data"
  item_code :: "'c option"

text \<open>
  The generated method takes the variant of the value it is called on; a struct has none and
  passes the empty name.
\<close>

definition derive_kind :: "'c derive_input \<Rightarrow> (string \<Rightarrow> string) outcome" where
  "derive_kind input =
     (case item_data input of
        Data_Struct \<Rightarrow> Done (\<lambda>_. item_ident input)
      | Data_Enum variants \<Rightarrow> Done (\<lambda>v. item_ident input @ ''::'' @ v)
      | Data_Union \<Rightarrow> Panic ''kind-derive does not support Unions yet'')"

fun variant_codes :: "'c variant list \<Rightarrow> (string \<times> 'c) list outcome" where
  "variant_codes [] = Done []"
| "variant_codes (v # vs) =
     (case variant_code v of
        None \<Rightarrow> Panic (''variant '' @ variant_ident v @ '' missigin code attribute'')
      | Some c \<Rightarrow> outcome_bind (variant_codes vs) (\<lambda>cs. Done ((variant_ident v, c) # cs)))"

definition derive_http_code :: "'c derive_input \<Rightarrow> (string \<Rightarrow> 'c option) outcome" where
  "derive_http_code input =
     (case item_data input of
        Data_Struct \<Rightarrow>
          (case item_code input of
             Some c \<Rightarrow> Done (\<lambda>_. Some c)
           | None \<Rightarrow> Panic ''struct must have #[code(<CODE>)] attribute'')
      | Data_Enum variants \<Rightarrow>
          outcome_bind (variant_codes variants) (\<lambda>cs. Done (map_of cs))
      | Data_Union \<Rightarrow> Panic ''just say no to unions'')"

text \<open>\<open>AcmError\<close> is a marker: the macro emits an empty implementation for any item, unions included.\<close>

datatype marker_impl = Marker_Impl (impl_trait: string) (impl_for: string)

definition derive_acm_error :: "'c derive_input \<Rightarrow> marker_impl" where
  "derive_acm_error input = Marker_Impl ''AcmError'' (item_ident input)"

definition struct_item :: "string \<Rightarrow> 'c \<Rightarrow> 'c derive_input \<times> string" where
  "struct_item n c = (\<lparr>item_ident = n, item_data = Data_Struct, item_code = Some c\<rparr>, [])"

definition variant_item :: "string \<Rightarrow> fields \<Rightarrow> 'c \<Rightarrow> 'c variant" where
  "variant_item n fs c = \<lparr>variant_ident = n, variant_fields = fs, variant_code = Some c\<rparr>"

definition enum_item :: "string \<Rightarrow> 'c variant list \<Rightarrow> 'c derive_input" where
  "enum_item n vs = \<lparr>item_ident = n, item_data = Data_Enum vs, item_code = None\<rparr>"

text \<open>The trait methods of a value, given its item and variant.\<close>

definition kind_of :: "'c derive_input \<times> string \<Rightarrow> string" where
  "kind_of x = (case derive_kind (fst x) of Done f \<Rightarrow> f (snd x) | Panic _ \<Rightarrow> [])"

definition http_code_of :: "status derive_input \<times> string \<Rightarrow> status" where
  "http_code_of x =
     (case derive_http_code (fst x) of
        Done f \<Rightarrow> (case f (snd x) of Some c \<Rightarrow> c | None \<Rightarrow> Status 0)
      | Panic _ \<Rightarrow> Status 0)"

lemmas derive_defs [err_simps] =
  kind_of_def http_code_of_def derive_kind_def derive_http_code_def struct_item_def
  variant_item_def enum_item_def less_eq_status_def less_status_def

text \<open>A variant list that carries its attributes gives every variant its own code.\<close>

lemma variant_codes_Done_iff:
  "(\<exists>cs. variant_codes vs = Done cs) \<longleftrightarrow> (\<forall>v \<in> set vs. variant_code v \<noteq> None)"
  by (induction vs) (auto split: option.splits)

lemma variant_codes_map_of:
  assumes "variant_codes vs = Done cs" and "v \<in> set vs" and "distinct (map variant_ident vs)"
  shows "map_of cs (variant_ident v) = variant_code v"
  using assms
proof (induction vs arbitrary: cs)
  case (Cons w ws)
  then obtain c cs' where "variant_code w = Some c" "variant_codes ws = Done cs'"
    and "cs = (variant_ident w, c) # cs'"
    by (auto split: option.splits)
  with Cons show ?case by (auto simp: image_iff)
qed simp

section \<open>The trait AcmError\<close>

text \<open>
  An implementor promises that both macros expand, that its HTTP status is an error status and
  that its kind is not empty.
\<close>

locale acm_error_type =
  fixes item :: "'e \<Rightarrow> status derive_input \<times> string"
    and display :: "'e \<Rightarrow> string"
    and source :: "'e \<Rightarrow> string option"
  assumes code_is_error: "BadRequest \<le> http_code_of (item e)"
    and kind_nonempty: "kind_of (item e) \<noteq> []"
begin

lemma code_not_ok: "http_code_of (item e) \<noteq> StatusOk"
  using code_is_error [of e] by (auto simp: less_eq_status_def)

lemma code_expands: "\<exists>f c. derive_http_code (fst (item e)) = Done f \<and> f (snd (item e)) = Some c"
  using code_is_error [of e]
  by (auto simp: http_code_of_def less_eq_status_def split: outcome.splits option.splits)

end

section \<open>Foreign errors\<close>

text \<open>
  Errors of packages the program only calls are known by the text they display. The program
  looks inside two of them: \<open>kube::Error\<close> (is it the API server's answer, and with which
  code) and the \<open>ErrorResponse\<close> in a watch stream.
\<close>

record error_response =
  resp_code :: nat
  resp_display :: string

datatype kube_error =
    Kube_Api error_response
  | Kube_Connection string
  | Kube_Other string

fun kube_display :: "kube_error \<Rightarrow> string" where
  "kube_display (Kube_Api r) = resp_display r"
| "kube_display (Kube_Connection s) = s"
| "kube_display (Kube_Other s) = s"

abbreviation sq :: string where
  "sq \<equiv> [CHR 0x27]"

end
