(* ===== verification/Error_Types.thy ===== *)
theory Error_Types
  imports Derive
begin

text \<open>
  The error structs and enums of every crate, one datatype per module: a constructor per
  struct with its fields, the item its derive macros see (name and \<open>code\<close> attribute), its
  \<open>Display\<close> text and its \<open>source\<close>. A field that holds an error of a package outside
  the repository holds the text that error displays. Each module's type is an instance of
  \<open>acm_error_type\<close>, and so is \<open>acm_error\<close>, the \<open>Box<dyn AcmError>\<close> of
  library/error, which dispatches to them.
\<close>

section \<open>The error types of the modules\<close>

text \<open>k8s/src/errors.rs: the enum \<open>ApiError\<close> over \<open>kube::Error\<close>.\<close>

datatype api_error =
    ApiError_Api kube_error
  | ApiError_Connection kube_error
  | ApiError_Rest kube_error

definition ApiError_def_item :: "status derive_input" where
  "ApiError_def_item = enum_item ''ApiError''
       [variant_item ''Api'' Fields_Unnamed InternalServerError,
        variant_item ''Connection'' Fields_Unnamed InternalServerError,
        variant_item ''Rest'' Fields_Unnamed InternalServerError]"

primrec api_error_item :: "api_error \<Rightarrow> status derive_input \<times> string" where
  "api_error_item (ApiError_Api err) = (ApiError_def_item, ''Api'')"
| "api_error_item (ApiError_Connection err) = (ApiError_def_item, ''Connection'')"
| "api_error_item (ApiError_Rest err) = (ApiError_def_item, ''Rest'')"

primrec api_error_display :: "api_error \<Rightarrow> string" where
  \<open>api_error_display (ApiError_Api err) =
      ''The Kubernetes API server rejected our request''\<close>
| \<open>api_error_display (ApiError_Connection err) =
      ''Failed to connect to the Kubernetes API server''\<close>
| \<open>api_error_display (ApiError_Rest err) =
      ''The Kubernetes API server rejected our request''\<close>

primrec api_error_source :: "api_error \<Rightarrow> string option" where
  "api_error_source (ApiError_Api err) = Some (kube_display err)"
| "api_error_source (ApiError_Connection err) = Some (kube_display err)"
| "api_error_source (ApiError_Rest err) = Some (kube_display err)"

interpretation api_error: acm_error_type api_error_item api_error_display api_error_source
  by unfold_locales (rename_tac e, case_tac e; simp add: err_simps ApiError_def_item_def)+

text \<open>k8s/src/pod.rs: what can go wrong when a pod object is built or read.\<close>

datatype pod_error =
    PodSerializationError string string string
  | ErrImagePull string
  | ErrImagePullCause string
  | PodHasNoStatus string
  | PodHasNoIp string
  | PodHasNoNamespace string
  | PodHasNoSpec string
  | PodHasNoContainers string
  | ContainerHasNoPorts string

primrec pod_error_item :: "pod_error \<Rightarrow> status derive_input \<times> string" where
  "pod_error_item (PodSerializationError name reference src) =
     struct_item ''PodSerializationError'' InternalServerError"
| "pod_error_item (ErrImagePull cause) = struct_item ''ErrImagePull'' NotFound"
| "pod_error_item (ErrImagePullCause message) = struct_item ''ErrImagePullCause'' NotFound"
| "pod_error_item (PodHasNoStatus op) = struct_item ''PodHasNoStatus'' InternalServerError"
| "pod_error_item (PodHasNoIp op) = struct_item ''PodHasNoIp'' InternalServerError"
| "pod_error_item (PodHasNoNamespace op) = struct_item ''PodHasNoNamespace'' InternalServerError"
| "pod_error_item (PodHasNoSpec op) = struct_item ''PodHasNoSpec'' InternalServerError"
| "pod_error_item (PodHasNoContainers op) = struct_item ''PodHasNoContainers'' InternalServerError"
| "pod_error_item (ContainerHasNoPorts op) =
     struct_item ''ContainerHasNoPorts'' InternalServerError"

primrec pod_error_display :: "pod_error \<Rightarrow> string" where
  \<open>pod_error_display (PodSerializationError name reference src) =
      ''Failed to serialize a Kubernetes pod resource with the name '' @ sq @ name @ sq
      @ '' and image reference '' @ sq @ reference @ sq
      @ ''. This is very peculiar, and it may work if you simply run it again, although ''
      @ ''this error should be reported to Alation so that we can make sure it never ''
      @ ''happens again.''\<close>
| \<open>pod_error_display (ErrImagePull cause) =
      ''The image for the connector failed to get pulled from the configured image ''
      @ ''registry. Perhaps the image doesn'' @ sq
      @ ''t exist or the connection to the registry couldn'' @ sq @ ''t be established?''\<close>
| \<open>pod_error_display (ErrImagePullCause message) =
      message\<close>
| \<open>pod_error_display (PodHasNoStatus op) =
      ''An attempt was made to retrieve the status field of a pod object while '' @ op
      @ '', however the object had no status field. This was likely a premature call to ''
      @ ''a pod object that had not yet been provisioned in Kubernetes.''\<close>
| \<open>pod_error_display (PodHasNoIp op) =
      ''An attempt was made to retrieve the pod IP field of a pod object while '' @ op
      @ '', however the object had no IP. This was likely a premature call to a pod ''
      @ ''object that had not yet been provisioned in Kubernetes.''\<close>
| \<open>pod_error_display (PodHasNoNamespace op) =
      ''An attempt was made to retrieve the namespace of a pod object while '' @ op
      @ '', however the object had no namespace associated with it. This was likely a ''
      @ ''premature call to a pod object that had not yet been provisioned in ''
      @ ''Kubernetes.''\<close>
| \<open>pod_error_display (PodHasNoSpec op) =
      ''An attempt was made to retrieve the spec of a pod object while '' @ op
      @ '', however the object had no spec associated with it. This was likely a ''
      @ ''premature call to a pod object that had not yet been provisioned in ''
      @ ''Kubernetes.''\<close>
| \<open>pod_error_display (PodHasNoContainers op) =
      ''An attempt was made to retrieve at least one container associated with a pod ''
      @ ''object while '' @ op
      @ '', however the object had no containers associated with it. This was likely a ''
      @ ''premature call to a pod object that had not yet been provisioned in ''
      @ ''Kubernetes.''\<close>
| \<open>pod_error_display (ContainerHasNoPorts op) =
      ''An attempt was made to retrieve at least one listening port associated with a ''
      @ ''container object while '' @ op
      @ '', however the object had no listening ports associated with it. This was ''
      @ ''likely a premature call to a pod object that had not yet been provisioned in ''
      @ ''Kubernetes.''\<close>

primrec pod_error_source :: "pod_error \<Rightarrow> string option" where
  "pod_error_source (PodSerializationError name reference src) = Some src"
| "pod_error_source (ErrImagePull cause) = Some cause"
| "pod_error_source (ErrImagePullCause message) = None"
| "pod_error_source (PodHasNoStatus op) = None"
| "pod_error_source (PodHasNoIp op) = None"
| "pod_error_source (PodHasNoNamespace op) = None"
| "pod_error_source (PodHasNoSpec op) = None"
| "pod_error_source (PodHasNoContainers op) = None"
| "pod_error_source (ContainerHasNoPorts op) = None"

interpretation pod_error: acm_error_type pod_error_item pod_error_display pod_error_source
  by unfold_locales (rename_tac e, case_tac e; simp add: err_simps)+

text \<open>acm podmanager/event_watcher.rs: the final verdicts of the event watcher.\<close>

datatype event_watcher_error =
    SendChannelClose
  | PodCrashed
  | PodTerminatedBeforeStart string string
  | GarbageCollectorUnresponsive string
  | KubernetesUnresponsive string
  | UnexpectedCloseOfEventStream
  | PodDeleted
  | PodRebooted
  | HealthCheckDroppedItsChannel

primrec event_watcher_error_item :: "event_watcher_error \<Rightarrow> status derive_input \<times> string" where
  "event_watcher_error_item SendChannelClose = struct_item ''SendChannelClose'' InternalServerError"
| "event_watcher_error_item PodCrashed = struct_item ''PodCrashed'' ServiceUnavailable"
| "event_watcher_error_item (PodTerminatedBeforeStart message reason) =
     struct_item ''PodTerminatedBeforeStart'' ServiceUnavailable"
| "event_watcher_error_item (GarbageCollectorUnresponsive pod) =
     struct_item ''GarbageCollectorUnresponsive'' InternalServerError"
| "event_watcher_error_item (KubernetesUnresponsive elapsed) =
     struct_item ''KubernetesUnresponsive'' InternalServerError"
| "event_watcher_error_item UnexpectedCloseOfEventStream =
     struct_item ''UnexpectedCloseOfEventStream'' InternalServerError"
| "event_watcher_error_item PodDeleted = struct_item ''PodDeleted'' ServiceUnavailable"
| "event_watcher_error_item PodRebooted = struct_item ''PodRebooted'' ServiceUnavailable"
| "event_watcher_error_item HealthCheckDroppedItsChannel =
     struct_item ''HealthCheckDroppedItsChannel'' InternalServerError"

primrec event_watcher_error_display :: "event_watcher_error \<Rightarrow> string" where
  \<open>event_watcher_error_display SendChannelClose =
      []\<close>
| \<open>event_watcher_error_display PodCrashed =
      ''The connector has crashed. Please review its logs for additional debugging ''
      @ ''information and report any finding to the connector'' @ sq
      @ ''s development team for further analysis.''\<close>
| \<open>event_watcher_error_display (PodTerminatedBeforeStart message reason) =
      ''The pod for this job was terminated before it ever entered the running state ''
      @ ''(perhaps it crashed immediately). The (optional) reason given by Kubernetes ''
      @ ''was '' @ sq @ reason @ sq @ '' and the (optional) message given was '' @ sq @ message
      @ sq @ ''.''\<close>
| \<open>event_watcher_error_display (GarbageCollectorUnresponsive pod) =
      ''The garbage collector for the requested pod ('' @ pod
      @ '') exited earlier than expected. For the sake of safety, the pod for this job ''
      @ ''has been deleted. Please try this operation again, but please also report ''
      @ ''this as a bug to the Alation OCF development and infrastructure team.''\<close>
| \<open>event_watcher_error_display (KubernetesUnresponsive elapsed) =
      ''The Kubernetes API server has failed to reconnect for this job'' @ sq
      @ ''s event stream for over '' @ elapsed
      @ ''. The cluster appears to be too unhealthy to reasonably continue at this time.''\<close>
| \<open>event_watcher_error_display UnexpectedCloseOfEventStream =
      ''The Kubernetes API server has prematurely, and permanently, close the event ''
      @ ''stream for this job'' @ sq
      @ ''s pod. The job may work if simply re-ran, however this may be indicative of ''
      @ ''an unhealthy cluster.''\<close>
| \<open>event_watcher_error_display PodDeleted =
      ''The pod for this job was deleted. If this not expected, then perhaps Alation ''
      @ ''timed out and the pod was garbage collected. Or perhaps another component has ''
      @ ''deleted the pod for some reason.''\<close>
| \<open>event_watcher_error_display PodRebooted =
      ''The pod for this job appears to have been rebooted. This may occur if the pod ''
      @ ''crashed and was restarted automatically. However, OCF has no tolerance for ''
      @ ''"crashy'' @ sq
      @ '' connectors, and as such it has been deleted. Please gather logs for this ''
      @ ''connector and report the issue to the connector'' @ sq
      @ ''s development team.''\<close>
| \<open>event_watcher_error_display HealthCheckDroppedItsChannel =
      ''This job'' @ sq
      @ ''s server health check daemon shutdown prematurely, and without ever sending a ''
      @ ''status signal. This job may succeed if re-attempted, however this bug should ''
      @ ''be reported to the Alation OCF development and infrastructure team.''\<close>

primrec event_watcher_error_source :: "event_watcher_error \<Rightarrow> string option" where
  "event_watcher_error_source SendChannelClose = None"
| "event_watcher_error_source PodCrashed = None"
| "event_watcher_error_source (PodTerminatedBeforeStart message reason) = None"
| "event_watcher_error_source (GarbageCollectorUnresponsive pod) = None"
| "event_watcher_error_source (KubernetesUnresponsive elapsed) = None"
| "event_watcher_error_source UnexpectedCloseOfEventStream = None"
| "event_watcher_error_source PodDeleted = None"
| "event_watcher_error_source PodRebooted = None"
| "event_watcher_error_source HealthCheckDroppedItsChannel = None"

interpretation event_watcher_error: acm_error_type event_watcher_error_item event_watcher_error_display event_watcher_error_source
  by unfold_locales (rename_tac e, case_tac e; simp add: err_simps)+

text \<open>acm podmanager/garbage\_collector.rs.\<close>

datatype gc_error =
    RefreshChannelClosed

primrec gc_error_item :: "gc_error \<Rightarrow> status derive_input \<times> string" where
  "gc_error_item RefreshChannelClosed = struct_item ''RefreshChannelClosed'' ServiceUnavailable"

primrec gc_error_display :: "gc_error \<Rightarrow> string" where
  \<open>gc_error_display RefreshChannelClosed =
      ''This pod appears to have already been shutdown or garbage collected.''\<close>

primrec gc_error_source :: "gc_error \<Rightarrow> string option" where
  "gc_error_source RefreshChannelClosed = None"

interpretation gc_error: acm_error_type gc_error_item gc_error_display gc_error_source
  by unfold_locales (rename_tac e, case_tac e; simp add: err_simps)+

text \<open>acm podmanager/server\_check.rs.\<close>

datatype server_check_error =
    NotReady
  | TooManyFailures string string
  | GrpcEndpointParsdeError string string

primrec server_check_error_item :: "server_check_error \<Rightarrow> status derive_input \<times> string" where
  "server_check_error_item NotReady = struct_item ''NotReady'' ServiceUnavailable"
| "server_check_error_item (TooManyFailures uri src) =
     struct_item ''TooManyFailures'' ServiceUnavailable"
| "server_check_error_item (GrpcEndpointParsdeError uri src) =
     struct_item ''GrpcEndpointParsdeError'' ServiceUnavailable"

primrec server_check_error_display :: "server_check_error \<Rightarrow> string" where
  \<open>server_check_error_display NotReady =
      []\<close>
| \<open>server_check_error_display (TooManyFailures uri src) =
      ''There were too many failures when attempting to connect to the requested pod ('' @ uri
      @ '') for its server health check''\<close>
| \<open>server_check_error_display (GrpcEndpointParsdeError uri src) =
      ''There were too many failures when attempting to connect to the requested pod ('' @ uri
      @ '') for its server health check''\<close>

primrec server_check_error_source :: "server_check_error \<Rightarrow> string option" where
  "server_check_error_source NotReady = None"
| "server_check_error_source (TooManyFailures uri src) = Some src"
| "server_check_error_source (GrpcEndpointParsdeError uri src) = Some src"

interpretation server_check_error: acm_error_type server_check_error_item server_check_error_display server_check_error_source
  by unfold_locales (rename_tac e, case_tac e; simp add: err_simps)+

text \<open>acm podmanager/external\_handle.rs.\<close>

datatype handle_error =
    InboundResultChannelDropped
  | OutboundResultChannelDropped
  | PhantomError

primrec handle_error_item :: "handle_error \<Rightarrow> status derive_input \<times> string" where
  "handle_error_item InboundResultChannelDropped =
     struct_item ''InboundResultChannelDropped'' InternalServerError"
| "handle_error_item OutboundResultChannelDropped =
     struct_item ''OutboundResultChannelDropped'' InternalServerError"
| "handle_error_item PhantomError = struct_item ''PhantomError'' BadRequest"

primrec handle_error_display :: "handle_error \<Rightarrow> string" where
  \<open>handle_error_display InboundResultChannelDropped =
      ''In internal datastructure was deallocated before a result was ever placed ''
      @ ''into. This is a severe state machine violation from within the ACM (Alation ''
      @ ''Connector Manager). Please try this operation again, but please also report ''
      @ ''this as a bug to Alation.''\<close>
| \<open>handle_error_display OutboundResultChannelDropped =
      ''In internal datastructure was deallocated before a result was ever placed ''
      @ ''into. This is a severe state machine violation from within the ACM (Alation ''
      @ ''Connector Manager). Please try this operation again, but please also report ''
      @ ''this as a bug to Alation.''\<close>
| \<open>handle_error_display PhantomError =
      []\<close>

primrec handle_error_source :: "handle_error \<Rightarrow> string option" where
  "handle_error_source InboundResultChannelDropped = None"
| "handle_error_source OutboundResultChannelDropped = None"
| "handle_error_source PhantomError = None"

interpretation handle_error: acm_error_type handle_error_item handle_error_display handle_error_source
  by unfold_locales (rename_tac e, case_tac e; simp add: err_simps)+

text \<open>acm podmanager/mod.rs.\<close>

datatype pod_manager_error =
    PodManagerNotFound string

primrec pod_manager_error_item :: "pod_manager_error \<Rightarrow> status derive_input \<times> string" where
  "pod_manager_error_item (PodManagerNotFound ident) = struct_item ''PodManagerNotFound'' NotFound"

primrec pod_manager_error_display :: "pod_manager_error \<Rightarrow> string" where
  \<open>pod_manager_error_display (PodManagerNotFound ident) =
      ''The pod manager for '' @ ident
      @ '' could not be found. If an error occurred in the requested pod then the ''
      @ ''caller has one hour to consume the message before the record is dropped. This ''
      @ ''message may also only be consumed once. Alternatively, the calling client may ''
      @ ''have been configured for the incorrect ACM (Alation Connection Manager) that ''
      @ ''was not in possession of the requested pod manager.''\<close>

primrec pod_manager_error_source :: "pod_manager_error \<Rightarrow> string option" where
  "pod_manager_error_source (PodManagerNotFound ident) = None"

interpretation pod_manager_error: acm_error_type pod_manager_error_item pod_manager_error_display pod_manager_error_source
  by unfold_locales (rename_tac e, case_tac e; simp add: err_simps)+

text \<open>error/src/lib.rs: a raw string as an error.\<close>

datatype string_error =
    StringError string

primrec string_error_item :: "string_error \<Rightarrow> status derive_input \<times> string" where
  "string_error_item (StringError inner) = struct_item ''StringError'' InternalServerError"

primrec string_error_display :: "string_error \<Rightarrow> string" where
  \<open>string_error_display (StringError inner) =
      inner\<close>

primrec string_error_source :: "string_error \<Rightarrow> string option" where
  "string_error_source (StringError inner) = None"

interpretation string_error: acm_error_type string_error_item string_error_display string_error_source
  by unfold_locales (rename_tac e, case_tac e; simp add: err_simps)+

text \<open>os/src/process.rs: a system command that failed.\<close>

datatype process_error =
    FailedToSpawn string string
  | InvalidUTF8 string string string
  | InvalidUTF8Stderr string string string
  | FailedToRun string string
  | CommandFailed string string

primrec process_error_item :: "process_error \<Rightarrow> status derive_input \<times> string" where
  "process_error_item (FailedToSpawn command src) =
     struct_item ''FailedToSpawn'' InternalServerError"
| "process_error_item (InvalidUTF8 command out src) =
     struct_item ''InvalidUTF8'' InternalServerError"
| "process_error_item (InvalidUTF8Stderr command out src) =
     struct_item ''InvalidUTF8Stderr'' InternalServerError"
| "process_error_item (FailedToRun command src) = struct_item ''FailedToRun'' InternalServerError"
| "process_error_item (CommandFailed command stderr) =
     struct_item ''CommandFailed'' InternalServerError"

primrec process_error_display :: "process_error \<Rightarrow> string" where
  \<open>process_error_display (FailedToSpawn command src) =
      ''Failed to spawn the "'' @ command
      @ ''" command. Perhaps the ACM is corrupted? Perhaps try destroying its pod?''\<close>
| \<open>process_error_display (InvalidUTF8 command out src) =
      ''Stdout for "'' @ command @ ''" was not valid UTF-8, got the following (lossy) ''
      @ out\<close>
| \<open>process_error_display (InvalidUTF8Stderr command out src) =
      ''Stderr for "'' @ command @ ''" was not valid UTF-8, got the following (lossy) ''
      @ out\<close>
| \<open>process_error_display (FailedToRun command src) =
      ''Failed to execute the "'' @ command
      @ ''" command. Perhaps the ACM is corrupted? Perhaps try destroying its pod?''\<close>
| \<open>process_error_display (CommandFailed command stderr) =
      ''Failed to execute "'' @ command @ ''". Stderr was '' @ stderr\<close>

primrec process_error_source :: "process_error \<Rightarrow> string option" where
  "process_error_source (FailedToSpawn command src) = Some src"
| "process_error_source (InvalidUTF8 command out src) = Some src"
| "process_error_source (InvalidUTF8Stderr command out src) = Some src"
| "process_error_source (FailedToRun command src) = Some src"
| "process_error_source (CommandFailed command stderr) = None"

interpretation process_error: acm_error_type process_error_item process_error_display process_error_source
  by unfold_locales (rename_tac e, case_tac e; simp add: err_simps)+

text \<open>aim registry/mod.rs.\<close>

datatype registry_error =
    TagNotFound string string

primrec registry_error_item :: "registry_error \<Rightarrow> status derive_input \<times> string" where
  "registry_error_item (TagNotFound tag registry) = struct_item ''TagNotFound'' NotFound"

primrec registry_error_display :: "registry_error \<Rightarrow> string" where
  \<open>registry_error_display (TagNotFound tag registry) =
      ''The OCF image tag '' @ sq @ tag @ sq @ '' does not exist in '' @ registry\<close>

primrec registry_error_source :: "registry_error \<Rightarrow> string option" where
  "registry_error_source (TagNotFound tag registry) = None"

interpretation registry_error: acm_error_type registry_error_item registry_error_display registry_error_source
  by unfold_locales (rename_tac e, case_tac e; simp add: err_simps)+

text \<open>aim registry/minikube/mod.rs: the HTTP status as it is displayed.\<close>

datatype minikube_error =
    ImageDeleteError string

primrec minikube_error_item :: "minikube_error \<Rightarrow> status derive_input \<times> string" where
  "minikube_error_item (ImageDeleteError status) =
     struct_item ''ImageDeleteError'' ServiceUnavailable"

primrec minikube_error_display :: "minikube_error \<Rightarrow> string" where
  \<open>minikube_error_display (ImageDeleteError status) =
      ''Received status code '' @ status @ '' from the registry''\<close>

primrec minikube_error_source :: "minikube_error \<Rightarrow> string option" where
  "minikube_error_source (ImageDeleteError status) = None"

interpretation minikube_error: acm_error_type minikube_error_item minikube_error_display minikube_error_source
  by unfold_locales (rename_tac e, case_tac e; simp add: err_simps)+

text \<open>aim registry/ecr/mod.rs: what the AWS command line reported.\<close>

datatype ecr_error =
    EcrUninstallSerdeError string
  | EcrImageSerdeError string
  | EcrUninstallFailure string string string
  | EcrUninstallError string
  | UninstallCommandError string
  | GetPasswordError string

primrec ecr_error_item :: "ecr_error \<Rightarrow> status derive_input \<times> string" where
  "ecr_error_item (EcrUninstallSerdeError error) =
     struct_item ''EcrUninstallSerdeError'' InternalServerError"
| "ecr_error_item (EcrImageSerdeError error) =
     struct_item ''EcrImageSerdeError'' InternalServerError"
| "ecr_error_item (EcrUninstallFailure image_id failure_code failure_reason) =
     struct_item ''EcrUninstallFailure'' BadRequest"
| "ecr_error_item (EcrUninstallError cause) = struct_item ''EcrUninstallError'' BadRequest"
| "ecr_error_item (UninstallCommandError error) =
     struct_item ''UninstallCommandError'' InternalServerError"
| "ecr_error_item (GetPasswordError error) = struct_item ''GetPasswordError'' InternalServerError"

primrec ecr_error_display :: "ecr_error \<Rightarrow> string" where
  \<open>ecr_error_display (EcrUninstallSerdeError error) =
      ''A failure occurred while deserializing the JSON representation for the ''
      @ ''response returned by AWS ECR'' @ sq
      @ ''s deletion endpoint. We expected a data structure similar to that documented ''
      @ ''in ''
      @ ''https://awscli.amazonaws.com/v2/documentation/api/latest/reference/ecr/batch-d''
      @ ''elete-image.html''\<close>
| \<open>ecr_error_display (EcrImageSerdeError error) =
      ''A failure occurred while deserializing the JSON representation for the ''
      @ ''response returned by AWS ECR'' @ sq
      @ ''s list-images endpoint. We expected a data structure similar to that ''
      @ ''documented in ''
      @ ''https://awscli.amazonaws.com/v2/documentation/api/latest/reference/ecr/list-im''
      @ ''ages.html''\<close>
| \<open>ecr_error_display (EcrUninstallFailure image_id failure_code failure_reason) =
      ''ECR reported the failure code '' @ sq @ failure_code @ sq
      @ '' when attempting to uninstall '' @ sq @ image_id @ sq @ ''. The given reason was ''
      @ sq @ failure_reason @ sq @ ''.''\<close>
| \<open>ecr_error_display (EcrUninstallError cause) =
      ''A failure occurred while attempting to complete the deletion in the Elastic ''
      @ ''Container Registry. If this is a networking failure, then perhaps ''
      @ ''reattempting at a later time may succeed.''\<close>
| \<open>ecr_error_display (UninstallCommandError error) =
      ''A raw error was returned from the AWS Elastic Container Registry API. This is ''
      @ ''usually indicative of an extreme failure case, such as a missing repository ''
      @ ''or expired/incorrect credentials. Do note, however, that ECR does make some ''
      @ ''interesting policy decisions with regard to what this error string is ''
      @ ''actually reporting. For example, a non-existent repository may actually be ''
      @ ''reported as an authorization error.''\<close>
| \<open>ecr_error_display (GetPasswordError error) =
      ''An error occurred while retrieving a password to use for the AWS Elastic ''
      @ ''Container Registry used by this Alation cluster. If this was a networking ''
      @ ''error, then perhaps the issue will resolve itself over time and it may be ''
      @ ''reattempted in the future. Otherwise, please contact Alation'' @ sq
      @ ''s site reliability engineering with the contents of this error.''\<close>

primrec ecr_error_source :: "ecr_error \<Rightarrow> string option" where
  "ecr_error_source (EcrUninstallSerdeError error) = Some error"
| "ecr_error_source (EcrImageSerdeError error) = Some error"
| "ecr_error_source (EcrUninstallFailure image_id failure_code failure_reason) = None"
| "ecr_error_source (EcrUninstallError cause) = Some cause"
| "ecr_error_source (UninstallCommandError error) = Some error"
| "ecr_error_source (GetPasswordError error) = Some error"

interpretation ecr_error: acm_error_type ecr_error_item ecr_error_display ecr_error_source
  by unfold_locales (rename_tac e, case_tac e; simp add: err_simps)+

text \<open>aim registry/containerd/import.rs: the import step.\<close>

datatype import_error =
    UnexpectedContainerdImageLsFormat string
  | UnexpectedContainerdImageRow string
  | UnexpectedImageReferenceFormat string
  | TempPathIsNotUFT8 string
  | CtrImageLs_NoData string string

definition CtrImageLs_def_item :: "status derive_input" where
  "CtrImageLs_def_item = enum_item ''CtrImageLs'' [variant_item ''NoData'' Fields_Named InternalServerError]"

primrec import_error_item :: "import_error \<Rightarrow> status derive_input \<times> string" where
  "import_error_item (UnexpectedContainerdImageLsFormat out) =
     struct_item ''UnexpectedContainerdImageLsFormat'' InternalServerError"
| "import_error_item (UnexpectedContainerdImageRow out) =
     struct_item ''UnexpectedContainerdImageRow'' InternalServerError"
| "import_error_item (UnexpectedImageReferenceFormat out) =
     struct_item ''UnexpectedImageReferenceFormat'' InternalServerError"
| "import_error_item (TempPathIsNotUFT8 path) =
     struct_item ''TempPathIsNotUFT8'' InternalServerError"
| "import_error_item (CtrImageLs_NoData ns header) = (CtrImageLs_def_item, ''NoData'')"

primrec import_error_display :: "import_error \<Rightarrow> string" where
  \<open>import_error_display (UnexpectedContainerdImageLsFormat out) =
      ''We received unexpected output from containerd at the "import" phase of our ''
      @ ''workflow. We expected a header of "REF TYPE DIGEST SIZE PLATFORMS LABELS" ''
      @ ''followed by a single row, but instead we got the following raw output: "'' @ out
      @ ''"''\<close>
| \<open>import_error_display (UnexpectedContainerdImageRow out) =
      ''We received unexpected output from containerd at the "import" phase of our ''
      @ ''workflow. We expected a header of "REF TYPE DIGEST SIZE PLATFORMS LABELS" ''
      @ ''followed by a single row, but instead we got the following raw output: "'' @ out
      @ ''"''\<close>
| \<open>import_error_display (UnexpectedImageReferenceFormat out) =
      ''We received unexpected output from containerd at the "import" phase of our ''
      @ ''workflow. We expected a header of "REF TYPE DIGEST SIZE PLATFORMS LABELS" ''
      @ ''followed by a single row whose "REF" section is of the format ''
      @ ''"<registry>/<repository>:<tag>"'' @ [CHR 0x0A]
      @ ''bit instead we got the following raw output: "'' @ out @ ''"''\<close>
| \<open>import_error_display (TempPathIsNotUFT8 path) =
      ''The temporary filepath for the connector'' @ sq
      @ ''s image was not valid UTF8 (was (lossy) '' @ path
      @ ''). This is concerning, although the install may work if you just try again.''\<close>
| \<open>import_error_display (CtrImageLs_NoData ns header) =
      ''Failed to list images for namespace '' @ ns
      @ ''. We appear to have only received the table header (got '' @ header @ '')''\<close>

primrec import_error_source :: "import_error \<Rightarrow> string option" where
  "import_error_source (UnexpectedContainerdImageLsFormat out) = None"
| "import_error_source (UnexpectedContainerdImageRow out) = None"
| "import_error_source (UnexpectedImageReferenceFormat out) = None"
| "import_error_source (TempPathIsNotUFT8 path) = None"
| "import_error_source (CtrImageLs_NoData ns header) = None"

interpretation import_error: acm_error_type import_error_item import_error_display import_error_source
  by unfold_locales (rename_tac e, case_tac e; simp add: err_simps CtrImageLs_def_item_def)+


section \<open>Boxed errors\<close>

text \<open>\<open>Box<dyn AcmError>\<close>: \<open>From<T>\<close> boxes (the constructors), the trait methods
  dispatch on the boxed value.\<close>

datatype acm_error =
    E_Api api_error
  | E_Pod pod_error
  | E_EventWatcher event_watcher_error
  | E_Gc gc_error
  | E_ServerCheck server_check_error
  | E_Handle handle_error
  | E_PodManager pod_manager_error
  | E_String string_error
  | E_Process process_error
  | E_Registry registry_error
  | E_Minikube minikube_error
  | E_Ecr ecr_error
  | E_Import import_error

primrec acm_item :: "acm_error \<Rightarrow> status derive_input \<times> string" where
  "acm_item (E_Api e) = api_error_item e"
| "acm_item (E_Pod e) = pod_error_item e"
| "acm_item (E_EventWatcher e) = event_watcher_error_item e"
| "acm_item (E_Gc e) = gc_error_item e"
| "acm_item (E_ServerCheck e) = server_check_error_item e"
| "acm_item (E_Handle e) = handle_error_item e"
| "acm_item (E_PodManager e) = pod_manager_error_item e"
| "acm_item (E_String e) = string_error_item e"
| "acm_item (E_Process e) = process_error_item e"
| "acm_item (E_Registry e) = registry_error_item e"
| "acm_item (E_Minikube e) = minikube_error_item e"
| "acm_item (E_Ecr e) = ecr_error_item e"
| "acm_item (E_Import e) = import_error_item e"

primrec acm_display :: "acm_error \<Rightarrow> string" where
  "acm_display (E_Api e) = api_error_display e"
| "acm_display (E_Pod e) = pod_error_display e"
| "acm_display (E_EventWatcher e) = event_watcher_error_display e"
| "acm_display (E_Gc e) = gc_error_display e"
| "acm_display (E_ServerCheck e) = server_check_error_display e"
| "acm_display (E_Handle e) = handle_error_display e"
| "acm_display (E_PodManager e) = pod_manager_error_display e"
| "acm_display (E_String e) = string_error_display e"
| "acm_display (E_Process e) = process_error_display e"
| "acm_display (E_Registry e) = registry_error_display e"
| "acm_display (E_Minikube e) = minikube_error_display e"
| "acm_display (E_Ecr e) = ecr_error_display e"
| "acm_display (E_Import e) = import_error_display e"

primrec acm_source :: "acm_error \<Rightarrow> string option" where
  "acm_source (E_Api e) = api_error_source e"
| "acm_source (E_Pod e) = pod_error_source e"
| "acm_source (E_EventWatcher e) = event_watcher_error_source e"
| "acm_source (E_Gc e) = gc_error_source e"
| "acm_source (E_ServerCheck e) = server_check_error_source e"
| "acm_source (E_Handle e) = handle_error_source e"
| "acm_source (E_PodManager e) = pod_manager_error_source e"
| "acm_source (E_String e) = string_error_source e"
| "acm_source (E_Process e) = process_error_source e"
| "acm_source (E_Registry e) = registry_error_source e"
| "acm_source (E_Minikube e) = minikube_error_source e"
| "acm_source (E_Ecr e) = ecr_error_source e"
| "acm_source (E_Import e) = import_error_source e"

type_synonym 'a acm_result = "('a, acm_error) result"

lemmas module_codes =
  api_error.code_is_error
  pod_error.code_is_error
  event_watcher_error.code_is_error
  gc_error.code_is_error
  server_check_error.code_is_error
  handle_error.code_is_error
  pod_manager_error.code_is_error
  string_error.code_is_error
  process_error.code_is_error
  registry_error.code_is_error
  minikube_error.code_is_error
  ecr_error.code_is_error
  import_error.code_is_error

lemmas module_kinds =
  api_error.kind_nonempty
  pod_error.kind_nonempty
  event_watcher_error.kind_nonempty
  gc_error.kind_nonempty
  server_check_error.kind_nonempty
  handle_error.kind_nonempty
  pod_manager_error.kind_nonempty
  string_error.kind_nonempty
  process_error.kind_nonempty
  registry_error.kind_nonempty
  minikube_error.kind_nonempty
  ecr_error.kind_nonempty
  import_error.kind_nonempty

interpretation boxed: acm_error_type acm_item acm_display acm_source
proof unfold_locales
  fix e
  show "BadRequest \<le> http_code_of (acm_item e)"
    by (cases e) (simp_all add: module_codes)
  show "kind_of (acm_item e) \<noteq> []"
    by (cases e) (simp_all add: module_kinds)
qed

abbreviation acm_kind :: "acm_error \<Rightarrow> string" where
  "acm_kind e \<equiv> kind_of (acm_item e)"

abbreviation acm_http_code :: "acm_error \<Rightarrow> status" where
  "acm_http_code e \<equiv> http_code_of (acm_item e)"

section \<open>Conversions\<close>

text \<open>\<open>From<kube::Error> for ApiError\<close> (library/k8s/src/errors.rs).\<close>

fun api_error_from :: "kube_error \<Rightarrow> api_error" where
  "api_error_from (Kube_Api r) = ApiError_Api (Kube_Api r)"
| "api_error_from (Kube_Connection s) = ApiError_Connection (Kube_Connection s)"
| "api_error_from err = ApiError_Rest err"

text \<open>\<open>From<T: AsRef<str>> for StringError\<close>, and from a boxed error by its debug text, which
  the derived \<open>Debug\<close> of the boxed value prints (an argument).\<close>

definition string_error_from :: "string \<Rightarrow> string_error" where
  "string_error_from inner = StringError inner"

definition string_error_from_box :: "(acm_error \<Rightarrow> string) \<Rightarrow> acm_error \<Rightarrow> string_error" where
  "string_error_from_box debug e = StringError (debug e)"

end
