(* ===== verification/Response.thy ===== *)
theory Response
  imports Error_Types
begin

text \<open>
  What a handler of either service sends back (library/response, the responder of
  library/error, and the trait \<open>Kind\<close> of library/kind): one JSON envelope with a
  \<open>payload\<close> and an \<open>error\<close>. \<open>serde_json::to_string_pretty\<close> is the argument
  \<open>pretty\<close> of the definitions.
\<close>

datatype json =
    JNull
  | JBool bool
  | JNum int
  | JStr string
  | JArr "json list"
  | JObj "(string \<times> json) list"

fun json_get :: "string \<Rightarrow> json \<Rightarrow> json option" where
  "json_get k (JObj kvs) = map_of kvs k"
| "json_get k _ = None"

record http_response =
  content_type :: string
  http_status :: status
  http_body :: string
  body_size :: nat

type_synonym printer = "json \<Rightarrow> (string, string) result"

section \<open>Kinds\<close>

text \<open>\<open>impl_kind!\<close>: the method that ignores its value and answers with the identifier.\<close>

definition impl_kind :: "string \<Rightarrow> 'a \<Rightarrow> string" where
  [simp]: "impl_kind ident _ = ident"

definition kind_unit :: "unit \<Rightarrow> string" where
  "kind_unit = impl_kind ''()''"

definition kind_string :: "string \<Rightarrow> string" where
  "kind_string = impl_kind ''String''"

text \<open>The numeric types it is invoked for as well.\<close>

definition kind_numeric :: "string list" where
  "kind_numeric =
     [''u8'', ''u16'', ''u32'', ''u64'', ''u128'', ''i8'', ''i16'', ''i32'', ''i64'', ''i128'', ''f32'', ''f64'']"

fun kind_vec :: "('a \<Rightarrow> string) \<Rightarrow> 'a list \<Rightarrow> string" where
  "kind_vec kind [] = ''List[]''"
| "kind_vec kind (x # xs) = ''List['' @ kind x @ '']''"

section \<open>Responders\<close>

text \<open>\<open>Response<T>\<close> and \<open>From<T> for Response<T>\<close>, the \<open>into()\<close> at the end of every handler.\<close>

record 'a response =
  response_payload :: 'a

definition response_from :: "'a \<Rightarrow> 'a response" where
  [simp]: "response_from x = \<lparr>response_payload = x\<rparr>"

definition opt_json :: "string option \<Rightarrow> json" where
  "opt_json o' = (case o' of None \<Rightarrow> JNull | Some s \<Rightarrow> JStr s)"

text \<open>\<open>Serialize for Box<dyn AcmError>\<close>.\<close>

definition serialize_error ::
  "('e \<Rightarrow> status derive_input \<times> string) \<Rightarrow> ('e \<Rightarrow> string) \<Rightarrow> ('e \<Rightarrow> string option) \<Rightarrow> 'e \<Rightarrow> json" where
  "serialize_error item display source e =
     JObj [(''kind'', JStr (kind_of (item e))),
           (''message'', JStr (display e)),
           (''cause'', opt_json (source e))]"

text \<open>Pretty-printing is expected never to fail; if it does, the handler panics.\<close>

definition send_json :: "printer \<Rightarrow> status \<Rightarrow> json \<Rightarrow> http_response outcome" where
  "send_json pretty st j =
     (case pretty j of
        Ok txt \<Rightarrow> Done \<lparr>content_type = ''application/json'', http_status = st,
                        http_body = txt, body_size = length txt\<rparr>
      | Err _ \<Rightarrow> Panic ''failed to pretty print'')"

text \<open>\<open>Responder for Box<dyn AcmError>\<close>.\<close>

definition respond_error ::
  "printer \<Rightarrow> ('e \<Rightarrow> status derive_input \<times> string) \<Rightarrow> ('e \<Rightarrow> string) \<Rightarrow> ('e \<Rightarrow> string option)
   \<Rightarrow> 'e \<Rightarrow> http_response outcome" where
  "respond_error pretty item display source e =
     send_json pretty (http_code_of (item e))
       (JObj [(''payload'', JNull), (''error'', serialize_error item display source e)])"

text \<open>\<open>Responder for Response<T>\<close>, for a payload with its kind and its JSON.\<close>

definition respond_payload ::
  "printer \<Rightarrow> ('a \<Rightarrow> string) \<Rightarrow> ('a \<Rightarrow> json) \<Rightarrow> 'a response \<Rightarrow> http_response outcome" where
  "respond_payload pretty kind ser resp =
     (let x = response_payload resp in
      send_json pretty StatusOk
        (JObj [(''payload'', JObj [(''kind'', JStr (kind x)), (''object'', ser x)]),
               (''error'', JNull)]))"

text \<open>A handler returns \<open>Result<Response<T>>\<close>, whose two sides respond for themselves.\<close>

fun respond ::
  "printer \<Rightarrow> ('a \<Rightarrow> string) \<Rightarrow> ('a \<Rightarrow> json) \<Rightarrow> 'a response acm_result \<Rightarrow> http_response outcome" where
  "respond pretty kind ser (Ok resp) = respond_payload pretty kind ser resp"
| "respond pretty kind ser (Err e) = respond_error pretty acm_item acm_display acm_source e"

section \<open>The envelope\<close>

lemma send_json_DoneE:
  assumes "send_json pretty st j = Done r"
  obtains "pretty j = Ok (http_body r)" "http_status r = st"
    "content_type r = ''application/json''" "body_size r = length (http_body r)"
  using assms by (auto simp: send_json_def split: result.splits)

context acm_error_type
begin

lemma error_envelope:
  assumes "respond_error pretty item display source e = Done r"
  shows "http_status r \<noteq> StatusOk \<and> BadRequest \<le> http_status r
    \<and> (\<exists>j. pretty j = Ok (http_body r) \<and> json_get ''payload'' j = Some JNull
          \<and> json_get ''error'' j = Some (serialize_error item display source e))"
proof -
  from assms have "http_status r = http_code_of (item e)"
    and "pretty (JObj [(''payload'', JNull), (''error'', serialize_error item display source e)])
         = Ok (http_body r)"
    by (auto simp: respond_error_def elim: send_json_DoneE)
  then show ?thesis using code_not_ok [of e] code_is_error [of e]
    by (auto intro!: exI [where x = "JObj [(''payload'', JNull),
                                      (''error'', serialize_error item display source e)]"])
qed

end

lemma payload_envelope:
  assumes "respond_payload pretty kind ser resp = Done r" and "x = response_payload resp"
  shows "http_status r = StatusOk
    \<and> (\<exists>j. pretty j = Ok (http_body r)
          \<and> json_get ''payload'' j = Some (JObj [(''kind'', JStr (kind x)), (''object'', ser x)])
          \<and> json_get ''error'' j = Some JNull)"
proof -
  let ?j = "JObj [(''payload'', JObj [(''kind'', JStr (kind x)), (''object'', ser x)]),
                  (''error'', JNull)]"
  from assms have "http_status r = StatusOk" and "pretty ?j = Ok (http_body r)"
    by (auto simp: respond_payload_def Let_def elim: send_json_DoneE)
  then show ?thesis by (auto intro!: exI [where x = ?j])
qed



end
