(* ===== verification/Names.thy ===== *)
theory Names
  imports Prelude
begin

text \<open>
  Model of library/names: DNS names for image tags (\<open>rfc1035_label\<close>) and for pods
  (\<open>rfc1123_subdomain\<close>). Outside the repository, and so arguments of the definitions:
  the UUID text (\<open>uuid\<close>, \<open>rand\<close>), the letter drawn by \<open>gen_range\<close>, the Unicode
  tables behind \<open>is_alphabetic\<close> and \<open>is_alphanumeric\<close> beyond ASCII, and
  \<open>convert_case\<close>'s \<open>to_case(Case::Kebab)\<close>.
\<close>

section \<open>Character classes\<close>

definition is_lower :: "char \<Rightarrow> bool" where
  "is_lower c \<longleftrightarrow> 97 \<le> byte c \<and> byte c \<le> 122"

definition is_upper :: "char \<Rightarrow> bool" where
  "is_upper c \<longleftrightarrow> 65 \<le> byte c \<and> byte c \<le> 90"

definition is_digit :: "char \<Rightarrow> bool" where
  "is_digit c \<longleftrightarrow> 48 \<le> byte c \<and> byte c \<le> 57"

definition is_hex_lower :: "char \<Rightarrow> bool" where
  "is_hex_lower c \<longleftrightarrow> is_digit c \<or> (97 \<le> byte c \<and> byte c \<le> 102)"

definition lower_alnum :: "char \<Rightarrow> bool" where
  "lower_alnum c \<longleftrightarrow> is_lower c \<or> is_digit c"

definition label_char :: "char \<Rightarrow> bool" where
  "label_char c \<longleftrightarrow> lower_alnum c \<or> c = CHR ''-''"

lemmas char_class_defs =
  is_lower_def is_upper_def is_digit_def is_hex_lower_def lower_alnum_def label_char_def

text \<open>\<open>char::is_alphabetic\<close> and \<open>char::is_alphanumeric\<close> on a UTF-8 encoded character.\<close>

fun is_alphabetic :: "(string \<Rightarrow> bool) \<Rightarrow> string \<Rightarrow> bool" where
  "is_alphabetic uni [c] = (is_lower c \<or> is_upper c)"
| "is_alphabetic uni ch = uni ch"

fun is_alphanumeric :: "(string \<Rightarrow> bool) \<Rightarrow> string \<Rightarrow> bool" where
  "is_alphanumeric uni [c] = (is_lower c \<or> is_upper c \<or> is_digit c)"
| "is_alphanumeric uni ch = uni ch"

section \<open>The functions of the crate\<close>

definition uuid :: "('r \<Rightarrow> string) \<Rightarrow> 'r \<Rightarrow> string" where
  "uuid to_simple rnd = to_simple rnd"

definition rfc1035_label :: "(string \<Rightarrow> bool) \<Rightarrow> string \<Rightarrow> char \<Rightarrow> string outcome" where
  "rfc1035_label uni name letter =
     (case chars name of
        [] \<Rightarrow> Panic ''String::remove''
      | ch # rest \<Rightarrow>
          if is_alphabetic uni ch then Done name else Done (letter # concat rest))"

definition DEFAULT_IF_INVALID_SUBDOMAIN :: string where
  "DEFAULT_IF_INVALID_SUBDOMAIN = ''invalid-rfc1123-connector-name''"

definition sanitize :: "(string \<Rightarrow> bool) \<Rightarrow> string \<Rightarrow> string" where
  "sanitize uni s = concat (map (\<lambda>ch. if is_alphanumeric uni ch then ch else '' '') (chars s))"

definition normal_prefix :: "(string \<Rightarrow> bool) \<Rightarrow> (string \<Rightarrow> string) \<Rightarrow> string \<Rightarrow> string" where
  "normal_prefix uni to_kebab prefix =
     (let p = to_kebab (sanitize uni prefix)
      in if p = [] then DEFAULT_IF_INVALID_SUBDOMAIN else p)"

definition fit_subdomain :: "string \<Rightarrow> string \<Rightarrow> (string \<times> string) outcome" where
  "fit_subdomain prefix u =
     (if length u + length prefix < 63 then Done (prefix, u)
      else if length prefix + 9 > 63 then
        outcome_bind (truncate_str (63 - 9) prefix) (\<lambda>p.
        outcome_bind (truncate_str 8 u) (\<lambda>u'. Done (p, u')))
      else outcome_bind (truncate_str (63 - 1 - length prefix) u) (\<lambda>u'. Done (prefix, u')))"

definition rfc1123_subdomain ::
  "(string \<Rightarrow> bool) \<Rightarrow> (string \<Rightarrow> string) \<Rightarrow> string \<Rightarrow> string \<Rightarrow> string outcome" where
  "rfc1123_subdomain uni to_kebab u prefix =
     outcome_bind (fit_subdomain (normal_prefix uni to_kebab prefix) u)
       (\<lambda>(p, u'). Done (p @ ''-'' @ u'))"

section \<open>What the packages promise\<close>

text \<open>The simple form of a UUID is 32 lowercase hexadecimal digits.\<close>

definition simple_uuid :: "string \<Rightarrow> bool" where
  "simple_uuid u \<longleftrightarrow> length u = 32 \<and> (\<forall>c \<in> set u. is_hex_lower c)"

definition kebab_text :: "string \<Rightarrow> bool" where
  "kebab_text t \<longleftrightarrow> (\<forall>c \<in> set t. label_char c) \<and> (t = [] \<or> lower_alnum (hd t))"

text \<open>
  Kebab case of ASCII words separated by spaces: lowercase words joined by hyphens, so that
  the text does not begin with a hyphen.
\<close>

definition ascii_words :: "string \<Rightarrow> bool" where
  "ascii_words s \<longleftrightarrow> (\<forall>c \<in> set s. is_lower c \<or> is_upper c \<or> is_digit c \<or> c = CHR '' '')"

definition kebab_law :: "(string \<Rightarrow> string) \<Rightarrow> bool" where
  "kebab_law to_kebab \<longleftrightarrow> (\<forall>s. ascii_words s \<longrightarrow> kebab_text (to_kebab s))"

section \<open>Valid labels\<close>

text \<open>
  Kubernetes' own check of an RFC 1123 label, \<open>[a-z0-9]([-a-z0-9]*[a-z0-9])?\<close> of at most 63
  bytes, and of an RFC 1035 label, \<open>[a-z]([-a-z0-9]*[a-z0-9])?\<close>.
\<close>

definition valid_rfc1123 :: "string \<Rightarrow> bool" where
  "valid_rfc1123 d \<longleftrightarrow> d \<noteq> [] \<and> length d \<le> 63 \<and> (\<forall>c \<in> set d. label_char c)
     \<and> lower_alnum (hd d) \<and> lower_alnum (last d)"

definition valid_rfc1035 :: "string \<Rightarrow> bool" where
  "valid_rfc1035 d \<longleftrightarrow> d \<noteq> [] \<and> length d \<le> 63 \<and> (\<forall>c \<in> set d. label_char c)
     \<and> is_lower (hd d) \<and> lower_alnum (last d)"

lemma hex_is_lower_alnum: "is_hex_lower c \<Longrightarrow> lower_alnum c"
  by (auto simp: char_class_defs)

lemma lower_alnum_is_label: "lower_alnum c \<Longrightarrow> label_char c"
  by (simp add: label_char_def)

lemma label_char_ascii: "label_char c \<Longrightarrow> byte c < 128"
  by (auto simp: char_class_defs)

lemma kebab_text_ascii: "kebab_text t \<Longrightarrow> ascii t"
  by (auto simp: kebab_text_def ascii_def dest: label_char_ascii)

lemma simple_uuid_ascii: "simple_uuid u \<Longrightarrow> ascii u"
  by (auto simp: simple_uuid_def ascii_def
      dest!: bspec hex_is_lower_alnum lower_alnum_is_label label_char_ascii)

lemma sanitize_ascii_words: "ascii s \<Longrightarrow> ascii_words (sanitize uni s)"
  by (auto simp: sanitize_def chars_ascii ascii_words_def split: if_splits)

lemma normal_prefix_kebab:
  assumes "kebab_law to_kebab" and "ascii prefix"
  shows "kebab_text (normal_prefix uni to_kebab prefix) \<and> normal_prefix uni to_kebab prefix \<noteq> []"
proof -
  have "kebab_text (to_kebab (sanitize uni prefix))"
    using assms sanitize_ascii_words by (auto simp: kebab_law_def)
  moreover have "kebab_text DEFAULT_IF_INVALID_SUBDOMAIN \<and> DEFAULT_IF_INVALID_SUBDOMAIN \<noteq> []"
    by (simp add: kebab_text_def DEFAULT_IF_INVALID_SUBDOMAIN_def char_class_defs)
  ultimately show ?thesis by (simp add: normal_prefix_def Let_def)
qed

lemma fit_subdomain_ascii:
  assumes "ascii prefix" and "ascii u" and "length u = 32"
  shows "\<exists>n m. fit_subdomain prefix u = Done (take n prefix, take m u)
     \<and> (prefix \<noteq> [] \<longrightarrow> take n prefix \<noteq> []) \<and> 8 \<le> m \<and> m \<le> 32
     \<and> length (take n prefix) + 1 + m \<le> 63
     \<and> (length prefix \<le> 54 \<longrightarrow> take n prefix = prefix)
     \<and> (length prefix > 30 \<longrightarrow> length (take n prefix) + 1 + m = 63)
     \<and> (length prefix \<le> 30 \<longrightarrow> m = 32)"
proof -
  consider "length prefix \<le> 30" | "30 < length prefix" "length prefix \<le> 54" | "54 < length prefix"
    by linarith
  then show ?thesis
  proof cases
    case 1
    then show ?thesis using assms
      by (intro exI [where x = "length prefix"] exI [where x = 32]) (simp add: fit_subdomain_def)
  next
    case 2
    then show ?thesis using assms
      by (intro exI [where x = "length prefix"] exI [where x = "62 - length prefix"])
        (auto simp: fit_subdomain_def truncate_str_ascii)
  next
    case 3
    then show ?thesis using assms
      by (intro exI [where x = 54] exI [where x = 8])
        (auto simp: fit_subdomain_def truncate_str_ascii)
  qed
qed

lemma set_takeD: "c \<in> set (take n s) \<Longrightarrow> c \<in> set s"
  by (auto dest: in_set_takeD)

lemma valid_label_join:
  assumes "kebab_text p" and "p \<noteq> []" and "u \<noteq> []" and "\<forall>c \<in> set u. is_hex_lower c"
    and "length p + 1 + length u \<le> 63"
  shows "valid_rfc1123 (p @ ''-'' @ u)"
proof -
  have "lower_alnum (last u)" using assms(3,4) by (simp add: hex_is_lower_alnum)
  moreover have "\<forall>c \<in> set u. label_char c"
    using assms(4) by (auto intro: hex_is_lower_alnum lower_alnum_is_label)
  ultimately show ?thesis using assms
    by (auto simp: valid_rfc1123_def kebab_text_def label_char_def)
qed

lemma subdomain_shape:
  assumes "kebab_law to_kebab" and "simple_uuid u" and "ascii prefix"
  shows "\<exists>n m. rfc1123_subdomain uni to_kebab u prefix
       = Done (take n (normal_prefix uni to_kebab prefix) @ ''-'' @ take m u)
     \<and> valid_rfc1123 (take n (normal_prefix uni to_kebab prefix) @ ''-'' @ take m u)
     \<and> 33 < length (take n (normal_prefix uni to_kebab prefix) @ ''-'' @ take m u)
     \<and> 8 \<le> m
     \<and> (length (normal_prefix uni to_kebab prefix) \<le> 54
          \<longrightarrow> take n (normal_prefix uni to_kebab prefix) = normal_prefix uni to_kebab prefix)
     \<and> (length (normal_prefix uni to_kebab prefix) \<le> 30 \<longrightarrow> take m u = u)"
proof -
  define p where "p = normal_prefix uni to_kebab prefix"
  have p: "kebab_text p" "p \<noteq> []" and u: "length u = 32" "\<forall>c \<in> set u. is_hex_lower c"
    using normal_prefix_kebab [OF assms(1,3), of uni] assms(2) by (auto simp: p_def simple_uuid_def)
  from fit_subdomain_ascii [OF kebab_text_ascii [OF p(1)] simple_uuid_ascii [OF assms(2)] u(1)]
  obtain n m where fit: "fit_subdomain p u = Done (take n p, take m u)"
    and nm: "take n p \<noteq> []" "8 \<le> m" "m \<le> 32" "length (take n p) + 1 + m \<le> 63"
      "length p \<le> 54 \<longrightarrow> take n p = p" "length p > 30 \<longrightarrow> length (take n p) + 1 + m = 63"
      "length p \<le> 30 \<longrightarrow> m = 32"
    using p(2) by blast
  have "kebab_text (take n p)"
    using p nm(1) by (auto simp: kebab_text_def dest: set_takeD)
  moreover have "take m u \<noteq> []" and "\<forall>c \<in> set (take m u). is_hex_lower c"
    using u nm(2) by (auto dest: set_takeD)
  ultimately have valid: "valid_rfc1123 (take n p @ ''-'' @ take m u)"
    using nm u(1) by (intro valid_label_join) auto
  have "0 < length (take n p)" using nm(1) by blast
  then have "33 < length (take n p @ ''-'' @ take m u)"
    using nm(3,6,7) u(1) by (cases "length p \<le> 30") (auto simp: min_def)
  with fit valid nm u(1) show ?thesis
    by (intro exI [where x = n] exI [where x = m])
      (auto simp: rfc1123_subdomain_def p_def [symmetric])
qed

corollary subdomain_valid:
  assumes "kebab_law to_kebab" and "simple_uuid u" and "ascii prefix"
  shows "\<exists>d. rfc1123_subdomain uni to_kebab u prefix = Done d \<and> valid_rfc1123 d"
  using subdomain_shape [OF assms, of uni] by blast

text \<open>
  C10: for every ASCII connector name, a pod name is produced and Kubernetes accepts it: it is a
  valid RFC 1123 label of 34 to 63 bytes made of a prefix of the normalised name, a hyphen and
  at least eight bytes of the UUID. A name of up to 54 bytes is kept whole, and one of up to 30
  bytes keeps the whole UUID too.
\<close>

theorem rfc1123_subdomain_valid:
  assumes "kebab_law to_kebab" and "simple_uuid u" and "ascii prefix"
  shows "\<exists>n m. rfc1123_subdomain uni to_kebab u prefix
       = Done (take n (normal_prefix uni to_kebab prefix) @ ''-'' @ take m u)
     \<and> valid_rfc1123 (take n (normal_prefix uni to_kebab prefix) @ ''-'' @ take m u)
     \<and> 33 < length (take n (normal_prefix uni to_kebab prefix) @ ''-'' @ take m u)
     \<and> 8 \<le> m
     \<and> (length (normal_prefix uni to_kebab prefix) \<le> 54
          \<longrightarrow> take n (normal_prefix uni to_kebab prefix) = normal_prefix uni to_kebab prefix)
     \<and> (length (normal_prefix uni to_kebab prefix) \<le> 30 \<longrightarrow> take m u = u)"
  using assms by (rule subdomain_shape)

text \<open>
  A concrete kebab function for evaluation: words are separated by spaces, ASCII capitals become
  small letters and every other byte stays as it is.
\<close>

definition to_lower :: "char \<Rightarrow> char" where
  "to_lower c = (if is_upper c then char_of (byte c + 32) else c)"

definition word_kebab :: "string \<Rightarrow> string" where
  "word_kebab s = join ''-'' (map (map to_lower) (filter (\<lambda>w. w \<noteq> []) (split_on CHR '' '' s)))"

lemma to_lower_alnum: "is_lower c \<or> is_upper c \<or> is_digit c \<Longrightarrow> lower_alnum (to_lower c)"
  by (auto simp: to_lower_def char_class_defs)

lemma join_kebab_text:
  assumes "\<forall>w \<in> set ws. w \<noteq> [] \<and> (\<forall>c \<in> set w. lower_alnum c)"
  shows "kebab_text (join ''-'' ws)"
  using assms
  by (induction "''-''" ws rule: join.induct) (auto simp: kebab_text_def label_char_def)

lemma split_on_set: "w \<in> set (split_on c s) \<Longrightarrow> set w \<subseteq> set s"
  by (induction s arbitrary: w) (fastforce split: if_splits list.splits)+

lemma word_kebab_law: "kebab_law word_kebab"
proof -
  have "kebab_text (word_kebab s)" if s: "ascii_words s" for s
  proof -
    have "lower_alnum (to_lower c)" if "w \<in> set (split_on CHR '' '' s)" "c \<in> set w" for w c
      using that s split_on_set [OF that(1)] split_on_piece_free [OF that(1)]
      by (intro to_lower_alnum) (auto simp: ascii_words_def)
    then show ?thesis
      unfolding word_kebab_def by (intro join_kebab_text) auto
  qed
  then show ?thesis by (simp add: kebab_law_def)
qed

theorem rfc1123_subdomain_valid_witness:
  "\<exists>d. rfc1123_subdomain (\<lambda>_. False) word_kebab ''0b15278c2f95272de1abc8295775292f'' ''Oracle v1'' = Done d
     \<and> valid_rfc1123 d"
proof -
  have "simple_uuid ''0b15278c2f95272de1abc8295775292f''"
    by (simp add: simple_uuid_def char_class_defs)
  moreover have "ascii ''Oracle v1''" by simp
  ultimately show ?thesis
    using rfc1123_subdomain_valid [OF word_kebab_law, of "''0b15278c2f95272de1abc8295775292f''"
        "''Oracle v1''" "\<lambda>_. False"]
    by blast
qed

text \<open>
  C40: the pod name is not always produced. A normalised name longer than 54 bytes whose 55th
  byte is inside a multi-byte character makes \<open>String::truncate\<close> panic, since
  \<open>is_alphanumeric\<close> lets every Unicode letter through.
\<close>

theorem rfc1123_subdomain_panics:
  assumes "normal_prefix uni to_kebab prefix = p" and "54 < length p" and "is_cont (p ! 54)"
    and "length u = 32"
  shows "rfc1123_subdomain uni to_kebab u prefix = Panic ''String::truncate''"
  using assms
  by (auto simp: rfc1123_subdomain_def fit_subdomain_def truncate_str_def is_char_boundary_def)

text \<open>The name is one ASCII letter and thirty times the letter e with an acute accent.\<close>

theorem rfc1123_subdomain_panics_witness:
  "rfc1123_subdomain (\<lambda>_. True) word_kebab (replicate 32 CHR ''0'')
     (CHR ''a'' # concat (replicate 30 [CHR 0xC3, CHR 0xA9])) = Panic ''String::truncate''"
proof -
  let ?p = "CHR ''a'' # concat (replicate 30 [CHR 0xC3, CHR 0xA9])"
  have "normal_prefix (\<lambda>_. True) word_kebab ?p = ?p"
    by code_simp
  moreover have "54 < length ?p" and "is_cont (?p ! 54)" by code_simp+
  ultimately show ?thesis
    by (rule rfc1123_subdomain_panics) simp
qed

lemma label_shape:
  assumes "simple_uuid u" and "is_lower letter"
  shows "\<exists>l. rfc1035_label uni u letter = Done l \<and> valid_rfc1035 l \<and> length l = 32 \<and> tl l = tl u
     \<and> (is_lower (hd u) \<longrightarrow> l = u)"
proof -
  from assms(1) obtain c cs where u: "u = c # cs" "length cs = 31" "is_hex_lower c"
    "\<forall>x \<in> set cs. is_hex_lower x"
    by (cases u) (auto simp: simple_uuid_def)
  have "chars u = map (\<lambda>x. [x]) u" using assms(1) by (intro chars_ascii simple_uuid_ascii)
  with u have lbl: "rfc1035_label uni u letter =
      Done (if is_lower c \<or> is_upper c then u else letter # cs)"
    by (simp add: rfc1035_label_def)
  have "cs \<noteq> []" using u(2) by auto
  moreover from this have "lower_alnum (last cs)" using u(4) by (simp add: hex_is_lower_alnum)
  moreover have "\<forall>x \<in> set cs. label_char x"
    using u(4) by (auto intro: hex_is_lower_alnum lower_alnum_is_label)
  moreover have "label_char letter" "\<not> is_upper c"
    using assms(2) u(3) by (auto simp: char_class_defs)
  moreover have "label_char c" using u(3) by (auto intro: hex_is_lower_alnum lower_alnum_is_label)
  ultimately show ?thesis using u assms(2) lbl by (auto simp: valid_rfc1035_def)
qed

text \<open>
  An image tag is a valid RFC 1035 label of exactly 32 bytes: when the UUID begins with a
  digit, its first byte is replaced by the drawn letter, and otherwise the UUID is the tag.
\<close>

lemma rfc1035_label_valid:
  assumes "simple_uuid u" and "is_lower letter"
  shows "\<exists>l. rfc1035_label uni u letter = Done l \<and> valid_rfc1035 l \<and> length l = 32 \<and> tl l = tl u
     \<and> (is_lower (hd u) \<longrightarrow> l = u)"
  using assms by (rule label_shape)

end
