(* ===== verification/Pod.thy ===== *)
theory Pod
  imports Response Names
begin

text \<open>
  Model of library/k8s/src/pod.rs: the pod manifest the ACM submits and the extension trait
  \<open>PodExt\<close> that answers questions about a pod object. The pod object itself is the part of
  \<open>k8s_openapi\<close>'s \<open>Pod\<close> the program reads or writes; decoding the manifest into it is
  the argument \<open>from_value\<close>.
\<close>

section \<open>The pod object\<close>

record object_meta =
  meta_name :: "string option"
  namespace :: "string option"
  labels :: "(string \<times> string) list option"
  resource_version :: "string option"

record container_state_waiting =
  waiting_reason :: "string option"
  waiting_message :: "string option"

record container_state_terminated =
  terminated_why :: "string option"
  terminated_text :: "string option"

record container_state =
  state_running :: "unit option"
  state_waiting :: "container_state_waiting option"
  state_terminated :: "container_state_terminated option"

record container_status =
  container_state_of :: "container_state option"

record pod_status =
  pod_ip :: "string option"
  container_statuses :: "container_status list option"

record container =
  container_name :: string
  image :: "string option"
  image_pull_policy :: "string option"
  env :: "(string \<times> string) list"
  ports :: "int list option"

record pod_spec =
  containers :: "container list"
  restart_policy :: "string option"

record pod =
  metadata :: object_meta
  spec :: "pod_spec option"
  pod_status_of :: "pod_status option"

definition default_meta :: object_meta where
  "default_meta = \<lparr>meta_name = None, namespace = None, labels = None, resource_version = None\<rparr>"

definition default_state :: container_state where
  "default_state = \<lparr>state_running = None, state_waiting = None, state_terminated = None\<rparr>"

definition default_status :: pod_status where
  "default_status = \<lparr>pod_ip = None, container_statuses = None\<rparr>"

definition default_pod :: pod where
  "default_pod = \<lparr>metadata = default_meta, spec = None, pod_status_of = None\<rparr>"

definition kind_pod :: "pod \<Rightarrow> string" where
  "kind_pod _ = ''Pod''"

text \<open>\<open>kube::ResourceExt::name\<close> panics on an object without a name.\<close>

definition resource_name :: "pod \<Rightarrow> string outcome" where
  "resource_name p = unwrap ''.metadata.name missing'' (meta_name (metadata p))"

section \<open>The manifest\<close>

definition OCF_NAMESPACE :: string where
  "OCF_NAMESPACE = ''ocf''"

definition OCF_SYSTEM_NAMESPACE :: string where
  "OCF_SYSTEM_NAMESPACE = ''ocf-system''"

definition pod_json :: "string \<Rightarrow> string \<Rightarrow> json" where
  "pod_json name reference =
     JObj [(''apiVersion'', JStr ''v1''),
           (''kind'', JStr ''Pod''),
           (''metadata'', JObj [(''name'', JStr name), (''namespace'', JStr OCF_NAMESPACE)]),
           (''spec'', JObj [(''containers'', JArr [JObj
              [(''name'', JStr name),
               (''image'', JStr reference),
               (''env'', JArr [JObj [(''name'', JStr ''PORT''), (''value'', JStr ''8080'')]]),
               (''restartPolicy'', JStr ''Never''),
               (''imagePullPolicy'', JStr ''IfNotPresent''),
               (''ports'', JArr [JObj [(''containerPort'', JNum 8080),
                                      (''protocol'', JStr ''TCP'')]])]])])]"

record naming =
  unicode_alnum :: "string \<Rightarrow> bool"
  kebab :: "string \<Rightarrow> string"
  fresh_uuid :: string

definition pod_new ::
  "naming \<Rightarrow> (json \<Rightarrow> (pod, string) result) \<Rightarrow> string \<Rightarrow> string \<Rightarrow> pod acm_result outcome" where
  "pod_new nm from_value reference name =
     outcome_bind (rfc1123_subdomain (unicode_alnum nm) (kebab nm) (fresh_uuid nm) name) (\<lambda>name'.
       Done (map_err (\<lambda>source. E_Pod (PodSerializationError name' reference source))
               (from_value (pod_json name' reference))))"

section \<open>PodExt\<close>

abbreviation op_dns :: string where
  "op_dns \<equiv> ''retrieving its cluster DNS entry''"

abbreviation op_port :: string where
  "op_port \<equiv> ''retrieving its listening port number''"

definition replace_char :: "char \<Rightarrow> string \<Rightarrow> string \<Rightarrow> string" where
  "replace_char c t s = concat (map (\<lambda>x. if x = c then t else [x]) s)"

definition dns :: "pod \<Rightarrow> string acm_result" where
  "dns p =
     and_then (ok_or (E_Pod (PodHasNoStatus op_dns)) (pod_status_of p)) (\<lambda>st.
     and_then (ok_or (E_Pod (PodHasNoIp op_dns)) (pod_ip st)) (\<lambda>ip.
     and_then (ok_or (E_Pod (PodHasNoNamespace op_dns)) (namespace (metadata p))) (\<lambda>domain.
       Ok (replace_char (CHR ''.'') ''-'' ip @ ''.'' @ domain @ ''.pod''))))"

definition first :: "'a list \<Rightarrow> 'a option" where
  "first xs = (case xs of [] \<Rightarrow> None | x # _ \<Rightarrow> Some x)"

definition port :: "pod \<Rightarrow> int acm_result" where
  "port p =
     and_then (ok_or (E_Pod (PodHasNoSpec op_port)) (spec p)) (\<lambda>sp.
     and_then (ok_or (E_Pod (PodHasNoContainers op_port)) (first (containers sp))) (\<lambda>c.
     and_then (ok_or (E_Pod (ContainerHasNoPorts op_port)) (ports c)) (\<lambda>ps.
       ok_or (E_Pod (ContainerHasNoPorts op_port)) (first ps))))"

definition address :: "pod \<Rightarrow> string acm_result" where
  "address p = and_then (dns p) (\<lambda>d. and_then (port p) (\<lambda>n. Ok (d @ '':'' @ show_int n)))"

text \<open>The chain of \<open>unwrap_or\<close> that every state question begins with.\<close>

definition statuses :: "pod \<Rightarrow> container_status list" where
  "statuses p =
     (let st = (case pod_status_of p of None \<Rightarrow> default_status | Some st \<Rightarrow> st)
      in case container_statuses st of None \<Rightarrow> [] | Some cs \<Rightarrow> cs)"

definition state_of :: "container_status \<Rightarrow> container_state" where
  "state_of c = (case container_state_of c of None \<Rightarrow> default_state | Some s \<Rightarrow> s)"

definition running :: "pod \<Rightarrow> bool" where
  "running p = list_ex (\<lambda>c. state_running (state_of c) \<noteq> None) (statuses p)"

definition terminated :: "pod \<Rightarrow> bool" where
  "terminated p = list_ex (\<lambda>c. state_terminated (state_of c) \<noteq> None) (statuses p)"

definition waiting_for :: "string \<Rightarrow> container_status \<Rightarrow> bool" where
  "waiting_for reason c =
     (case state_waiting (state_of c) of
        None \<Rightarrow> False
      | Some w \<Rightarrow> waiting_reason w = Some reason)"

definition was_err_image_pull :: "pod \<Rightarrow> bool" where
  "was_err_image_pull p = (find (waiting_for ''ErrImagePull'') (statuses p) \<noteq> None)"

definition crashed :: "pod \<Rightarrow> bool" where
  "crashed p = (find (waiting_for ''CrashLoopBackOff'') (statuses p) \<noteq> None)"

definition err_image_pull :: "pod \<Rightarrow> unit acm_result outcome" where
  "err_image_pull p =
     (case find (waiting_for ''ErrImagePull'') (statuses p) of
        None \<Rightarrow> Done (Ok ())
      | Some problem \<Rightarrow>
          outcome_bind (unwrap ''state'' (container_state_of problem)) (\<lambda>s.
          outcome_bind (unwrap ''waiting'' (state_waiting s)) (\<lambda>w.
          outcome_bind (unwrap ''message'' (waiting_message w)) (\<lambda>message.
            Done (Err (E_Pod (ErrImagePull (pod_error_display (ErrImagePullCause message)))))))))"

definition terminated_field ::
  "(container_state_terminated \<Rightarrow> string option) \<Rightarrow> pod \<Rightarrow> string option" where
  "terminated_field field p =
     (let status = map (\<lambda>c. case state_terminated (state_of c) of
                              None \<Rightarrow> None | Some t \<Rightarrow> field t) (statuses p)
      in if status = [] then None else last status)"

definition terminated_reason :: "pod \<Rightarrow> string option" where
  "terminated_reason = terminated_field terminated_why"

definition terminated_message :: "pod \<Rightarrow> string option" where
  "terminated_message = terminated_field terminated_text"

lemmas pod_ext_defs =
  running_def terminated_def was_err_image_pull_def crashed_def err_image_pull_def
  statuses_def state_of_def waiting_for_def

section \<open>Addresses\<close>

lemma first_Some_iff [simp]: "first xs = Some x \<longleftrightarrow> (\<exists>ys. xs = x # ys)"
  by (auto simp: first_def split: list.splits)

text \<open>
  The address of a pod is given exactly when it has an IP, a namespace and a first container
  with a first port, and it is then the dashed IP, the namespace and the port; in every other
  case the call is an error and no address is made up.
\<close>

lemma address_iff:
  "address p = Ok a \<longleftrightarrow>
     (\<exists>st ip ns sp c cs n ns'. pod_status_of p = Some st \<and> pod_ip st = Some ip
        \<and> namespace (metadata p) = Some ns \<and> spec p = Some sp \<and> containers sp = c # cs
        \<and> ports c = Some (n # ns')
        \<and> a = replace_char (CHR ''.'') ''-'' ip @ ''.'' @ ns @ ''.pod:'' @ show_int n)"
  by (fastforce simp: address_def dns_def port_def)

text \<open>No dot of an IPv4 address survives in the host part, so it is one DNS label.\<close>

lemma replace_char_removes: "c \<notin> set t \<Longrightarrow> c \<notin> set (replace_char c t s)"
  by (auto simp: replace_char_def)

section \<open>Image pull failures\<close>

lemma find_waiting_SomeD:
  assumes "find (waiting_for r) (statuses p) = Some problem"
  shows "\<exists>s w. container_state_of problem = Some s \<and> state_waiting s = Some w
    \<and> waiting_reason w = Some r"
proof -
  from assms have "waiting_for r problem" by (auto simp: find_Some_iff)
  then show ?thesis
    by (auto simp: waiting_for_def state_of_def default_state_def split: option.splits)
qed

lemma err_image_pull_split:
  "case err_image_pull p of
     Panic m \<Rightarrow> m = ''message'' \<and> was_err_image_pull p
       \<and> (\<exists>c s w. find (waiting_for ''ErrImagePull'') (statuses p) = Some c
            \<and> container_state_of c = Some s \<and> state_waiting s = Some w \<and> waiting_message w = None)
   | Done r \<Rightarrow> (\<not> is_ok r \<longleftrightarrow> was_err_image_pull p)"
proof (cases "find (waiting_for ''ErrImagePull'') (statuses p)")
  case None
  then show ?thesis by (simp add: err_image_pull_def was_err_image_pull_def)
next
  case (Some c)
  from find_waiting_SomeD [OF Some] obtain s w where
    "container_state_of c = Some s" "state_waiting s = Some w" by blast
  with Some show ?thesis
    by (cases "waiting_message w") (simp_all add: err_image_pull_def was_err_image_pull_def)
qed

lemma err_image_pull_DoneD:
  "err_image_pull p = Done r \<Longrightarrow> was_err_image_pull p \<Longrightarrow> \<exists>e. r = Err e"
  using err_image_pull_split [of p] by (cases r) auto

lemma err_image_pull_PanicD: "err_image_pull p = Panic m \<Longrightarrow> m = ''message''"
  using err_image_pull_split [of p] by simp

text \<open>
  Of the three unwraps in \<open>err_image_pull\<close> the search before them justifies only the
  first two. The call panics exactly when the first container waiting on \<open>ErrImagePull\<close> has
  no message; otherwise it is an error exactly when \<open>was_err_image_pull\<close> holds.
\<close>

lemma err_image_pull_cases:
  "case err_image_pull p of
     Panic m \<Rightarrow> m = ''message'' \<and> was_err_image_pull p
       \<and> (\<exists>c s w. find (waiting_for ''ErrImagePull'') (statuses p) = Some c
            \<and> container_state_of c = Some s \<and> state_waiting s = Some w \<and> waiting_message w = None)
   | Done r \<Rightarrow> (\<not> is_ok r \<longleftrightarrow> was_err_image_pull p)"
  by (rule err_image_pull_split)

section \<open>The manifest as a pod object\<close>

text \<open>
  A decoder for the fields above, by their names in the Kubernetes API; other keys are ignored.
  It is the reference for what \<open>from_value\<close> does with the manifest.
\<close>

fun json_str :: "json option \<Rightarrow> string option" where
  "json_str (Some (JStr s)) = Some s"
| "json_str _ = None"

fun json_list :: "json option \<Rightarrow> json list" where
  "json_list (Some (JArr js)) = js"
| "json_list _ = []"

fun json_num :: "json option \<Rightarrow> int" where
  "json_num (Some (JNum n)) = n"
| "json_num _ = 0"

definition json_text :: "json option \<Rightarrow> string" where
  "json_text j = (case json_str j of None \<Rightarrow> [] | Some s \<Rightarrow> s)"

definition decode_container :: "json \<Rightarrow> container" where
  "decode_container j =
     \<lparr>container_name = json_text (json_get ''name'' j),
      image = json_str (json_get ''image'' j),
      image_pull_policy = json_str (json_get ''imagePullPolicy'' j),
      env = map (\<lambda>e. (json_text (json_get ''name'' e), json_text (json_get ''value'' e)))
              (json_list (json_get ''env'' j)),
      ports = map_option (\<lambda>ps. map (\<lambda>e. json_num (json_get ''containerPort'' e)) (json_list (Some ps)))
                (json_get ''ports'' j)\<rparr>"

definition decode_pod :: "json \<Rightarrow> pod" where
  "decode_pod j =
     (let m = json_get ''metadata'' j; sp = json_get ''spec'' j in
      \<lparr>metadata = default_meta\<lparr>meta_name := json_str (Option.bind m (json_get ''name'')),
                               namespace := json_str (Option.bind m (json_get ''namespace''))\<rparr>,
       spec = map_option (\<lambda>s. \<lparr>containers = map decode_container (json_list (json_get ''containers'' s)),
                              restart_policy = json_str (json_get ''restartPolicy'' s)\<rparr>) sp,
       pod_status_of = None\<rparr>)"

definition decode_law :: "(json \<Rightarrow> (pod, string) result) \<Rightarrow> bool" where
  "decode_law from_value \<longleftrightarrow> (\<forall>n r. from_value (pod_json n r) = Ok (decode_pod (pod_json n r)))"

lemma decode_pod_json:
  "decode_pod (pod_json n r) =
     \<lparr>metadata = \<lparr>meta_name = Some n, namespace = Some ''ocf'', labels = None, resource_version = None\<rparr>,
      spec = Some \<lparr>containers = [\<lparr>container_name = n, image = Some r,
                     image_pull_policy = Some ''IfNotPresent'', env = [(''PORT'', ''8080'')],
                     ports = Some [8080]\<rparr>],
                   restart_policy = None\<rparr>,
      pod_status_of = None\<rparr>"
  by (simp add: decode_pod_def pod_json_def decode_container_def json_text_def default_meta_def
      OCF_NAMESPACE_def Let_def)

text \<open>
  C39: a connector name in ASCII gives a pod in the namespace \<open>ocf\<close> with one container that
  runs the requested image under a valid RFC 1123 name and listens on port 8080. The pod's restart
  policy is left to the cluster's default: the manifest puts \<open>restartPolicy: Never\<close> into the
  container, where Kubernetes has no such field.
\<close>

theorem pod_new_spec:
  assumes "kebab_law (kebab nm)" and "simple_uuid (fresh_uuid nm)" and "ascii name"
    and "decode_law from_value"
  shows "\<exists>p n sp c. pod_new nm from_value reference name = Done (Ok p)
    \<and> meta_name (metadata p) = Some n \<and> valid_rfc1123 n
    \<and> namespace (metadata p) = Some OCF_NAMESPACE
    \<and> spec p = Some sp \<and> containers sp = [c] \<and> container_name c = n
    \<and> image c = Some reference \<and> port p = Ok 8080 \<and> restart_policy sp = None"
proof -
  from subdomain_valid [OF assms(1-3), of "unicode_alnum nm"] obtain n where
    n: "rfc1123_subdomain (unicode_alnum nm) (kebab nm) (fresh_uuid nm) name = Done n"
      "valid_rfc1123 n"
    by blast
  have "pod_new nm from_value reference name = Done (Ok (decode_pod (pod_json n reference)))"
    using n(1) assms(4) by (simp add: pod_new_def decode_law_def)
  then show ?thesis using n(2)
    by (simp add: decode_pod_json port_def first_def OCF_NAMESPACE_def)
qed

theorem pod_new_spec_witness:
  "\<exists>p n. pod_new \<lparr>unicode_alnum = (\<lambda>_. False), kebab = word_kebab,
             fresh_uuid = ''0b15278c2f95272de1abc8295775292f''\<rparr>
           (\<lambda>j. Ok (decode_pod j)) ''registry.kurl/ocf:s0b1'' ''Oracle v1'' = Done (Ok p)
     \<and> meta_name (metadata p) = Some n \<and> valid_rfc1123 n \<and> port p = Ok 8080"
proof -
  let ?nm = "\<lparr>unicode_alnum = (\<lambda>_. False), kebab = word_kebab,
              fresh_uuid = ''0b15278c2f95272de1abc8295775292f''\<rparr>"
  have "kebab_law (kebab ?nm)" by (simp add: word_kebab_law)
  moreover have "simple_uuid (fresh_uuid ?nm)" by (simp add: simple_uuid_def char_class_defs)
  moreover have "ascii ''Oracle v1''" by simp
  moreover have "decode_law (\<lambda>j. Ok (decode_pod j))" by (simp add: decode_law_def)
  ultimately show ?thesis
    using pod_new_spec [of ?nm "''Oracle v1''" "\<lambda>j. Ok (decode_pod j)" "''registry.kurl/ocf:s0b1''"]
    by blast
qed

end
