(* ===== verification/Watcher.thy ===== *)
theory Watcher
  imports Pod
begin

text \<open>
  Model of library/k8s/src/watcher.rs: the stream of pod events. The state machine lists, opens
  a watch at the listed resource version, relays what the watch sends and recovers when it
  breaks. The API server is a record of functions that thread its state \<open>'w\<close>; an open watch
  is a value of type \<open>'s\<close>. The trampoline loop of \<open>step\<close> may spin for ever (a watch that
  closes at once, again and again), so it is a partial function.
\<close>

section \<open>Events and errors\<close>

datatype watcher_error =
    InitialListFailed kube_error
  | WatchStartFailed kube_error
  | WatchError error_response
  | WatchFailed kube_error

datatype 'k event = Added 'k | Applied 'k | Deleted 'k | Restarted "'k list"

fun into_iter_added :: "'k event \<Rightarrow> 'k list" where
  "into_iter_added (Added obj) = [obj]"
| "into_iter_added _ = []"

fun into_iter_applied :: "'k event \<Rightarrow> 'k list" where
  "into_iter_applied (Applied obj) = [obj]"
| "into_iter_applied (Added obj) = [obj]"
| "into_iter_applied (Deleted _) = []"
| "into_iter_applied (Restarted objs) = objs"

fun into_iter_touched :: "'k event \<Rightarrow> 'k list" where
  "into_iter_touched (Restarted objs) = objs"
| "into_iter_touched (Applied obj) = [obj]"
| "into_iter_touched (Deleted obj) = [obj]"
| "into_iter_touched (Added obj) = [obj]"

fun into_iter_deleted :: "'k event \<Rightarrow> 'k list" where
  "into_iter_deleted (Deleted obj) = [obj]"
| "into_iter_deleted _ = []"

text \<open>Every object an event touches is either applied or deleted, and none is both.\<close>

lemma touched_partition:
  "into_iter_touched e = into_iter_applied e @ into_iter_deleted e"
  "into_iter_applied e = [] \<or> into_iter_deleted e = []"
  by (cases e; simp)+

section \<open>The state machine\<close>

datatype watch_item =
    Item_Added pod
  | Item_Modified pod
  | Item_Deleted pod
  | Item_Bookmark string
  | Item_Error error_response

record ('w, 's) watch_api =
  api_list :: "'w \<Rightarrow> (pod list \<times> string option, kube_error) result \<times> 'w"
  api_watch :: "string \<Rightarrow> 'w \<Rightarrow> ('s, kube_error) result \<times> 'w"
  stream_next :: "'s \<Rightarrow> 'w \<Rightarrow> (watch_item, kube_error) result option \<times> 's \<times> 'w"

datatype 's wstate = Empty | InitListed string | Watching string 's

type_synonym watch_result = "(pod event, watcher_error) result"

text \<open>An object of the watch stream: its own version becomes the one to resume from.\<close>

definition relay ::
  "(pod \<Rightarrow> pod event) \<Rightarrow> pod \<Rightarrow> 's \<Rightarrow> 'w \<Rightarrow> (watch_result option \<times> 's wstate \<times> 'w) outcome" where
  "relay ev obj stream w =
     outcome_bind (unwrap ''resource_version'' (resource_version (metadata obj))) (\<lambda>rv.
       Done (Some (Ok (ev obj)), Watching rv stream, w))"

fun step_trampolined ::
  "('w, 's) watch_api \<Rightarrow> 's wstate \<Rightarrow> 'w \<Rightarrow> (watch_result option \<times> 's wstate \<times> 'w) outcome" where
  "step_trampolined api Empty w =
     (case api_list api w of
        (Ok (items, version), w') \<Rightarrow>
          outcome_bind (unwrap ''resource_version'' version) (\<lambda>rv.
            Done (Some (Ok (Restarted items)), InitListed rv, w'))
      | (Err err, w') \<Rightarrow> Done (Some (Err (InitialListFailed err)), Empty, w'))"
| "step_trampolined api (InitListed rv) w =
     (case api_watch api rv w of
        (Ok stream, w') \<Rightarrow> Done (None, Watching rv stream, w')
      | (Err err, w') \<Rightarrow> Done (Some (Err (WatchStartFailed err)), InitListed rv, w'))"
| "step_trampolined api (Watching rv stream) w =
     (case stream_next api stream w of
        (Some (Ok (Item_Added obj)), stream', w') \<Rightarrow> relay Added obj stream' w'
      | (Some (Ok (Item_Modified obj)), stream', w') \<Rightarrow> relay Applied obj stream' w'
      | (Some (Ok (Item_Deleted obj)), stream', w') \<Rightarrow> relay Deleted obj stream' w'
      | (Some (Ok (Item_Bookmark bm)), stream', w') \<Rightarrow> Done (None, Watching bm stream', w')
      | (Some (Ok (Item_Error err)), stream', w') \<Rightarrow>
          Done (Some (Err (WatchError err)),
                if resp_code err = 410 then Empty else Watching rv stream', w')
      | (Some (Err err), stream', w') \<Rightarrow>
          Done (Some (Err (WatchFailed err)), Watching rv stream', w')
      | (None, stream', w') \<Rightarrow> Done (None, InitListed rv, w'))"

partial_function (option) watcher_step ::
  "('w, 's) watch_api \<Rightarrow> 's wstate \<Rightarrow> 'w \<Rightarrow> (watch_result \<times> 's wstate \<times> 'w) outcome option" where
  "watcher_step api state w =
     (case step_trampolined api state w of
        Panic m \<Rightarrow> Some (Panic m)
      | Done (res, state', w') \<Rightarrow>
          (case res of
             Some r \<Rightarrow> Some (Done (r, state', w'))
           | None \<Rightarrow> watcher_step api state' w'))"

text \<open>
  \<open>watcher\<close> unfolds \<open>step\<close> from \<open>Empty\<close>, and every unfolding yields an item.
  \<open>try_next\<close> on the stream turns the item's error outwards.
\<close>

fun transpose_item :: "watch_result \<Rightarrow> (pod event option, watcher_error) result" where
  "transpose_item (Ok ev) = Ok (Some ev)"
| "transpose_item (Err e) = Err e"

definition watcher_try_next ::
  "('w, 's) watch_api \<Rightarrow> 's wstate \<Rightarrow> 'w
   \<Rightarrow> ((pod event option, watcher_error) result \<times> 's wstate \<times> 'w) outcome option" where
  "watcher_try_next api state w =
     map_option (\<lambda>r. outcome_bind r (\<lambda>(x, state', w'). Done (transpose_item x, state', w')))
       (watcher_step api state w)"

text \<open>The first \<open>n\<close> items of the stream.\<close>

fun watcher_take ::
  "('w, 's) watch_api \<Rightarrow> nat \<Rightarrow> 's wstate \<Rightarrow> 'w \<Rightarrow> (watch_result list \<times> 's wstate \<times> 'w) outcome option" where
  "watcher_take api 0 state w = Some (Done ([], state, w))"
| "watcher_take api (Suc n) state w =
     (case watcher_step api state w of
        None \<Rightarrow> None
      | Some (Panic m) \<Rightarrow> Some (Panic m)
      | Some (Done (r, state', w')) \<Rightarrow>
          map_option (\<lambda>o'. outcome_bind o' (\<lambda>(rs, s, v). Done (r # rs, s, v)))
            (watcher_take api n state' w'))"

lemma watcher_step_Done:
  "step_trampolined api st w = Done (Some r, st', w') \<Longrightarrow> watcher_step api st w = Some (Done (r, st', w'))"
  by (subst watcher_step.simps) simp

lemma watcher_step_again:
  "step_trampolined api st w = Done (None, st', w') \<Longrightarrow> watcher_step api st w = watcher_step api st' w'"
  by (subst watcher_step.simps) simp

section \<open>Properties of the stream\<close>

text \<open>
  The stream never ends. Whatever the API server does, an item of the stream is an event or an
  error, never the end of the stream.
\<close>

lemma watcher_never_closes:
  "watcher_try_next api st w \<noteq> Some (Done (Ok None, st', w'))"
proof -
  have "transpose_item x \<noteq> Ok None" for x by (cases x) auto
  then show ?thesis by (auto simp: watcher_try_next_def)
qed

text \<open>A watch whose contents are known: reading pops the first item.\<close>

type_synonym script = "(watch_item, kube_error) result list"

definition replays :: "('w, script) watch_api \<Rightarrow> bool" where
  "replays api \<longleftrightarrow> (\<forall>x xs w. stream_next api (x # xs) w = (Some x, xs, w))"

fun item_event :: "watch_item \<Rightarrow> pod event option" where
  "item_event (Item_Added obj) = Some (Added obj)"
| "item_event (Item_Modified obj) = Some (Applied obj)"
| "item_event (Item_Deleted obj) = Some (Deleted obj)"
| "item_event _ = None"

fun versioned :: "watch_item \<Rightarrow> bool" where
  "versioned (Item_Added obj) = (resource_version (metadata obj) \<noteq> None)"
| "versioned (Item_Modified obj) = (resource_version (metadata obj) \<noteq> None)"
| "versioned (Item_Deleted obj) = (resource_version (metadata obj) \<noteq> None)"
| "versioned (Item_Bookmark _) = True"
| "versioned (Item_Error _) = False"

fun item_version :: "watch_item \<Rightarrow> string option" where
  "item_version (Item_Added obj) = resource_version (metadata obj)"
| "item_version (Item_Modified obj) = resource_version (metadata obj)"
| "item_version (Item_Deleted obj) = resource_version (metadata obj)"
| "item_version (Item_Bookmark bm) = Some bm"
| "item_version (Item_Error _) = None"

lemma watching_item:
  assumes "replays api" and "versioned x"
  shows "\<exists>rv'. item_version x = Some rv'
    \<and> step_trampolined api (Watching rv (Ok x # xs)) w
        = Done (map_option Ok (item_event x), Watching rv' xs, w)"
  using assms by (cases x) (auto simp: replays_def relay_def)

text \<open>
  C11: a watch is relayed faithfully. If the open watch holds the items \<open>xs\<close> and then whatever
  else, the next items of the stream are exactly the added, modified and deleted objects of
  \<open>xs\<close> in their order; bookmarks produce no event, nothing is lost, repeated or reordered,
  and every one of these items is produced.
\<close>

theorem watcher_relays:
  assumes "replays api" and "list_all versioned xs"
  shows "\<exists>rv' ys. watcher_take api (length (List.map_filter item_event xs)) (Watching rv (map Ok xs @ rest)) w
    = Some (Done (map Ok (List.map_filter item_event xs), Watching rv' ys, w))"
  using assms(2)
proof (induction xs arbitrary: rv)
  case Nil
  then show ?case by simp
next
  case (Cons x xs)
  then have "versioned x" by simp
  from watching_item [OF assms(1) this, of rv "map Ok xs @ rest" w] obtain rv1 where
    st: "step_trampolined api (Watching rv (map Ok (x # xs) @ rest)) w
      = Done (map_option Ok (item_event x), Watching rv1 (map Ok xs @ rest), w)"
    by auto
  from Cons obtain rv2 ys where
    IH: "watcher_take api (length (List.map_filter item_event xs)) (Watching rv1 (map Ok xs @ rest)) w
      = Some (Done (map Ok (List.map_filter item_event xs), Watching rv2 ys, w))"
    using Cons.IH [of rv1] Cons.prems by fastforce
  show ?case
  proof (cases "item_event x")
    case None
    show ?thesis
    proof (cases "List.map_filter item_event xs")
      case Nil
      with None show ?thesis by auto
    next
      case (Cons e es)
      from None st have "watcher_step api (Watching rv (map Ok (x # xs) @ rest)) w
          = watcher_step api (Watching rv1 (map Ok xs @ rest)) w"
        by (intro watcher_step_again) simp
      with IH None Cons show ?thesis by simp
    qed
  next
    case (Some e)
    with st have "watcher_step api (Watching rv (map Ok (x # xs) @ rest)) w
        = Some (Done (Ok e, Watching rv1 (map Ok xs @ rest), w))"
      by (intro watcher_step_Done) simp
    with IH Some show ?thesis by simp
  qed
qed

text \<open>A scripted API server for evaluation: the answers to \<open>list\<close>, one after the other.\<close>

definition script_api :: "script \<Rightarrow> ((pod list \<times> string option, kube_error) result list, script) watch_api" where
  "script_api contents =
     \<lparr>api_list = (\<lambda>w. case w of [] \<Rightarrow> (Err (Kube_Other ''done''), []) | x # xs \<Rightarrow> (x, xs)),
      api_watch = (\<lambda>rv w. (Ok contents, w)),
      stream_next = (\<lambda>s w. case s of [] \<Rightarrow> (None, [], w) | x # xs \<Rightarrow> (Some x, xs, w))\<rparr>"

definition versioned_pod :: "string \<Rightarrow> pod" where
  "versioned_pod v = default_pod\<lparr>metadata := default_meta\<lparr>resource_version := Some v\<rparr>\<rparr>"

lemma script_replays: "replays (script_api contents)"
  by (simp add: replays_def script_api_def)

theorem watcher_relays_witness:
  "\<exists>rv' ys. watcher_take (script_api []) 2
       (Watching ''1'' (map Ok [Item_Added (versioned_pod ''2''), Item_Bookmark ''3'',
                                Item_Modified (versioned_pod ''4'')] @ [])) []
     = Some (Done ([Ok (Added (versioned_pod ''2'')), Ok (Applied (versioned_pod ''4''))],
                   Watching rv' ys, []))"
proof -
  let ?xs = "[Item_Added (versioned_pod ''2''), Item_Bookmark ''3'', Item_Modified (versioned_pod ''4'')]"
  have "list_all versioned ?xs" by (simp add: versioned_pod_def)
  from watcher_relays [OF script_replays this, of "[]" "''1''" "[]" "[]"] show ?thesis
    by (simp add: List.map_filter_simps numeral_2_eq_2)
qed

text \<open>
  A desynchronised watch (HTTP 410) is reported once and then answered by a fresh listing:
  the two items are the error and \<open>Restarted\<close> with all listed objects, and watching goes
  on at the listed version. So \<open>Restarted\<close> says that the watch, not a pod, was restarted.
\<close>

lemma resync_items:
  assumes "replays api" and "resp_code err = 410" and "api_list api w = (Ok (items, Some v), w')"
  shows "watcher_take api 2 (Watching rv (Ok (Item_Error err) # rest)) w
    = Some (Done ([Err (WatchError err), Ok (Restarted items)], InitListed v, w'))"
proof -
  have "watcher_step api (Watching rv (Ok (Item_Error err) # rest)) w
      = Some (Done (Err (WatchError err), Empty, w))"
    using assms(1,2) by (intro watcher_step_Done) (simp add: replays_def)
  moreover have "watcher_step api Empty w = Some (Done (Ok (Restarted items), InitListed v, w'))"
    using assms(3) by (intro watcher_step_Done) simp
  ultimately show ?thesis by (simp add: numeral_2_eq_2)
qed

text \<open>
  When a watch ends, the next item comes from a new watch opened at the last version seen;
  the interruption itself is not an item of the stream.
\<close>

lemma watcher_resumes:
  assumes "stream_next api stream w = (None, stream', w1)" and "api_watch api rv w1 = (Ok stream2, w2)"
  shows "watcher_step api (Watching rv stream) w = watcher_step api (Watching rv stream2) w2"
proof -
  have "watcher_step api (Watching rv stream) w = watcher_step api (InitListed rv) w1"
    using assms(1) by (intro watcher_step_again) simp
  also have "\<dots> = watcher_step api (Watching rv stream2) w2"
    using assms(2) by (intro watcher_step_again) simp
  finally show ?thesis .
qed

end
