(* ===== verification/Backoff.thy ===== *)
theory Backoff
  imports Prelude
begin

text \<open>
  The exponential backoff that the health check, the event watcher and the cleanup of temporary
  images pause with. The crate \<open>backoff\<close> is outside the repository: a record of operations on
  an abstract state, what the health check relies on as a law, and one concrete backoff for
  evaluation. Times are milliseconds.
\<close>

section \<open>Exponential backoff\<close>

record 'b backoff_ops =
  bo_new :: "nat \<Rightarrow> 'b"
  bo_next :: "nat \<Rightarrow> 'b \<Rightarrow> nat option \<times> 'b"
  bo_reset :: "nat \<Rightarrow> 'b \<Rightarrow> 'b"
  bo_elapsed :: "nat \<Rightarrow> 'b \<Rightarrow> nat"

text \<open>The backoff counts from when it was made or last reset; asking for a pause does not.\<close>

definition elapsed_law :: "'b backoff_ops \<Rightarrow> ('b \<Rightarrow> nat) \<Rightarrow> bool" where
  "elapsed_law bo since \<longleftrightarrow>
     (\<forall>t. since (bo_new bo t) = t) \<and> (\<forall>t b. since (snd (bo_next bo t b)) = since b)
     \<and> (\<forall>t b. bo_elapsed bo t b = t - since b)"

text \<open>It grants no pause once its \<open>max_elapsed_time\<close> has passed.\<close>

definition gives_up_law :: "'b backoff_ops \<Rightarrow> ('b \<Rightarrow> nat) \<Rightarrow> nat \<Rightarrow> bool" where
  "gives_up_law bo since limit \<longleftrightarrow> (\<forall>t b. since b + limit < t \<longrightarrow> fst (bo_next bo t b) = None)"

section \<open>A concrete backoff\<close>

text \<open>For evaluation: a pause of half a second until a limit has elapsed.\<close>

definition half_second :: "nat \<Rightarrow> nat backoff_ops" where
  "half_second limit =
     \<lparr>bo_new = (\<lambda>t. t),
      bo_next = (\<lambda>t b. (if t - b \<le> limit then Some 500 else None, b)),
      bo_reset = (\<lambda>t b. t),
      bo_elapsed = (\<lambda>t b. t - b)\<rparr>"

lemma half_second_law: "elapsed_law (half_second limit) id"
  by (simp add: elapsed_law_def half_second_def)

lemma half_second_gives_up: "gives_up_law (half_second limit) id limit"
  by (auto simp: gives_up_law_def half_second_def)

lemma half_second_first: "fst (bo_next (half_second limit) t (bo_new (half_second limit) t)) \<noteq> None"
  by (simp add: half_second_def)

end
