(* ===== verification/Server_Check.thy ===== *)
theory Server_Check
  imports Pod Backoff
begin

text \<open>
  Model of acm podmanager/server_check.rs: the coroutine that polls a new pod's gRPC endpoint for
  at most thirty seconds. Times are milliseconds. The endpoint
  parser and the gRPC client are outside the repository: the first is an argument, the second the
  inputs of the coroutine.
\<close>

section \<open>The coroutine\<close>

definition MAXIMUM_POLLING_TIME :: nat where
  "MAXIMUM_POLLING_TIME = 30"

datatype check_wait =
    Sleeping nat
  | Connecting nat
  | CheckReturned
  | CheckPanicked string

record 'b check =
  endpoint :: string
  check_backoff :: 'b
  latest_error :: "string option"
  check_wait :: check_wait

datatype check_event = TimerFired | Sigint | Connection "(unit, string) result"

record check_input =
  check_event :: check_event
  check_now :: nat
  output_open :: bool

datatype check_effect = Report "unit acm_result"

text \<open>\<open>output.send(r).unwrap()\<close> and the \<open>return\<close> after it.\<close>

definition report :: "bool \<Rightarrow> unit acm_result \<Rightarrow> 'b check \<Rightarrow> 'b check \<times> check_effect list" where
  "report is_open r c =
     (if is_open then (c\<lparr>check_wait := CheckReturned\<rparr>, [Report r])
      else (c\<lparr>check_wait := CheckPanicked ''output.send''\<rparr>, []))"

text \<open>The head of the loop: ask for the next pause, or give up with the latest error.\<close>

definition check_top ::
  "'b backoff_ops \<Rightarrow> nat \<Rightarrow> bool \<Rightarrow> 'b check \<Rightarrow> 'b check \<times> check_effect list" where
  "check_top bo now is_open c =
     (case bo_next bo now (check_backoff c) of
        (None, b) \<Rightarrow>
          (case latest_error c of
             None \<Rightarrow> (c\<lparr>check_backoff := b, check_wait := CheckPanicked ''latest_error''\<rparr>, [])
           | Some src \<Rightarrow> report is_open (Err (E_ServerCheck (TooManyFailures (endpoint c) src)))
                          (c\<lparr>check_backoff := b\<rparr>))
      | (Some pause, b) \<Rightarrow> (c\<lparr>check_backoff := b, check_wait := Sleeping (now + pause)\<rparr>, []))"

definition check_start ::
  "'b backoff_ops \<Rightarrow> string \<Rightarrow> nat \<Rightarrow> bool \<Rightarrow> 'b check \<times> check_effect list" where
  "check_start bo uri now is_open =
     check_top bo now is_open
       \<lparr>endpoint = uri, check_backoff = bo_new bo now, latest_error = None,
        check_wait = Sleeping now\<rparr>"

definition check_step ::
  "'b backoff_ops \<Rightarrow> 'b check \<Rightarrow> check_input \<Rightarrow> 'b check \<times> check_effect list" where
  "check_step bo c i =
     (case check_wait c of
        Sleeping _ \<Rightarrow>
          (case check_event i of
             TimerFired \<Rightarrow>
               (let patience = MAXIMUM_POLLING_TIME * 1000 - bo_elapsed bo (check_now i) (check_backoff c)
                in (c\<lparr>check_wait := Connecting (check_now i + patience)\<rparr>, []))
           | Sigint \<Rightarrow> (c\<lparr>check_wait := CheckReturned\<rparr>, [])
           | Connection _ \<Rightarrow> (c, []))
      | Connecting _ \<Rightarrow>
          (case check_event i of
             Connection (Ok _) \<Rightarrow> report (output_open i) (Ok ()) c
           | Connection (Err err) \<Rightarrow>
               check_top bo (check_now i) (output_open i) (c\<lparr>latest_error := Some err\<rparr>)
           | TimerFired \<Rightarrow> report (output_open i) (Err (E_ServerCheck NotReady)) c
           | Sigint \<Rightarrow> (c\<lparr>check_wait := CheckReturned\<rparr>, []))
      | CheckReturned \<Rightarrow> (c, [])
      | CheckPanicked _ \<Rightarrow> (c, []))"

text \<open>\<open>ServerCheck::new\<close>: the endpoint of the pod, or why there is none.\<close>

definition server_check_new :: "(string \<Rightarrow> string option) \<Rightarrow> pod \<Rightarrow> string acm_result" where
  "server_check_new parse p =
     and_then (address p) (\<lambda>a.
       let uri = ''http://'' @ a in
       case parse uri of
         None \<Rightarrow> Ok uri
       | Some source \<Rightarrow> Err (E_ServerCheck (GrpcEndpointParsdeError uri source)))"

text \<open>
  \<open>ServerCheck::kill\<close>: send the signal, then await the coroutine. It may still handle what was
  ready before the signal (\<open>ready\<close>); the signal is the last thing it sees. A coroutine that is gone
  already is only logged. \<open>ServerCheck::join\<close> awaits without a signal: it is over once the
  coroutine is.
\<close>

definition server_check_kill ::
  "'b backoff_ops \<Rightarrow> (check_event \<times> nat) list \<Rightarrow> nat \<Rightarrow> 'b check \<Rightarrow> 'b check \<times> check_effect list" where
  "server_check_kill bo ready now c =
     run (check_step bo) c
       (map (\<lambda>(ev, t). \<lparr>check_event = ev, check_now = t, output_open = True\<rparr>) (ready @ [(Sigint, now)]))"

fun check_halted :: "check_wait \<Rightarrow> bool" where
  "check_halted CheckReturned = True"
| "check_halted (CheckPanicked _) = True"
| "check_halted _ = False"

definition server_check_join :: "'b check \<Rightarrow> 'b check option" where
  "server_check_join c = (if check_halted (check_wait c) then Some c else None)"

lemmas [machine_simps] = check_step_def check_top_def report_def Let_def

section \<open>The coroutine as a daemon\<close>

text \<open>It reports at most once, and only when it returns.\<close>

definition check_reports :: "'b check \<Rightarrow> check_effect list \<Rightarrow> bool" where
  "check_reports c es \<longleftrightarrow>
     (case check_wait c of
        CheckReturned \<Rightarrow> length es \<le> 1
      | _ \<Rightarrow> es = [])"

interpretation check: traced_daemon "check_step bo" "\<lambda>c. check_halted (check_wait c)" check_reports
  for bo :: "'b backoff_ops"
proof unfold_locales
  fix s :: "'b check" and i
  assume "check_halted (check_wait s)"
  then show "check_step bo s i = (s, [])"
    by (cases "check_wait s") (auto simp: check_step_def)
next
  fix s s' :: "'b check" and es es' i
  assume "check_reports s es" "\<not> check_halted (check_wait s)" "check_step bo s i = (s', es')"
  then show "check_reports s' (es @ es')"
    by (auto simp: check_reports_def machine_simps
        split: check_wait.splits check_event.splits result.splits option.splits prod.splits if_splits)
qed

text \<open>
  The second invariant: inside the loop the latest error is set whenever the coroutine is past
  its first attempt, which is what its comment claims about the unwrap.
\<close>

definition check_total :: "'b backoff_ops \<Rightarrow> ('b \<Rightarrow> nat) \<Rightarrow> nat \<Rightarrow> 'b check \<Rightarrow> bool" where
  "check_total bo since t0 c \<longleftrightarrow>
     (case check_wait c of CheckPanicked m \<Rightarrow> m = ''output.send'' | _ \<Rightarrow> since (check_backoff c) = t0)"

lemma check_top_total:
  assumes "elapsed_law bo since" and "since (check_backoff c) = t0"
    and "latest_error c \<noteq> None \<or> fst (bo_next bo now (check_backoff c)) \<noteq> None"
  shows "check_total bo since t0 (fst (check_top bo now is_open c))"
proof -
  have "since (snd (bo_next bo now (check_backoff c))) = t0"
    using assms(1,2) by (simp add: elapsed_law_def)
  with assms(3) show ?thesis
    by (auto simp: check_total_def check_top_def report_def split: prod.splits option.splits)
qed

lemma check_step_total:
  assumes law: "elapsed_law bo since" and "check_total bo since t0 c"
  shows "check_total bo since t0 (fst (check_step bo c i))"
proof (cases "check_wait c")
  case (Sleeping d)
  with assms show ?thesis
    by (auto simp: check_total_def check_step_def Let_def split: check_event.splits)
next
  case (Connecting d)
  with assms have "since (check_backoff c) = t0" by (simp add: check_total_def)
  then have retry: "check_total bo since t0 (fst (check_top bo now is_open (c\<lparr>latest_error := Some e\<rparr>)))"
    for now is_open e
    using law by (intro check_top_total) simp_all
  with Connecting \<open>since (check_backoff c) = t0\<close> show ?thesis
    by (auto simp: check_step_def report_def check_total_def [of _ _ _ "c\<lparr>check_wait := _\<rparr>"]
        split: check_event.splits result.splits)
qed (use assms in \<open>auto simp: check_step_def\<close>)

lemma check_run_total:
  assumes "elapsed_law bo since" and "check_total bo since t0 c"
  shows "check_total bo since t0 (fst (run (check_step bo) c is))"
  using assms(2)
proof (induction "is" arbitrary: c)
  case (Cons i "is")
  from Cons.IH [OF check_step_total [OF assms(1) Cons.prems, of i]] show ?case
    by (auto split: prod.splits)
qed simp

lemma check_start_total:
  assumes "elapsed_law bo since" and "fst (bo_next bo t0 (bo_new bo t0)) \<noteq> None"
  shows "check_total bo since t0 (fst (check_start bo uri t0 is_open))"
  using assms unfolding check_start_def by (intro check_top_total) (auto simp: elapsed_law_def)

text \<open>
  If the very first pause is granted, the health check never panics on its latest error: the
  only panic left is a result channel that the event watcher has closed.
\<close>

lemma check_no_missing_error:
  assumes "elapsed_law bo since" and "fst (bo_next bo t0 (bo_new bo t0)) \<noteq> None"
    and "check_wait (fst (run (check_step bo) (fst (check_start bo uri t0 is_open)) is)) = CheckPanicked m"
  shows "m = ''output.send''"
  using check_run_total [OF assms(1) check_start_total [OF assms(1,2), of uri is_open], of "is"] assms(3)
  by (simp add: check_total_def)

text \<open>
  An attempt to connect gets what is left of the thirty seconds since the check began and
  nothing more: begun before the limit, it is given up at the limit; begun after it, at once.
\<close>

lemma check_patience:
  assumes "elapsed_law bo since" and "fst (bo_next bo t0 (bo_new bo t0)) \<noteq> None"
    and "c = fst (run (check_step bo) (fst (check_start bo uri t0 is_open)) is)"
    and "check_wait c = Sleeping d" and "check_event i = TimerFired" and "t0 \<le> check_now i"
  shows "check_wait (fst (check_step bo c i)) = Connecting (max (check_now i) (t0 + 30000))"
proof -
  have "check_total bo since t0 c"
    unfolding assms(3) by (intro check_run_total check_start_total assms(1,2))
  with assms(4) have "since (check_backoff c) = t0" by (simp add: check_total_def)
  with assms(1) have "bo_elapsed bo (check_now i) (check_backoff c) = check_now i - t0"
    by (simp add: elapsed_law_def)
  with assms(4-6) show ?thesis
    by (auto simp: check_step_def MAXIMUM_POLLING_TIME_def Let_def max_def)
qed

lemma check_ok_step:
  assumes "check_step bo c i = (c', es)" and "Report (Ok ()) \<in> set es"
  shows "check_event i = Connection (Ok ())"
  using assms
  by (auto simp: machine_simps
      split: check_wait.splits check_event.splits result.splits option.splits prod.splits if_splits)

lemma check_ok_run:
  assumes "run (check_step bo) c is = (c', es)" and "Report (Ok ()) \<in> set es"
  shows "\<exists>i \<in> set is. check_event i = Connection (Ok ())"
  using run_effect_origin [OF assms] by (metis check_ok_step prod.collapse)

lemma check_start_quiet: "check_reports (fst (check_start bo uri t0 is_open)) []"
  by (auto simp: check_start_def check_top_def check_reports_def split: prod.splits option.splits)

text \<open>
  The health check reports at most once, and it reports success only after a connection to
  the pod's endpoint was established.
\<close>

lemma check_reports_once:
  assumes "run (check_step bo) (fst (check_start bo uri t0 is_open)) is = (c, es)"
  shows "length es \<le> 1 \<and> (es \<noteq> [] \<longrightarrow> check_wait c = CheckReturned)
    \<and> (Report (Ok ()) \<in> set es \<longrightarrow> (\<exists>i \<in> set is. check_event i = Connection (Ok ())))"
proof -
  have "check_reports c ([] @ es)"
    using check_start_quiet assms by (rule check.run_inv)
  then show ?thesis using check_ok_run [OF assms]
    by (auto simp: check_reports_def split: check_wait.splits)
qed

lemma server_check_kill_halts: "check_halted (check_wait (fst (server_check_kill bo ready now c)))"
proof -
  have "check_halted (check_wait (fst (check_step bo c' \<lparr>check_event = Sigint, check_now = now, output_open = True\<rparr>)))"
    for c' by (cases "check_wait c'") (simp_all add: check_step_def)
  then show ?thesis by (auto simp: server_check_kill_def run_append split: prod.splits) (metis fst_conv)
qed

section \<open>Termination\<close>

text \<open>What the coroutine awaits: while it pauses there is no connection to hear from.\<close>

definition awaits :: "'b check \<Rightarrow> check_input \<Rightarrow> bool" where
  "awaits c i \<longleftrightarrow>
     (case check_wait c of Sleeping _ \<Rightarrow> (\<forall>r. check_event i \<noteq> Connection r) | _ \<Rightarrow> True)"

lemma check_attempt_last:
  assumes "gives_up_law bo since limit" and "since (check_backoff c) + limit < check_now i"
    and "\<forall>d. check_wait c \<noteq> Sleeping d"
  shows "check_halted (check_wait (fst (check_step bo c i)))"
proof (cases "check_wait c")
  case (Connecting d)
  have "fst (bo_next bo (check_now i) (check_backoff c)) = None"
    using assms(1,2) by (simp add: gives_up_law_def)
  with Connecting show ?thesis
    by (auto simp: machine_simps split: check_event.splits result.splits option.splits prod.splits)
qed (use assms in \<open>auto simp: check_step_def\<close>)

lemma check_pause_last:
  assumes "check_wait c = Sleeping d" and "awaits c i"
  shows "check_halted (check_wait (fst (check_step bo c i)))
    \<or> (\<exists>d'. check_wait (fst (check_step bo c i)) = Connecting d')
       \<and> check_backoff (fst (check_step bo c i)) = check_backoff c"
  using assms by (auto simp: awaits_def check_step_def Let_def split: check_event.splits)


section \<open>Evaluation\<close>


end
