(* ===== verification/Event_Watcher.thy ===== *)
theory Event_Watcher
  imports Watcher Server_Check
begin

text \<open>
  Model of acm podmanager/event_watcher.rs: the coroutine that follows one pod through its three
  phases (until it runs, until its health check is decided, until it is gone), tells the garbage
  collector about it and hands the verdict to the waiting client. Its inputs are what it awaits:
  an item of the watch stream or the health check's report, each with the time and with whether
  the receiving ends of its two channels are still there. A send is an effect that says whether
  it was received.
\<close>

section \<open>Signals, inputs, effects\<close>

datatype gc_status = GcRunning pod | GcTerminated

text \<open>\<open>Phase2Event\<close>; a dropped result channel is the error of the second case.\<close>

datatype ew_event =
    K8s "(pod event option, watcher_error) result"
  | HealthCheck "(unit acm_result, unit) result"

record ew_input =
  ew_event :: ew_event
  ew_now :: nat
  gc_open :: bool
  upstream_open :: bool

datatype ew_effect =
    SendResult "pod acm_result" bool
  | SendGc gc_status bool
  | KillPod string
  | SleepFor nat
  | CheckStart string
  | CheckKill
  | CheckJoin

datatype ew_phase = Phase1 | Phase2 pod | Phase3 | EwReturned | EwPanicked string

record 'b event_watcher =
  pod_id :: string
  ew_backoff :: 'b
  ew_phase :: ew_phase

record 'b ew_env =
  backoff_of :: "'b backoff_ops"
  parse_endpoint :: "string \<Rightarrow> string option"
  show_duration :: "nat \<Rightarrow> string"

section \<open>The coroutine\<close>

definition ew_start :: "'b ew_env \<Rightarrow> string \<Rightarrow> nat \<Rightarrow> 'b event_watcher" where
  "ew_start en name now =
     \<lparr>pod_id = name, ew_backoff = bo_new (backoff_of en) now, ew_phase = Phase1\<rparr>"

text \<open>\<open>EventWatcher::new_watcher\<close>: the daemon for a pod, spawned.\<close>

definition new_watcher :: "'b ew_env \<Rightarrow> string \<Rightarrow> nat \<Rightarrow> 'b event_watcher" where
  [simp]: "new_watcher en name now = ew_start en name now"

text \<open>
  \<open>PodManagerLowerHandle::send\<close> gives the value back when nobody can receive it any more;
  \<open>send_result\<close> makes that an error of its own.
\<close>

definition lower_send :: "bool \<Rightarrow> pod acm_result \<Rightarrow> (unit, pod acm_result) result" where
  [simp]: "lower_send is_open v = (if is_open then Ok () else Err v)"

definition send_result :: "pod acm_result \<Rightarrow> ew_input \<Rightarrow> unit acm_result \<times> ew_effect list" where
  [simp]: "send_result r i =
     (map_err (\<lambda>_. E_EventWatcher SendChannelClose) (lower_send (upstream_open i) r),
      [SendResult r (upstream_open i)])"

definition kill_gc :: "ew_input \<Rightarrow> ew_effect list" where
  "kill_gc i = [SendGc GcTerminated (gc_open i)]"

definition kill_pod :: "'b event_watcher \<Rightarrow> ew_effect list" where
  "kill_pod d = [KillPod (pod_id d)]"

definition terminate :: "acm_error \<Rightarrow> 'b event_watcher \<Rightarrow> ew_input \<Rightarrow> ew_effect list" where
  "terminate err d i = snd (send_result (Err err) i) @ kill_gc i @ kill_pod d"

definition stop :: "acm_error \<Rightarrow> 'b event_watcher \<Rightarrow> ew_input \<Rightarrow> 'b event_watcher \<times> ew_effect list" where
  "stop err d i = (d\<lparr>ew_phase := EwReturned\<rparr>, terminate err d i)"

text \<open>An error of the stream: pause, or give up when the backoff does; \<open>first\<close> comes before the verdict.\<close>

definition on_stream_error ::
  "'b ew_env \<Rightarrow> ew_effect list \<Rightarrow> 'b event_watcher \<Rightarrow> ew_input \<Rightarrow> 'b event_watcher \<times> ew_effect list" where
  "on_stream_error en before d i =
     (case bo_next (backoff_of en) (ew_now i) (ew_backoff d) of
        (Some duration, b) \<Rightarrow> (d\<lparr>ew_backoff := b\<rparr>, [SleepFor duration])
      | (None, b) \<Rightarrow>
          (d\<lparr>ew_backoff := b, ew_phase := EwReturned\<rparr>,
           before @ terminate (E_EventWatcher (KubernetesUnresponsive
             (show_duration en (bo_elapsed (backoff_of en) (ew_now i) b)))) d i))"

definition reset_backoff :: "'b ew_env \<Rightarrow> ew_input \<Rightarrow> 'b event_watcher \<Rightarrow> 'b event_watcher" where
  "reset_backoff en i d = d\<lparr>ew_backoff := bo_reset (backoff_of en) (ew_now i) (ew_backoff d)\<rparr>"

text \<open>Entering phase 2: \<open>ServerCheck::new\<close> on the running pod.\<close>

definition enter_phase2 ::
  "'b ew_env \<Rightarrow> pod \<Rightarrow> 'b event_watcher \<Rightarrow> ew_input \<Rightarrow> 'b event_watcher \<times> ew_effect list" where
  "enter_phase2 en p d i =
     (case server_check_new (parse_endpoint en) p of
        Ok uri \<Rightarrow> (d\<lparr>ew_phase := Phase2 p\<rparr>, [CheckStart uri])
      | Err err \<Rightarrow> stop err d i)"

definition on_applied ::
  "'b ew_env \<Rightarrow> pod \<Rightarrow> 'b event_watcher \<Rightarrow> ew_input \<Rightarrow> 'b event_watcher \<times> ew_effect list" where
  "on_applied en p d i =
     (if running p then
        if gc_open i then
          (case enter_phase2 en p d i of (d', es) \<Rightarrow> (d', SendGc (GcRunning p) True # es))
        else
          (case stop (E_EventWatcher (GarbageCollectorUnresponsive (pod_id d))) d i of
             (d', es) \<Rightarrow> (d', SendGc (GcRunning p) False # es))
      else if terminated p \<or> crashed p then stop (E_EventWatcher PodCrashed) d i
      else if was_err_image_pull p then
        (case err_image_pull p of
           Panic m \<Rightarrow> (d\<lparr>ew_phase := EwPanicked m\<rparr>, [])
         | Done (Err err) \<Rightarrow> stop err d i
         | Done (Ok _) \<Rightarrow> (d\<lparr>ew_phase := EwPanicked ''unsafe call to PodExt::err_image_pull''\<rparr>, []))
      else (d, []))"

definition phase1_step ::
  "'b ew_env \<Rightarrow> 'b event_watcher \<Rightarrow> ew_input \<Rightarrow> (pod event option, watcher_error) result
   \<Rightarrow> 'b event_watcher \<times> ew_effect list" where
  "phase1_step en d i next' =
     (case next' of
        Err _ \<Rightarrow> on_stream_error en [] d i
      | Ok ev \<Rightarrow>
          (let d = reset_backoff en i d in
           case ev of
             None \<Rightarrow> stop (E_EventWatcher UnexpectedCloseOfEventStream) d i
           | Some (Added _) \<Rightarrow> (d, [])
           | Some (Deleted _) \<Rightarrow> stop (E_EventWatcher PodDeleted) d i
           | Some (Restarted _) \<Rightarrow> (d, [])
           | Some (Applied p) \<Rightarrow> on_applied en p d i))"

definition phase2_step ::
  "'b ew_env \<Rightarrow> pod \<Rightarrow> 'b event_watcher \<Rightarrow> ew_input \<Rightarrow> 'b event_watcher \<times> ew_effect list" where
  "phase2_step en p d i =
     (case ew_event i of
        K8s (Err _) \<Rightarrow> on_stream_error en [CheckKill] d i
      | K8s (Ok (Some (Deleted _))) \<Rightarrow>
          (case stop (E_EventWatcher PodDeleted) d i of (d', es) \<Rightarrow> (d', CheckKill # es))
      | K8s (Ok (Some (Restarted _))) \<Rightarrow>
          (case stop (E_EventWatcher PodRebooted) d i of (d', es) \<Rightarrow> (d', CheckKill # es))
      | K8s (Ok None) \<Rightarrow>
          (case stop (E_EventWatcher UnexpectedCloseOfEventStream) d i of
             (d', es) \<Rightarrow> (d', CheckKill # es))
      | K8s (Ok (Some _)) \<Rightarrow> (reset_backoff en i d, [])
      | HealthCheck (Err _) \<Rightarrow>
          (case stop (E_EventWatcher HealthCheckDroppedItsChannel) d i of
             (d', es) \<Rightarrow> (d', CheckJoin # es))
      | HealthCheck (Ok (Err err)) \<Rightarrow>
          (case stop err d i of (d', es) \<Rightarrow> (d', CheckJoin # es))
      | HealthCheck (Ok (Ok _)) \<Rightarrow>
          (case send_result (Ok p) i of
             (Ok _, es) \<Rightarrow> (d\<lparr>ew_phase := Phase3\<rparr>, CheckJoin # es)
           | (Err _, es) \<Rightarrow> (d\<lparr>ew_phase := EwReturned\<rparr>, CheckJoin # es @ kill_gc i @ kill_pod d)))"

definition phase3_step ::
  "'b ew_env \<Rightarrow> 'b event_watcher \<Rightarrow> ew_input \<Rightarrow> (pod event option, watcher_error) result
   \<Rightarrow> 'b event_watcher \<times> ew_effect list" where
  "phase3_step en d i next' =
     (case next' of
        Err _ \<Rightarrow> on_stream_error en [] d i
      | Ok ev \<Rightarrow>
          (let d = reset_backoff en i d in
           case ev of
             None \<Rightarrow> stop (E_EventWatcher UnexpectedCloseOfEventStream) d i
           | Some (Deleted _) \<Rightarrow> (d\<lparr>ew_phase := EwReturned\<rparr>, kill_gc i)
           | Some (Restarted _) \<Rightarrow> stop (E_EventWatcher PodRebooted) d i
           | Some _ \<Rightarrow> (d, [])))"

text \<open>\<open>watch\<close>. Phases 1 and 3 do not poll the health check.\<close>

definition ew_step ::
  "'b ew_env \<Rightarrow> 'b event_watcher \<Rightarrow> ew_input \<Rightarrow> 'b event_watcher \<times> ew_effect list" where
  "ew_step en d i =
     (case ew_phase d of
        Phase1 \<Rightarrow> (case ew_event i of K8s x \<Rightarrow> phase1_step en d i x | HealthCheck _ \<Rightarrow> (d, []))
      | Phase2 p \<Rightarrow> phase2_step en p d i
      | Phase3 \<Rightarrow> (case ew_event i of K8s x \<Rightarrow> phase3_step en d i x | HealthCheck _ \<Rightarrow> (d, []))
      | EwReturned \<Rightarrow> (d, [])
      | EwPanicked _ \<Rightarrow> (d, []))"

lemmas ew_defs [machine_simps] =
  kill_gc_def kill_pod_def terminate_def stop_def on_stream_error_def reset_backoff_def
  enter_phase2_def on_applied_def phase1_step_def phase2_step_def phase3_step_def ew_step_def

lemmas ew_splits =
  ew_phase.splits ew_event.splits result.splits option.splits event.splits prod.splits
  outcome.splits if_splits

section \<open>What the coroutine has told whom\<close>

fun gc_signal :: "ew_effect \<Rightarrow> gc_status option" where
  "gc_signal (SendGc s _) = Some s"
| "gc_signal _ = None"

fun client_result :: "ew_effect \<Rightarrow> pod acm_result option" where
  "client_result (SendResult r _) = Some r"
| "client_result _ = None"

fun killed_pod :: "ew_effect \<Rightarrow> string option" where
  "killed_pod (KillPod n) = Some n"
| "killed_pod _ = None"

abbreviation gc_signals :: "ew_effect list \<Rightarrow> gc_status list" where
  "gc_signals es \<equiv> List.map_filter gc_signal es"

abbreviation client_results :: "ew_effect list \<Rightarrow> pod acm_result list" where
  "client_results es \<equiv> List.map_filter client_result es"

abbreviation killed_pods :: "ew_effect list \<Rightarrow> string list" where
  "killed_pods es \<equiv> List.map_filter killed_pod es"

lemma map_filter_append [simp]:
  "List.map_filter f (xs @ ys) = List.map_filter f xs @ List.map_filter f ys"
  by (simp add: List.map_filter_def)

lemmas [simp] = List.map_filter_simps

fun ew_halted :: "ew_phase \<Rightarrow> bool" where
  "ew_halted EwReturned = True"
| "ew_halted (EwPanicked _) = True"
| "ew_halted _ = False"

text \<open>
  The protocol, by phase: nothing is said in phase 1; in phase 2 the collector knows the running
  pod; in phase 3 the client has it too. On return the collector was told to stop, last of all,
  and the pod was destroyed unless someone else already had (\<open>gone\<close>); the client got an
  error, the pod, or the pod and then an error. A panic says nothing to anybody.
\<close>

inductive ew_said ::
  "string \<Rightarrow> ew_phase \<Rightarrow> gc_status list \<Rightarrow> pod acm_result list \<Rightarrow> string list \<Rightarrow> bool"
  for name where
  quiet: "ew_said name Phase1 [] [] []"
| ran: "running p \<Longrightarrow> ew_said name (Phase2 p) [GcRunning p] [] []"
| served: "running p \<Longrightarrow> ew_said name Phase3 [GcRunning p] [Ok p] []"
| never_ran: "ew_said name EwReturned [GcTerminated] [Err e] [name]"
| failed: "running p \<Longrightarrow> ew_said name EwReturned [GcRunning p, GcTerminated] [Err e] [name]"
| unclaimed: "running p \<Longrightarrow> ew_said name EwReturned [GcRunning p, GcTerminated] [Ok p] [name]"
| gone: "running p \<Longrightarrow> ew_said name EwReturned [GcRunning p, GcTerminated] [Ok p] []"
| ended: "running p \<Longrightarrow> ew_said name EwReturned [GcRunning p, GcTerminated] [Ok p, Err e] [name]"
| pull_panic: "ew_said name (EwPanicked ''message'') [] [] []"

inductive_cases said_Phase1: "ew_said name Phase1 g r k"
inductive_cases said_Phase2: "ew_said name (Phase2 p) g r k"
inductive_cases said_Phase3: "ew_said name Phase3 g r k"
inductive_cases said_Returned: "ew_said name EwReturned g r k"
inductive_cases said_Panicked: "ew_said name (EwPanicked m) g r k"

lemmas said_cases = said_Phase1 said_Phase2 said_Phase3

definition ew_protocol :: "string \<Rightarrow> 'b event_watcher \<Rightarrow> ew_effect list \<Rightarrow> bool" where
  "ew_protocol name d es \<longleftrightarrow> pod_id d = name
     \<and> ew_said name (ew_phase d) (gc_signals es) (client_results es) (killed_pods es)"

text \<open>What a list of effects adds to the conversation.\<close>

definition silent :: "ew_effect list \<Rightarrow> bool" where
  "silent es \<longleftrightarrow> gc_signals es = [] \<and> client_results es = [] \<and> killed_pods es = []"

lemma ew_protocol_silent:
  assumes "ew_protocol name d es" and "silent fs" and "ew_phase d' = ew_phase d" and "pod_id d' = pod_id d"
  shows "ew_protocol name d' (es @ fs)"
  using assms by (simp add: ew_protocol_def silent_def)

lemma stop_protocol:
  assumes "ew_protocol name d es" and "\<not> ew_halted (ew_phase d)" and "silent before"
    and "ew_phase d' = ew_phase d" and "pod_id d' = pod_id d"
  shows "ew_protocol name (d'\<lparr>ew_phase := EwReturned\<rparr>) (es @ before @ terminate err d' i)"
  using assms
  by (cases "ew_phase d")
    (auto simp: ew_protocol_def silent_def terminate_def kill_gc_def kill_pod_def
      elim!: said_cases intro: ew_said.intros)

lemma stop_now_protocol:
  assumes "ew_protocol name d es" and "\<not> ew_halted (ew_phase d)" and "stop err d i = (d', es')"
    and "silent before"
  shows "ew_protocol name d' (es @ before @ es')"
  using stop_protocol [OF assms(1,2,4) refl refl, of err i] assms(3) by (simp add: stop_def)

lemma on_stream_error_protocol:
  assumes "ew_protocol name d es" and "\<not> ew_halted (ew_phase d)" and "silent before"
    and "on_stream_error en before d i = (d', es')"
  shows "ew_protocol name d' (es @ es')"
proof (cases "bo_next (backoff_of en) (ew_now i) (ew_backoff d)")
  case (Pair dur b)
  have "silent [SleepFor n]" for n by (simp add: silent_def)
  moreover have "ew_protocol name (d\<lparr>ew_backoff := b, ew_phase := EwReturned\<rparr>) (es @ before @ terminate err d i)"
    for err
    using stop_protocol [OF assms(1-3), of "d\<lparr>ew_backoff := b\<rparr>" err i]
    by (simp add: terminate_def kill_pod_def)
  ultimately show ?thesis using assms Pair
    by (cases dur) (auto simp: on_stream_error_def elim: ew_protocol_silent)
qed

lemma reset_backoff_simps [simp]:
  "ew_phase (reset_backoff en i d) = ew_phase d" "pod_id (reset_backoff en i d) = pod_id d"
  "ew_protocol name (reset_backoff en i d) es = ew_protocol name d es"
  by (simp_all add: reset_backoff_def ew_protocol_def)

lemma enter_phase2_protocol:
  assumes "ew_protocol name d es" and "ew_phase d = Phase1" and "running p"
    and "enter_phase2 en p d i = (d', es')"
  shows "ew_protocol name d' (es @ SendGc (GcRunning p) b # es')"
  using assms
  by (cases "server_check_new (parse_endpoint en) p")
    (auto simp: enter_phase2_def ew_protocol_def stop_def terminate_def kill_gc_def kill_pod_def
      elim!: said_Phase1 intro: ew_said.intros)

lemma gc_gone_protocol:
  assumes "ew_protocol name d es" and "ew_phase d = Phase1" and "running p"
  shows "ew_protocol name (d\<lparr>ew_phase := EwReturned\<rparr>) (es @ SendGc (GcRunning p) b # terminate err d i)"
  using assms
  by (auto simp: ew_protocol_def terminate_def kill_gc_def kill_pod_def
      elim!: said_Phase1 intro: ew_said.intros)

lemma on_applied_protocol:
  assumes inv: "ew_protocol name d es" and ph: "ew_phase d = Phase1"
    and st: "on_applied en p d i = (d', es')"
  shows "ew_protocol name d' (es @ es')"
proof -
  have stop: "ew_protocol name d1 (es @ es1)" if "stop err d i = (d1, es1)" for err d1 es1
    using stop_now_protocol [OF inv _ that, of "[]"] ph by (simp add: silent_def)
  have panic: "ew_protocol name (d\<lparr>ew_phase := EwPanicked ''message''\<rparr>) (es @ [])"
    using inv ph by (auto simp: ew_protocol_def elim!: said_Phase1 intro: ew_said.intros)
  show ?thesis
  proof (cases "running p")
    case True
    with st enter_phase2_protocol [OF inv ph True] gc_gone_protocol [OF inv ph True]
    show ?thesis by (auto simp: on_applied_def stop_def split: if_splits prod.splits)
  next
    case nr: False
    show ?thesis
    proof (cases "err_image_pull p")
      case (Panic m)
      with nr st stop panic inv show ?thesis
        by (auto simp: on_applied_def split: if_splits dest: err_image_pull_PanicD)
    next
      case (Done r)
      with nr st stop inv err_image_pull_DoneD [OF Done] show ?thesis
        by (auto simp: on_applied_def split: if_splits)
    qed
  qed
qed

lemma phase1_protocol:
  assumes inv: "ew_protocol name d es" and ph: "ew_phase d = Phase1"
    and st: "phase1_step en d i x = (d', es')"
  shows "ew_protocol name d' (es @ es')"
proof -
  let ?d = "reset_backoff en i d"
  have inv': "ew_protocol name ?d es" and ph': "ew_phase ?d = Phase1" using inv ph by simp_all
  have stop: "ew_protocol name d1 (es @ es1)" if "stop err ?d i = (d1, es1)" for err d1 es1
    using stop_now_protocol [OF inv' _ that, of "[]"] ph by (simp add: silent_def)
  from st show ?thesis
    using stop on_applied_protocol [OF inv' ph'] on_stream_error_protocol [OF inv, of "[]"] inv ph
    by (auto simp: phase1_step_def Let_def silent_def split: result.splits option.splits event.splits)
qed

lemma phase2_protocol:
  assumes inv: "ew_protocol name d es" and ph: "ew_phase d = Phase2 p"
    and st: "phase2_step en p d i = (d', es')"
  shows "ew_protocol name d' (es @ es')"
proof -
  have nh: "\<not> ew_halted (ew_phase d)" by (simp add: ph)
  have stop: "ew_protocol name d1 (es @ c # es1)" if "stop err d i = (d1, es1)" "silent [c]" for err d1 es1 c
    using stop_now_protocol [OF inv nh that] by simp
  have sil: "silent [CheckKill]" "silent [CheckJoin]" by (simp_all add: silent_def)
  have ok: "ew_protocol name (d\<lparr>ew_phase := Phase3\<rparr>) (es @ [CheckJoin, SendResult (Ok p) True])"
    "ew_protocol name (d\<lparr>ew_phase := EwReturned\<rparr>)
       (es @ [CheckJoin, SendResult (Ok p) False] @ kill_gc i @ kill_pod d)"
    using inv ph by (auto simp: ew_protocol_def kill_gc_def kill_pod_def
        elim!: said_Phase2 intro: ew_said.intros)
  show ?thesis
  proof (cases "ew_event i")
    case (K8s x)
    with st stop sil on_stream_error_protocol [OF inv nh sil(1)] inv show ?thesis
      by (auto simp: phase2_step_def split: result.splits option.splits event.splits prod.splits)
  next
    case (HealthCheck x)
    with st stop sil ok show ?thesis
      by (auto simp: phase2_step_def split: result.splits if_splits prod.splits)
  qed
qed

lemma phase3_protocol:
  assumes inv: "ew_protocol name d es" and ph: "ew_phase d = Phase3"
    and st: "phase3_step en d i x = (d', es')"
  shows "ew_protocol name d' (es @ es')"
proof -
  let ?d = "reset_backoff en i d"
  have inv': "ew_protocol name ?d es" and nh: "\<not> ew_halted (ew_phase d)" using inv ph by simp_all
  have stop: "ew_protocol name d1 (es @ es1)" if "stop err ?d i = (d1, es1)" for err d1 es1
    using stop_now_protocol [OF inv' _ that, of "[]"] ph by (simp add: silent_def)
  have gone: "ew_protocol name (?d\<lparr>ew_phase := EwReturned\<rparr>) (es @ kill_gc i)"
    using inv' ph by (auto simp: ew_protocol_def kill_gc_def elim!: said_Phase3 intro: ew_said.intros)
  from st show ?thesis
    using stop gone on_stream_error_protocol [OF inv nh, of "[]"] inv
    by (auto simp: phase3_step_def Let_def silent_def split: result.splits option.splits event.splits)
qed

interpretation ew: traced_daemon "ew_step en" "\<lambda>d. ew_halted (ew_phase d)" "ew_protocol name"
  for en :: "'b ew_env" and name
proof unfold_locales
  fix s :: "'b event_watcher" and i
  assume "ew_halted (ew_phase s)"
  then show "ew_step en s i = (s, [])"
    by (cases "ew_phase s") (auto simp: ew_step_def)
next
  fix s s' :: "'b event_watcher" and es es' i
  assume "ew_protocol name s es" "\<not> ew_halted (ew_phase s)" "ew_step en s i = (s', es')"
  then show "ew_protocol name s' (es @ es')"
    by (cases "ew_phase s"; cases "ew_event i")
      (auto simp: ew_step_def intro: phase1_protocol phase2_protocol phase3_protocol)
qed

lemma ew_start_protocol: "ew_protocol name (ew_start en name t) []"
  by (simp add: ew_protocol_def ew_start_def ew_said.quiet)

section \<open>Properties of the event watcher\<close>

lemma ew_run_said:
  assumes "run (ew_step en) (ew_start en name t) is = (d, es)"
  shows "ew_said name (ew_phase d) (gc_signals es) (client_results es) (killed_pods es)"
  using ew.run_inv [OF ew_start_protocol assms] by (simp add: ew_protocol_def)

lemma ew_step_events:
  assumes "ew_step en d i = (d', es)"
  shows "SendGc (GcRunning p) b \<in> set es \<Longrightarrow> ew_event i = K8s (Ok (Some (Applied p)))"
    and "\<not> ew_halted (ew_phase d) \<Longrightarrow> ew_phase d' = EwReturned \<Longrightarrow> killed_pods es = []
      \<Longrightarrow> \<exists>q. ew_event i = K8s (Ok (Some (Deleted q)))"
    and "\<not> ew_halted (ew_phase d) \<Longrightarrow> ew_phase d' = EwPanicked m
      \<Longrightarrow> \<exists>p. ew_event i = K8s (Ok (Some (Applied p))) \<and> was_err_image_pull p
            \<and> (\<exists>m'. err_image_pull p = Panic m')"
  using assms
  by (auto simp: machine_simps Let_def split: ew_splits dest: err_image_pull_DoneD)

lemma said_ran: "ew_said name (Phase2 p) g r k \<Longrightarrow> g = [GcRunning p] \<and> running p"
  by (auto elim: said_Phase2)

lemma gc_signal_in: "s \<in> set (gc_signals es) \<Longrightarrow> \<exists>b. SendGc s b \<in> set es"
  by (induction es) (auto split: option.splits elim!: gc_signal.elims)

lemma ew_ok_step:
  assumes "SendResult (Ok p) b \<in> set (snd (ew_step en d i))"
  shows "ew_phase d = Phase2 p \<and> ew_event i = HealthCheck (Ok (Ok ()))"
proof -
  obtain d' es where "ew_step en d i = (d', es)" by fastforce
  then show ?thesis using assms
    by (auto simp: machine_simps Let_def split: ew_splits)
qed

lemma ew_send_flags:
  assumes "ew_step en d i = (d', es)"
  shows "SendGc s b \<in> set es \<Longrightarrow> b = gc_open i"
    and "SendResult r b \<in> set es \<Longrightarrow> b = upstream_open i"
  using assms by (auto simp: machine_simps Let_def split: ew_splits)

lemma ew_running_step:
  assumes "SendGc (GcRunning p) b \<in> set (snd (ew_step en d i))"
  shows "ew_event i = K8s (Ok (Some (Applied p)))"
  using ew_step_events(1) assms by (metis prod.collapse)


lemma said_killed: "ew_said name EwReturned g r k \<Longrightarrow> k = [name] \<or> k = []"
  by (auto elim: said_Returned)

text \<open>
  C5: when the event watcher is done, its pod is done for: it has asked the API server to delete
  the pod, unless the API server had told it that the pod was deleted.
\<close>

theorem ew_leaves_no_pod:
  assumes "run (ew_step en) (ew_start en name t) is = (d, es)" and "ew_phase d = EwReturned"
  shows "killed_pods es = [name] \<or> (\<exists>i \<in> set is. \<exists>q. ew_event i = K8s (Ok (Some (Deleted q))))"
proof (cases "killed_pods es = []")
  case True
  have "\<not> ew_halted (ew_phase (ew_start en name t))" by (simp add: ew_start_def)
  from ew.run_halting_step [OF assms(1) this] assms(2) obtain js i u fs fs' where
    "i \<in> set is" "\<not> ew_halted (ew_phase u)" "ew_step en u i = (d, fs')" "es = fs @ fs'"
    by auto
  with ew_step_events(2) True assms(2) show ?thesis by fastforce
qed (use said_killed ew_run_said [OF assms(1)] assms(2) in fastforce)

text \<open>
  The event watcher panics in one case only: the API server reports a pod that cannot pull
  its image and whose waiting container carries no message. Nobody is told: neither the garbage
  collector nor the client nor the API server hears of it, and the pod stays.
\<close>

lemma ew_panic_cause:
  assumes "run (ew_step en) (ew_start en name t) is = (d, es)" and "ew_phase d = EwPanicked m"
  shows "(\<exists>i \<in> set is. \<exists>p. ew_event i = K8s (Ok (Some (Applied p))) \<and> was_err_image_pull p
      \<and> (\<exists>m'. err_image_pull p = Panic m'))
    \<and> gc_signals es = [] \<and> client_results es = [] \<and> killed_pods es = []"
proof -
  have "\<not> ew_halted (ew_phase (ew_start en name t))" by (simp add: ew_start_def)
  from ew.run_halting_step [OF assms(1) this] assms(2) obtain js i u fs fs' where
    "i \<in> set is" "\<not> ew_halted (ew_phase u)" "ew_step en u i = (d, fs')"
    by auto
  with ew_step_events(3) assms(2)
  have "\<exists>i \<in> set is. \<exists>p. ew_event i = K8s (Ok (Some (Applied p))) \<and> was_err_image_pull p
      \<and> (\<exists>m'. err_image_pull p = Panic m')"
    by fastforce
  moreover from ew_run_said [OF assms(1)] assms(2)
  have "gc_signals es = [] \<and> client_results es = [] \<and> killed_pods es = []"
    by (auto elim: said_Panicked)
  ultimately show ?thesis by blast
qed

text \<open>An item of the stream as the coroutine receives it.\<close>

definition stream_input :: "watch_result \<Rightarrow> nat \<Rightarrow> bool \<Rightarrow> bool \<Rightarrow> ew_input" where
  "stream_input x now gc up =
     \<lparr>ew_event = K8s (transpose_item x), ew_now = now, gc_open = gc, upstream_open = up\<rparr>"


definition only_listed :: "ew_input \<Rightarrow> bool" where
  "only_listed i \<longleftrightarrow>
     (case ew_event i of K8s (Ok (Some (Added _))) \<Rightarrow> True | K8s (Ok (Some (Restarted _))) \<Rightarrow> True | _ \<Rightarrow> False)"

text \<open>
  Phase 1 looks at modifications only. As long as the pod is merely added or listed, even as
  running, the watcher stays in phase 1 and tells nobody anything.
\<close>

lemma ew_ignores_listings:
  assumes "list_all only_listed is"
  shows "\<exists>d. run (ew_step en) (ew_start en name t) is = (d, []) \<and> ew_phase d = Phase1"
proof -
  have "\<exists>d'. run (ew_step en) d is = (d', []) \<and> ew_phase d' = Phase1" if "ew_phase d = Phase1" for d
    using assms that
  proof (induction "is" arbitrary: d)
    case (Cons i "is")
    then have "\<exists>d'. ew_step en d i = (d', []) \<and> ew_phase d' = Phase1"
      by (auto simp: only_listed_def machine_simps Let_def split: ew_splits)
    with Cons show ?case by fastforce
  qed simp
  then show ?thesis by (simp add: ew_start_def)
qed

section \<open>Evaluation\<close>

definition up_pod :: pod where
  "up_pod = (decode_pod (pod_json ''conn-1'' ''registry.kurl/ocf:1''))
     \<lparr>pod_status_of := Some
       \<lparr>pod_ip = Some ''10.0.0.9'',
        container_statuses = Some
          [\<lparr>container_state_of = Some (default_state\<lparr>state_running := Some ()\<rparr>)\<rparr>]\<rparr>\<rparr>"

definition stuck_pod :: pod where
  "stuck_pod = default_pod
     \<lparr>pod_status_of := Some
       \<lparr>pod_ip = None,
        container_statuses = Some
          [\<lparr>container_state_of = Some (default_state\<lparr>state_waiting := Some
              \<lparr>waiting_reason = Some ''ErrImagePull'', waiting_message = None\<rparr>\<rparr>)\<rparr>]\<rparr>\<rparr>"

definition quarter_hour :: "nat ew_env" where
  "quarter_hour =
     \<lparr>backoff_of = half_second 900000, parse_endpoint = (\<lambda>_. None), show_duration = show_nat\<rparr>"

definition at :: "nat \<Rightarrow> ew_event \<Rightarrow> ew_input" where
  "at now ev = \<lparr>ew_event = ev, ew_now = now, gc_open = True, upstream_open = True\<rparr>"

lemma up_pod_running [simp]: "running up_pod"
  by (simp add: up_pod_def pod_ext_defs)

lemma up_pod_address: "address up_pod = Ok ''10-0-0-9.ocf.pod:8080''"
  by (simp add: up_pod_def decode_pod_json address_def dns_def port_def first_def replace_char_def
      show_int_def show_nat.simps digit_def char_of_def bit_0)

lemma stuck_pod_state:
  "\<not> running stuck_pod" "\<not> terminated stuck_pod" "\<not> crashed stuck_pod" "was_err_image_pull stuck_pod"
  "err_image_pull stuck_pod = Panic ''message''"
  by (simp_all add: stuck_pod_def pod_ext_defs default_state_def)

text \<open>A pod's whole life: it runs, answers, and is deleted by its client.\<close>

definition life :: "ew_input list" where
  "life = [at 100 (K8s (Ok (Some (Restarted [])))), at 900 (K8s (Ok (Some (Applied up_pod)))),
           at 2000 (HealthCheck (Ok (Ok ()))), at 9000 (K8s (Ok (Some (Deleted up_pod))))]"

lemma life_run:
  "\<exists>d. run (ew_step quarter_hour) (ew_start quarter_hour ''conn-1'' 0) life
      = (d, [SendGc (GcRunning up_pod) True, CheckStart ''http://10-0-0-9.ocf.pod:8080'', CheckJoin,
             SendResult (Ok up_pod) True, SendGc GcTerminated True])
    \<and> ew_phase d = EwReturned"
  by (simp add: life_def at_def machine_simps quarter_hour_def ew_start_def server_check_new_def
      up_pod_address)


theorem ew_leaves_no_pod_witness:
  "\<exists>i \<in> set life. \<exists>q. ew_event i = K8s (Ok (Some (Deleted q)))"
  using life_run ew_leaves_no_pod [of quarter_hour "''conn-1''" 0 life] by fastforce


end
