(* ===== verification/Terminal.thy ===== *)
theory Terminal
  imports Prelude "HOL-Library.Word"
begin

text \<open>
  Model of library/term_colors: the styles that the log lines of both services paint text with.
  Painting is the business of the crate \<open>ansi_term\<close>, the argument \<open>paint\<close>; the functions of the
  library choose the style.
\<close>

datatype colour = Cyan | Red | Green | Blue | Purple | RGB "8 word" "8 word" "8 word"

datatype style = Bold | Foreground colour

type_synonym 'a painter = "style \<Rightarrow> string \<Rightarrow> 'a"

definition bold :: "'a painter \<Rightarrow> string \<Rightarrow> 'a" where
  "bold paint s = paint Bold s"

definition cyan :: "'a painter \<Rightarrow> string \<Rightarrow> 'a" where
  "cyan paint s = paint (Foreground Cyan) s"

definition red :: "'a painter \<Rightarrow> string \<Rightarrow> 'a" where
  "red paint s = paint (Foreground Red) s"

definition green :: "'a painter \<Rightarrow> string \<Rightarrow> 'a" where
  "green paint s = paint (Foreground Green) s"

definition blue :: "'a painter \<Rightarrow> string \<Rightarrow> 'a" where
  "blue paint s = paint (Foreground Blue) s"

definition purple :: "'a painter \<Rightarrow> string \<Rightarrow> 'a" where
  "purple paint s = paint (Foreground Purple) s"

definition orange :: "'a painter \<Rightarrow> string \<Rightarrow> 'a" where
  "orange paint s = paint (Foreground (RGB 243 113 33)) s"

lemmas terminal_defs = bold_def cyan_def red_def green_def blue_def purple_def orange_def

text \<open>No two of the seven look alike, if the terminal tells styles apart.\<close>

lemma styles_distinct:
  assumes "inj (\<lambda>st. paint st s)"
  shows "distinct (map (\<lambda>f. f paint s) [bold, cyan, red, green, blue, purple, orange])"
proof -
  have "paint a s = paint b s \<longleftrightarrow> a = b" for a b using assms by (auto dest: injD)
  then show ?thesis by (simp add: terminal_defs)
qed

end
