(* ===== verification/Garbage_Collector.thy ===== *)
theory Garbage_Collector
  imports Event_Watcher Terminal
begin

text \<open>
  Model of acm podmanager/garbage_collector.rs: the coroutine that deletes a pod when its lease
  runs out. Instants and dates are nanoseconds. The calendar (crate \<open>chrono\<close>) and the
  monotonic clock are outside the repository: \<open>clock\<close> holds their two additions, which panic
  on overflow. An input of the coroutine is what its \<open>select!\<close> chose, with the two clocks and
  the API server's answers at that moment; a deadline that has not come yet is not ready.
\<close>

section \<open>Tickets\<close>

definition DEFAULT_TTL :: "64 word" where
  "DEFAULT_TTL = 60 * 30"

abbreviation nanos :: "int" where
  "nanos \<equiv> 1000000000"

record clock =
  utc_add :: "int \<Rightarrow> int \<Rightarrow> int outcome"
  instant_add :: "nat \<Rightarrow> nat \<Rightarrow> nat outcome"

record keep_alive_ticket =
  ticket :: string
  execution_date :: int
  ticket_now :: int
  ticket_then :: int
  execution_instant :: nat

definition timestamp :: "int \<Rightarrow> int" where
  "timestamp t = t div nanos"

definition ticket_new :: "clock \<Rightarrow> string \<Rightarrow> 64 word \<Rightarrow> int \<Rightarrow> nat \<Rightarrow> keep_alive_ticket outcome" where
  "ticket_new ck pod ttl utc instant =
     outcome_bind (utc_add ck utc (sint ttl)) (\<lambda>then'.
     outcome_bind (instant_add ck instant (unat ttl)) (\<lambda>deadline.
       Done \<lparr>ticket = pod, execution_date = timestamp then', ticket_now = utc,
             ticket_then = then', execution_instant = deadline\<rparr>))"

definition pod_patch :: "keep_alive_ticket \<Rightarrow> pod" where
  "pod_patch tk = default_pod\<lparr>metadata := default_meta
     \<lparr>labels := Some [(''execution_date'', show_int (execution_date tk))]\<rparr>\<rparr>"

text \<open>
  \<open>KeepAliveTicket::sleep\<close> is over once the deadline has come. The text of a ticket is for the
  log; \<open>rfc2822\<close> is the calendar's format, and \<open>paint\<close> prints in the colours of the terminal.
\<close>

definition sleep_over :: "keep_alive_ticket \<Rightarrow> nat \<Rightarrow> bool" where
  [simp]: "sleep_over tk now \<longleftrightarrow> execution_instant tk \<le> now"

definition ticket_display :: "(int \<Rightarrow> string) \<Rightarrow> string painter \<Rightarrow> keep_alive_ticket \<Rightarrow> string" where
  "ticket_display rfc2822 paint tk =
     ''Ticket created on '' @ green paint (rfc2822 (ticket_now tk))
     @ '' (Unix '' @ show_int (timestamp (ticket_now tk))
     @ '') is good until '' @ red paint (rfc2822 (ticket_then tk))
     @ '' (Unix '' @ show_int (timestamp (ticket_then tk)) @ '')''"

definition ticket_json :: "keep_alive_ticket \<Rightarrow> json" where
  "ticket_json tk =
     JObj [(''ticket'', JStr (ticket tk)), (''execution_date'', JNum (execution_date tk))]"

definition kind_ticket :: "keep_alive_ticket \<Rightarrow> string" where
  "kind_ticket _ = ''KeepAliveTicket''"

text \<open>
  What the two additions promise: they are exact when they return, they return for dates up to
  the year 9999 and for instants that fit 63 bits of seconds, and a span of more milliseconds than
  fit an \<open>i64\<close> is refused.
\<close>

definition clock_law :: "clock \<Rightarrow> bool" where
  "clock_law ck \<longleftrightarrow>
     (\<forall>t s u. utc_add ck t s = Done u \<longrightarrow> u = t + s * nanos)
     \<and> (\<forall>t d u. instant_add ck t d = Done u \<longrightarrow> u = t + d * 1000000000)
     \<and> (\<forall>t s. 0 \<le> t \<longrightarrow> 0 \<le> s \<longrightarrow> t + s * nanos < 253402300800 * nanos \<longrightarrow> is_done (utc_add ck t s))
     \<and> (\<forall>t d. t + d * 1000000000 < 2 ^ 63 * 1000000000 \<longrightarrow> is_done (instant_add ck t d))
     \<and> (\<forall>t s. 2 ^ 63 \<le> \<bar>s\<bar> * 1000 \<longrightarrow> \<not> is_done (utc_add ck t s))"

section \<open>The coroutine\<close>

datatype gc_event =
    RefreshRequest "bool option"
  | ExecutionDateReached
  | PodEvent "gc_status option"

record gc_input =
  gc_event :: gc_event
  utc_now :: int
  instant_now :: nat
  patch_answer :: "(unit, kube_error) result"
  delete_answer :: "(unit, kube_error) result"

datatype gc_effect =
    PatchPod string pod
  | SendTicket keep_alive_ticket bool
  | GcDelete string

datatype gc_phase = GcWaiting | Counting keep_alive_ticket | GcStopped | GcPanicked string

record gc_daemon =
  gc_pod :: string
  gc_ttl :: "64 word"
  gc_phase :: gc_phase

definition gc_new :: "string \<Rightarrow> 64 word \<Rightarrow> gc_daemon" where
  "gc_new pod ttl = \<lparr>gc_pod = pod, gc_ttl = ttl, gc_phase = GcWaiting\<rparr>"

text \<open>\<open>client.patch(..).await.unwrap()\<close>, then the loop goes on with the new ticket.\<close>

definition patch_label ::
  "keep_alive_ticket \<Rightarrow> gc_daemon \<Rightarrow> gc_input \<Rightarrow> gc_daemon \<times> gc_effect list" where
  "patch_label tk d i =
     (d\<lparr>gc_phase := (if is_ok (patch_answer i) then Counting tk else GcPanicked ''patch'')\<rparr>,
      [PatchPod (gc_pod d) (pod_patch tk)])"

definition gc_delete :: "gc_daemon \<Rightarrow> gc_input \<Rightarrow> gc_daemon \<times> gc_effect list" where
  "gc_delete d i =
     (d\<lparr>gc_phase := (if is_ok (delete_answer i) then GcStopped else GcPanicked ''delete'')\<rparr>,
      [GcDelete (gc_pod d)])"

definition issue :: "clock \<Rightarrow> gc_daemon \<Rightarrow> gc_input \<Rightarrow> keep_alive_ticket outcome" where
  "issue ck d i = ticket_new ck (gc_pod d) (gc_ttl d) (utc_now i) (instant_now i)"

definition gc_begin :: "clock \<Rightarrow> gc_daemon \<Rightarrow> gc_input \<Rightarrow> gc_daemon \<times> gc_effect list" where
  "gc_begin ck d i =
     (case issue ck d i of
        Panic m \<Rightarrow> (d\<lparr>gc_phase := GcPanicked m\<rparr>, [])
      | Done tk \<Rightarrow> patch_label tk d i)"

definition gc_renew :: "clock \<Rightarrow> bool \<Rightarrow> gc_daemon \<Rightarrow> gc_input \<Rightarrow> gc_daemon \<times> gc_effect list" where
  "gc_renew ck waiting d i =
     (case issue ck d i of
        Panic m \<Rightarrow> (d\<lparr>gc_phase := GcPanicked m\<rparr>, [])
      | Done tk \<Rightarrow> (case patch_label tk d i of (d', es) \<Rightarrow> (d', SendTicket tk waiting # es)))"

definition gc_step :: "clock \<Rightarrow> gc_daemon \<Rightarrow> gc_input \<Rightarrow> gc_daemon \<times> gc_effect list" where
  "gc_step ck d i =
     (case gc_phase d of
        GcWaiting \<Rightarrow>
          (case gc_event i of
             PodEvent None \<Rightarrow> (d\<lparr>gc_phase := GcStopped\<rparr>, [])
           | PodEvent (Some GcTerminated) \<Rightarrow> (d\<lparr>gc_phase := GcStopped\<rparr>, [])
           | PodEvent (Some (GcRunning _)) \<Rightarrow> gc_begin ck d i
           | _ \<Rightarrow> (d, []))
      | Counting tk \<Rightarrow>
          (case gc_event i of
             RefreshRequest None \<Rightarrow> (d, [])
           | RefreshRequest (Some waiting) \<Rightarrow> gc_renew ck waiting d i
           | PodEvent None \<Rightarrow> gc_delete d i
           | PodEvent (Some (GcRunning _)) \<Rightarrow> (d, [])
           | PodEvent (Some GcTerminated) \<Rightarrow> (d\<lparr>gc_phase := GcStopped\<rparr>, [])
           | ExecutionDateReached \<Rightarrow>
               if sleep_over tk (instant_now i) then gc_delete d i else (d, []))
      | GcStopped \<Rightarrow> (d, [])
      | GcPanicked _ \<Rightarrow> (d, []))"

lemmas gc_defs [machine_simps] =
  gc_step_def gc_begin_def gc_renew_def gc_delete_def patch_label_def

lemmas gc_splits =
  gc_phase.splits gc_event.splits gc_status.splits option.splits outcome.splits if_splits

fun gc_halted :: "gc_phase \<Rightarrow> bool" where
  "gc_halted GcStopped = True"
| "gc_halted (GcPanicked _) = True"
| "gc_halted _ = False"

text \<open>
  \<open>GarbageCollector::refresh\<close>: a request and its answer. While the daemon still waits for the
  pod the request stays in its queue (\<open>None\<close>); the request of a daemon that is gone, or goes
  while it holds it, is an error.
\<close>

fun answer :: "gc_effect list \<Rightarrow> keep_alive_ticket option" where
  "answer (SendTicket tk True # _) = Some tk"
| "answer (_ # es) = answer es"
| "answer [] = None"

definition gc_refresh ::
  "clock \<Rightarrow> gc_daemon \<Rightarrow> gc_input \<Rightarrow> (gc_daemon \<times> gc_effect list \<times> keep_alive_ticket acm_result) option" where
  "gc_refresh ck d i =
     (if gc_halted (gc_phase d) then Some (d, [], Err (E_Gc RefreshChannelClosed))
      else if gc_phase d = GcWaiting then None
      else case gc_step ck d (i\<lparr>gc_event := RefreshRequest (Some True)\<rparr>) of
             (d', es) \<Rightarrow> Some (d', es, ok_or (E_Gc RefreshChannelClosed) (answer es)))"

section \<open>What the coroutine has done\<close>

text \<open>
  Nothing while it waits; then one label per ticket, each ticket handed out before its label is
  written, and at most one deletion, the last thing it does.
\<close>

inductive gc_did :: "string \<Rightarrow> gc_phase \<Rightarrow> gc_effect list \<Rightarrow> bool" for name where
  idle: "gc_did name GcWaiting []"
| begun: "ticket tk = name \<Longrightarrow> gc_did name (Counting tk) [PatchPod name (pod_patch tk)]"
| renewed: "gc_did name (Counting tk) es \<Longrightarrow> ticket tk' = name
    \<Longrightarrow> gc_did name (Counting tk') (es @ [SendTicket tk' b, PatchPod name (pod_patch tk')])"
| never_ran: "gc_did name GcStopped []"
| told: "gc_did name (Counting tk) es \<Longrightarrow> gc_did name GcStopped es"
| collected: "gc_did name (Counting tk) es \<Longrightarrow> gc_did name GcStopped (es @ [GcDelete name])"
| not_deleted: "gc_did name (Counting tk) es \<Longrightarrow> gc_did name (GcPanicked ''delete'') (es @ [GcDelete name])"
| not_labelled: "gc_did name (Counting tk) es \<Longrightarrow> gc_did name (GcPanicked ''patch'') es"
| first_overflow: "gc_did name (GcPanicked m) []"
| overflow: "gc_did name (Counting tk) es \<Longrightarrow> gc_did name (GcPanicked m) es"

inductive_cases did_waiting: "gc_did name GcWaiting es"

definition gc_protocol :: "string \<Rightarrow> gc_daemon \<Rightarrow> gc_effect list \<Rightarrow> bool" where
  "gc_protocol name d es \<longleftrightarrow> gc_pod d = name \<and> gc_did name (gc_phase d) es"

lemma ticket_new_ticket: "ticket_new ck pod ttl u t = Done tk \<Longrightarrow> ticket tk = pod"
  by (auto simp: ticket_new_def)

lemma issue_ticket: "issue ck d i = Done tk \<Longrightarrow> ticket tk = gc_pod d"
  by (simp add: issue_def ticket_new_ticket)

lemma gc_begin_protocol:
  assumes "gc_protocol name d es" and "gc_phase d = GcWaiting" and "gc_begin ck d i = (d', es')"
  shows "gc_protocol name d' (es @ es')"
proof (cases "issue ck d i")
  case (Done tk)
  with assms have "ticket tk = name" "es = []"
    by (auto simp: gc_protocol_def issue_ticket elim: did_waiting)
  then have "gc_did name (Counting tk) [PatchPod name (pod_patch tk)]" by (simp add: begun)
  with Done assms \<open>es = []\<close> show ?thesis
    by (auto simp: gc_protocol_def gc_begin_def patch_label_def intro: not_labelled)
qed (use assms in \<open>auto simp: gc_protocol_def gc_begin_def elim!: did_waiting intro: first_overflow\<close>)

lemma gc_renew_protocol:
  assumes "gc_protocol name d es" and "gc_phase d = Counting tk" and "gc_renew ck b d i = (d', es')"
  shows "gc_protocol name d' (es @ es')"
proof (cases "issue ck d i")
  case (Done tk')
  with assms have "gc_did name (Counting tk') (es @ [SendTicket tk' b, PatchPod name (pod_patch tk')])"
    by (auto simp: gc_protocol_def issue_ticket intro: renewed)
  with Done assms show ?thesis
    by (auto simp: gc_protocol_def gc_renew_def patch_label_def intro: not_labelled)
qed (use assms in \<open>auto simp: gc_protocol_def gc_renew_def intro: overflow\<close>)

lemma gc_delete_protocol:
  assumes "gc_protocol name d es" and "gc_phase d = Counting tk" and "gc_delete d i = (d', es')"
  shows "gc_protocol name d' (es @ es')"
  using assms by (auto simp: gc_protocol_def gc_delete_def intro: collected not_deleted)

interpretation gc: traced_daemon "gc_step ck" "\<lambda>d. gc_halted (gc_phase d)" "gc_protocol name"
  for ck name
proof unfold_locales
  fix s :: gc_daemon and i
  assume "gc_halted (gc_phase s)"
  then show "gc_step ck s i = (s, [])" by (cases "gc_phase s") (auto simp: gc_step_def)
next
  fix s s' :: gc_daemon and es es' i
  assume inv: "gc_protocol name s es" and live: "\<not> gc_halted (gc_phase s)" and st: "gc_step ck s i = (s', es')"
  show "gc_protocol name s' (es @ es')"
  proof (cases "gc_phase s")
    case GcWaiting
    with inv have "gc_protocol name (s\<lparr>gc_phase := GcStopped\<rparr>) es"
      by (auto simp: gc_protocol_def elim!: did_waiting intro: never_ran)
    with GcWaiting inv st gc_begin_protocol show ?thesis
      by (auto simp: gc_step_def split: gc_event.splits gc_status.splits option.splits)
  next
    case (Counting tk)
    with inv have "gc_protocol name (s\<lparr>gc_phase := GcStopped\<rparr>) es"
      by (auto simp: gc_protocol_def intro: told)
    with Counting inv st gc_renew_protocol gc_delete_protocol show ?thesis
      by (auto simp: gc_step_def split: gc_event.splits gc_status.splits option.splits if_splits)
  qed (use live in auto)
qed

lemma gc_new_protocol: "gc_protocol name (gc_new name ttl) []"
  by (simp add: gc_protocol_def gc_new_def idle)

section \<open>Properties of the garbage collector\<close>

text \<open>
  C21: everything a garbage collector has done at any moment of any run: it labels the pod once
  per ticket, with the very date of the ticket it has just handed out, and deletes it at most
  once, as its last act; a collector that was stopped or never started has deleted nothing.
\<close>

theorem gc_conversation:
  assumes "run (gc_step ck) (gc_new name ttl) is = (d, es)"
  shows "gc_did name (gc_phase d) es"
  using gc.run_inv [OF gc_new_protocol assms] by (simp add: gc_protocol_def)

text \<open>
  A step deletes the pod exactly when the collector is counting and either its deadline has
  come or the event watcher is gone without a word.
\<close>

lemma gc_delete_cause:
  "GcDelete n \<in> set (snd (gc_step ck d i)) \<longleftrightarrow>
     n = gc_pod d \<and> (\<exists>tk. gc_phase d = Counting tk
       \<and> (gc_event i = PodEvent None
          \<or> gc_event i = ExecutionDateReached \<and> execution_instant tk \<le> instant_now i))"
  by (auto simp: machine_simps split: gc_splits)

text \<open>A lease: the daemon is not waiting, and while it counts its deadline is not before \<open>u\<close>.\<close>

definition leased :: "64 word \<Rightarrow> nat \<Rightarrow> gc_daemon \<Rightarrow> bool" where
  "leased ttl u d \<longleftrightarrow> gc_ttl d = ttl
     \<and> (case gc_phase d of Counting tk \<Rightarrow> u \<le> execution_instant tk | GcWaiting \<Rightarrow> False | _ \<Rightarrow> True)"

lemma issue_deadline:
  assumes "clock_law ck" and "issue ck d i = Done tk"
  shows "execution_instant tk = instant_now i + unat (gc_ttl d) * 1000000000"
    and "execution_date tk = timestamp (utc_now i + sint (gc_ttl d) * nanos)"
  using assms by (auto simp: issue_def ticket_new_def clock_law_def)

lemma leased_step:
  assumes law: "clock_law ck" and "leased ttl u d" and st: "gc_step ck d i = (d', es)"
    and "u \<le> instant_now i + unat ttl * 1000000000" and "instant_now i < u" and "gc_event i \<noteq> PodEvent None"
  shows "leased ttl u d' \<and> GcDelete n \<notin> set es"
proof -
  have "u \<le> execution_instant tk" if "issue ck d i = Done tk" for tk
    using assms issue_deadline [OF law that] by (simp add: leased_def)
  with assms show ?thesis
    by (auto simp: leased_def machine_simps split: gc_splits)
qed

lemma gc_refresh_OkD:
  assumes "gc_refresh ck d i = Some (d', es, Ok tk)"
  shows "issue ck d i = Done tk" and "es = [SendTicket tk True, PatchPod (gc_pod d) (pod_patch tk)]"
    and "gc_ttl d' = gc_ttl d" and "gc_phase d' = Counting tk \<or> gc_halted (gc_phase d')"
proof -
  have "issue ck d (i\<lparr>gc_event := e\<rparr>) = issue ck d i" for e by (simp add: issue_def)
  with assms show "issue ck d i = Done tk" "es = [SendTicket tk True, PatchPod (gc_pod d) (pod_patch tk)]"
    "gc_ttl d' = gc_ttl d" "gc_phase d' = Counting tk \<or> gc_halted (gc_phase d')"
    by (cases "gc_phase d"; auto simp: gc_refresh_def machine_simps split: if_splits outcome.splits)+
qed

text \<open>
  C37: the TTL is not checked. With a TTL whose span in milliseconds does not fit an
  \<open>i64\<close>, the collector panics when its pod starts running, having neither labelled nor
  scheduled it, and never deletes it.
\<close>

theorem gc_overflow:
  assumes "clock_law ck" and "2 ^ 63 \<le> \<bar>sint ttl\<bar> * 1000"
    and "gc_event i = PodEvent (Some (GcRunning p))"
  shows "\<exists>d m. run (gc_step ck) (gc_new name ttl) (i # is) = (d, []) \<and> gc_phase d = GcPanicked m"
proof -
  let ?d = "gc_new name ttl"
  from assms(1,2) have "\<not> is_done (utc_add ck (utc_now i) (sint ttl))" by (simp add: clock_law_def)
  then obtain m where "issue ck ?d i = Panic m"
    by (cases "utc_add ck (utc_now i) (sint ttl)") (auto simp: issue_def ticket_new_def gc_new_def)
  with assms(3) have "gc_step ck ?d i = (?d\<lparr>gc_phase := GcPanicked m\<rparr>, [])"
    by (simp add: machine_simps gc_new_def)
  with gc.run_halted [of "?d\<lparr>gc_phase := GcPanicked m\<rparr>" ck "is"] show ?thesis by simp
qed

section \<open>Evaluation\<close>

definition wide_clock :: clock where
  "wide_clock =
     \<lparr>utc_add = (\<lambda>t s. if \<bar>s\<bar> * 1000 < 2 ^ 63 then Done (t + s * nanos) else Panic ''Duration::seconds out of bounds''),
      instant_add = (\<lambda>t d. if t + d * 1000000000 < 2 ^ 63 * 1000000000 then Done (t + d * 1000000000)
                            else Panic ''overflow when adding duration to instant'')\<rparr>"

lemma wide_clock_law: "clock_law wide_clock"
  by (auto simp: clock_law_def wide_clock_def)

definition gc_at :: "nat \<Rightarrow> gc_event \<Rightarrow> gc_input" where
  "gc_at t e = \<lparr>gc_event = e, utc_now = 1600000000 * nanos + int t, instant_now = t,
               patch_answer = Ok (), delete_answer = Ok ()\<rparr>"

lemma ttl_values:
  "sint DEFAULT_TTL = 1800" "unat DEFAULT_TTL = 1800" "sint (2 ^ 62 :: 64 word) = 2 ^ 62"
  unfolding DEFAULT_TTL_def by (code_simp, code_simp, code_simp)

lemma gc_at_simps [simp]:
  "gc_event (gc_at t e) = e" "instant_now (gc_at t e) = t"
  "patch_answer (gc_at t e) = Ok ()" "delete_answer (gc_at t e) = Ok ()"
  "(gc_at t e)\<lparr>gc_event := e'\<rparr> = gc_at t e'"
  by (simp_all add: gc_at_def)

lemma gc_new_simps [simp]:
  "gc_pod (gc_new n t) = n" "gc_ttl (gc_new n t) = t" "gc_phase (gc_new n t) = GcWaiting"
  by (simp_all add: gc_new_def)

definition leasing :: keep_alive_ticket where
  "leasing = \<lparr>ticket = ''conn-1'', execution_date = 1600001800, ticket_now = 1600000000 * nanos + 7,
              ticket_then = 1600001800 * nanos + 7, execution_instant = 1800000000007\<rparr>"

lemma leasing_issue:
  "issue wide_clock (gc_new ''conn-1'' DEFAULT_TTL) (gc_at 7 e) = Done leasing"
  "issue wide_clock ((gc_new ''conn-1'' DEFAULT_TTL)\<lparr>gc_phase := ph\<rparr>) (gc_at 7 e) = Done leasing"
  by (simp_all add: issue_def ticket_new_def gc_new_def gc_at_def wide_clock_def leasing_def timestamp_def
      ttl_values)

lemma leasing_deadline: "execution_instant leasing = 1800000000007"
  by (simp add: leasing_def)

theorem gc_conversation_witness:
  "gc_did ''conn-1'' GcStopped [PatchPod ''conn-1'' (pod_patch leasing), GcDelete ''conn-1'']"
proof -
  let ?is = "[gc_at 7 (PodEvent (Some (GcRunning up_pod))), gc_at 1800000000007 ExecutionDateReached]"
  obtain d where "run (gc_step wide_clock) (gc_new ''conn-1'' DEFAULT_TTL) ?is
      = (d, [PatchPod ''conn-1'' (pod_patch leasing), GcDelete ''conn-1''])" "gc_phase d = GcStopped"
    by (simp add: machine_simps leasing_issue leasing_deadline)
  from gc_conversation [OF this(1)] this(2) show ?thesis by simp
qed

theorem gc_overflow_witness:
  "\<exists>d m. run (gc_step wide_clock) (gc_new ''conn-1'' (2 ^ 62))
       [gc_at 7 (PodEvent (Some (GcRunning up_pod)))] = (d, []) \<and> gc_phase d = GcPanicked m"
  by (rule gc_overflow [OF wide_clock_law]) (simp_all add: ttl_values)

end
