(* ===== verification/External_Handle.thy ===== *)
theory External_Handle
  imports Pod
begin

text \<open>
  Model of acm podmanager/external_handle.rs: how the verdict of the event watcher reaches the
  clients that call \<open>wait\<close>. Two coroutines meet at a barrier for two: the shim, which holds
  the verdict for at most sixty seconds, and the call of \<open>wait\<close> in progress (there is one at a
  time, the handle being behind a mutex). An input names the await point that is polled, with the
  time in milliseconds; polling one that is not ready changes nothing. tokio's barrier counts
  arrivals and, as documented, keeps counting the arrival of a task that gave up.
\<close>

section \<open>State\<close>

datatype shim_phase = ShimRecv | is_waiting: ShimWaiting "pod acm_result" nat | ShimDone

datatype wait_phase = WaitIdle | WaitBarrier | WaitRecv

record handle =
  shim :: shim_phase
  waiter :: wait_phase
  arrived :: bool
  shim_released :: bool
  waiter_released :: bool
  slot :: "pod acm_result option"
  phantom :: "pod acm_result option"

datatype handle_input =
    Inbound "pod acm_result option" nat
  | PatienceElapsed nat
  | ShimResumes
  | WaitCalled
  | WaitResumes
  | WaitReceives

datatype handle_effect = Returned "pod acm_result"

definition handle_new :: handle where
  "handle_new = \<lparr>shim = ShimRecv, waiter = WaitIdle, arrived = False, shim_released = False,
                 waiter_released = False, slot = None, phantom = None\<rparr>"

definition PATIENCE :: nat where
  "PATIENCE = 60 * 1000"

section \<open>Steps\<close>

text \<open>\<open>barrier.wait()\<close>: the second arrival releases whoever waits; the barrier starts over.\<close>

definition arrive :: "handle \<Rightarrow> handle" where
  "arrive h =
     (if arrived h then
        h\<lparr>arrived := False, shim_released := is_waiting (shim h),
          waiter_released := (waiter h = WaitBarrier)\<rparr>
      else h\<lparr>arrived := True\<rparr>)"

definition inbound :: "pod acm_result option \<Rightarrow> pod acm_result" where
  "inbound x = (case x of None \<Rightarrow> Err (E_Handle InboundResultChannelDropped) | Some r \<Rightarrow> r)"

fun shim_step :: "handle \<Rightarrow> handle_input \<Rightarrow> handle" where
  "shim_step h (Inbound x now) =
     (if shim h = ShimRecv then arrive (h\<lparr>shim := ShimWaiting (inbound x) (now + PATIENCE)\<rparr>) else h)"
| "shim_step h (PatienceElapsed now) =
     (case shim h of
        ShimWaiting r deadline \<Rightarrow> if deadline \<le> now then h\<lparr>shim := ShimDone\<rparr> else h
      | _ \<Rightarrow> h)"
| "shim_step h ShimResumes =
     (case shim h of
        ShimWaiting r deadline \<Rightarrow> if shim_released h then h\<lparr>shim := ShimDone, slot := Some r\<rparr> else h
      | _ \<Rightarrow> h)"
| "shim_step h _ = h"

text \<open>What is remembered of a verdict, and what it answers to the calls that follow.\<close>

fun remember :: "pod acm_result \<Rightarrow> pod acm_result" where
  "remember (Ok p) = Ok p"
| "remember (Err _) = Err (E_Handle PhantomError)"

definition wait_return :: "handle \<Rightarrow> pod acm_result \<Rightarrow> handle \<times> handle_effect list" where
  "wait_return h r = (h\<lparr>waiter := WaitIdle, slot := None, phantom := Some (remember r)\<rparr>, [Returned r])"

definition wait_called :: "handle \<Rightarrow> handle \<times> handle_effect list" where
  "wait_called h =
     (case phantom h of
        None \<Rightarrow> (arrive (h\<lparr>waiter := WaitBarrier\<rparr>), [])
      | Some (Ok p) \<Rightarrow> (h, [Returned (Ok p)])
      | Some (Err _) \<Rightarrow> (h, [Returned (Err (E_Handle PhantomError))]))"

definition wait_receives :: "handle \<Rightarrow> handle \<times> handle_effect list" where
  "wait_receives h =
     (case slot h of
        Some r \<Rightarrow> wait_return h r
      | None \<Rightarrow> if shim h = ShimDone then wait_return h (Err (E_Handle InboundResultChannelDropped))
                else (h, []))"

fun wait_step :: "handle \<Rightarrow> handle_input \<Rightarrow> handle \<times> handle_effect list" where
  "wait_step h WaitCalled = (if waiter h = WaitIdle then wait_called h else (h, []))"
| "wait_step h WaitResumes =
     (if waiter h = WaitBarrier \<and> waiter_released h then (h\<lparr>waiter := WaitRecv\<rparr>, []) else (h, []))"
| "wait_step h WaitReceives = (if waiter h = WaitRecv then wait_receives h else (h, []))"
| "wait_step h _ = (h, [])"

definition handle_step :: "handle \<Rightarrow> handle_input \<Rightarrow> handle \<times> handle_effect list" where
  "handle_step h i =
     (case i of
        WaitCalled \<Rightarrow> wait_step h i | WaitResumes \<Rightarrow> wait_step h i | WaitReceives \<Rightarrow> wait_step h i
      | _ \<Rightarrow> (shim_step h i, []))"

lemmas handle_defs [machine_simps] =
  handle_step_def arrive_def wait_called_def wait_receives_def wait_return_def

lemmas handle_splits =
  handle_input.splits shim_phase.splits option.splits result.splits if_splits

section \<open>What clients are told\<close>

abbreviation dropped :: "pod acm_result" where
  "dropped \<equiv> Err (E_Handle InboundResultChannelDropped)"

text \<open>
  Before the verdict is known nobody is told anything; the first call to complete gets it, or
  learns that it was dropped; every later call gets what was remembered of that.
\<close>

definition answers :: "handle \<Rightarrow> handle_effect list \<Rightarrow> bool" where
  "answers h es \<longleftrightarrow>
     (case phantom h of
        None \<Rightarrow> es = []
      | Some m \<Rightarrow> waiter h = WaitIdle
          \<and> (\<exists>r n. es = Returned r # replicate n (Returned (remember r)) \<and> m = remember r))"

lemma arrive_keeps [simp]: "phantom (arrive h) = phantom h" "waiter (arrive h) = waiter h"
  "shim (arrive h) = shim h" "slot (arrive h) = slot h"
  by (simp_all add: arrive_def)

lemma handle_step_settled:
  assumes "phantom h = Some (remember r)" and "waiter h = WaitIdle" and "handle_step h i = (h', es)"
  shows "phantom h' = Some (remember r) \<and> waiter h' = WaitIdle
    \<and> (es = [] \<or> es = [Returned (remember r)])"
  using assms
  by (cases i; cases r) (auto simp: handle_step_def wait_called_def split: shim_phase.splits if_splits)

lemma handle_step_open:
  assumes "phantom h = None" and "handle_step h i = (h', es)"
  shows "phantom h' = None \<and> es = []
    \<or> (\<exists>r. phantom h' = Some (remember r) \<and> waiter h' = WaitIdle \<and> es = [Returned r])"
  using assms
  by (cases i) (auto simp: machine_simps split: shim_phase.splits option.splits if_splits)

interpretation handle: traced_daemon handle_step "\<lambda>_. False" answers
proof unfold_locales
  fix s s' es es' i
  assume inv: "answers s es" and st: "handle_step s i = (s', es')"
  show "answers s' (es @ es')"
  proof (cases "phantom s")
    case None
    with inv handle_step_open [OF None st] show ?thesis
      by (auto simp: answers_def intro: exI [where x = 0])
  next
    case (Some m)
    with inv obtain r n where r: "es = Returned r # replicate n (Returned (remember r))" "m = remember r"
      and "waiter s = WaitIdle"
      by (auto simp: answers_def)
    from handle_step_settled [OF _ this(3) st] Some r(2)
    have "phantom s' = Some (remember r)" "waiter s' = WaitIdle" "es' = [] \<or> es' = [Returned (remember r)]"
      by auto
    with r(1) show ?thesis
      by (auto simp: answers_def replicate_append_same [symmetric] intro: exI [where x = n] exI [where x = "Suc n"])
  qed
qed simp

text \<open>The verdict a handle holds came in from below.\<close>

definition holds :: "pod acm_result set \<Rightarrow> handle \<Rightarrow> bool" where
  "holds R h \<longleftrightarrow> (case shim h of ShimWaiting r _ \<Rightarrow> r \<in> R | _ \<Rightarrow> True)
     \<and> (case slot h of Some r \<Rightarrow> r \<in> R | None \<Rightarrow> True)"

definition verdicts :: "handle_input list \<Rightarrow> pod acm_result set" where
  "verdicts is = {inbound x | x t. Inbound x t \<in> set is}"

lemma holds_keep:
  assumes "holds R h" and "verdicts [i] \<subseteq> R" and "handle_step h i = (h', es)"
  shows "holds R h'"
  using assms
  by (cases i) (auto simp: holds_def verdicts_def handle_step_def wait_called_def wait_receives_def wait_return_def
      split: shim_phase.splits option.splits result.splits if_splits)

lemma remember_Ok: "remember r = Ok p \<longleftrightarrow> r = Ok p"
  by (cases r) auto

lemma holds_step:
  assumes "holds R h" and "verdicts [i] \<subseteq> R" and "phantom h = None" and "handle_step h i = (h', es)"
  shows "holds R h' \<and> (\<forall>r. Returned r \<in> set es \<longrightarrow> r \<in> R \<or> r = dropped)"
  using assms
  by (cases i)
    (auto simp: holds_def verdicts_def handle_step_def wait_called_def wait_receives_def wait_return_def
      split: shim_phase.splits option.splits if_splits)

lemma holds_run:
  assumes "holds R h" and "verdicts is \<subseteq> R" and "phantom h = None" and "run handle_step h is = (h', es)"
    and "es = Returned r # fs"
  shows "r \<in> R \<or> r = dropped"
  using assms
proof (induction "is" arbitrary: h es)
  case (Cons i "is")
  from Cons.prems(4) obtain t es1 es2 where
    1: "handle_step h i = (t, es1)" and 2: "run handle_step t is = (h', es2)" and es: "es = es1 @ es2"
    by (auto split: prod.splits)
  from Cons.prems(2) have sub: "verdicts [i] \<subseteq> R" "verdicts is \<subseteq> R" by (auto simp: verdicts_def)
  note step = holds_step [OF Cons.prems(1) sub(1) Cons.prems(3) 1]
  from handle_step_open [OF Cons.prems(3) 1] show ?case
  proof
    assume "phantom t = None \<and> es1 = []"
    with Cons.IH [OF _ sub(2) _ 2] step es Cons.prems(5) show ?thesis by simp
  next
    assume "\<exists>r. phantom t = Some (remember r) \<and> waiter t = WaitIdle \<and> es1 = [Returned r]"
    with step es Cons.prems(5) show ?thesis by auto
  qed
qed simp

text \<open>
  C22: what all the calls of \<open>wait\<close> return, in order: the first one the verdict that came in
  from below, or the error that it was dropped; all the later ones the same pod if it was a
  pod, and the error \<open>PhantomError\<close> if it was an error.
\<close>

theorem wait_answers:
  assumes "run handle_step handle_new is = (h, es)"
  shows "es = [] \<or> (\<exists>r n. es = Returned r # replicate n (Returned (remember r))
    \<and> (r \<in> verdicts is \<or> r = dropped))"
proof -
  have "answers handle_new []" by (simp add: answers_def handle_new_def)
  from handle.run_inv [OF this assms] have "answers h es" by simp
  then consider "es = []" | r n where "es = Returned r # replicate n (Returned (remember r))"
    by (auto simp: answers_def split: option.splits)
  then show ?thesis
  proof cases
    case (2 r n)
    have "holds (verdicts is) handle_new" "phantom handle_new = None"
      by (simp_all add: holds_def handle_new_def)
    from holds_run [OF this(1) _ this(2) assms 2] 2 show ?thesis by blast
  qed simp
qed

text \<open>
  Sixty seconds. If a client calls \<open>wait\<close> after the verdict came in, it gets the
  verdict if the shim's timer fires earlier than sixty seconds after that (and then does nothing),
  and otherwise the error that the verdict was dropped. A client that was there first gets the
  verdict whatever the timer says before it came.
\<close>

lemma wait_patience:
  "snd (run handle_step handle_new
      [Inbound (Some r) t, PatienceElapsed t', WaitCalled, ShimResumes, WaitResumes, WaitReceives])
     = [Returned (if t' < t + 60000 then r else dropped)]
   \<and> snd (run handle_step handle_new
      [WaitCalled, PatienceElapsed t', Inbound (Some r) t, ShimResumes, WaitResumes, WaitReceives])
     = [Returned r]"
  by (simp add: machine_simps handle_new_def PATIENCE_def inbound_def)

text \<open>A verdict nobody fetched in time is lost.\<close>

definition expired :: "handle \<Rightarrow> bool" where
  "expired h \<longleftrightarrow> shim h = ShimDone \<and> slot h = None \<and> (\<forall>p. phantom h \<noteq> Some (Ok p))"

lemma expired_step:
  assumes "expired h" and "handle_step h i = (h', es)"
  shows "expired h' \<and> Returned (Ok p) \<notin> set es"
  using assms
  by (cases i) (auto simp: expired_def handle_step_def wait_called_def wait_receives_def wait_return_def
      split: option.splits result.splits if_splits)

lemma expired_run:
  assumes "expired h" and "run handle_step h is = (h', es)"
  shows "Returned (Ok p) \<notin> set es"
  using assms
proof (induction "is" arbitrary: h es)
  case (Cons i "is")
  then obtain t es1 es2 where
    1: "handle_step h i = (t, es1)" and 2: "run handle_step t is = (h', es2)" "es = es1 @ es2"
    by (auto split: prod.splits)
  from expired_step [OF Cons.prems(1) 1] Cons.IH [OF _ 2(1)] 2(2) show ?case by simp
qed simp

text \<open>
  C8: once the sixty seconds are over with no client waiting, no call of \<open>wait\<close> ever
  returns the pod, although the pod runs and its event watcher goes on watching it.
\<close>

theorem late_wait_never_ok:
  assumes "t + 60000 \<le> t'"
    and "run handle_step handle_new (Inbound (Some r) t # PatienceElapsed t' # is) = (h, es)"
  shows "Returned (Ok p) \<notin> set es"
proof -
  let ?h = "handle_new\<lparr>shim := ShimDone, arrived := True\<rparr>"
  have "run handle_step handle_new [Inbound (Some r) t, PatienceElapsed t'] = (?h, [])"
    using assms(1) by (simp add: machine_simps handle_new_def PATIENCE_def)
  with run_append [of handle_step handle_new "[Inbound (Some r) t, PatienceElapsed t']" "is"] assms(2)
  have "run handle_step ?h is = (h, es)" by (auto split: prod.splits)
  moreover have "expired ?h" by (simp add: expired_def handle_new_def)
  ultimately show ?thesis using expired_run by blast
qed

section \<open>No call of wait hangs\<close>

text \<open>
  The barrier brings the two together: a call that waits at it either is the first to come, with the
  shim still to come, or both are released; a call that is past it has the shim's verdict to come or
  its end.
\<close>

definition meeting :: "handle \<Rightarrow> bool" where
  "meeting h \<longleftrightarrow> (shim h = ShimRecv \<longrightarrow> \<not> waiter_released h)
     \<and> (case waiter h of
        WaitIdle \<Rightarrow> phantom h = None \<longrightarrow> (arrived h \<longleftrightarrow> shim h \<noteq> ShimRecv)
      | WaitBarrier \<Rightarrow>
          if shim h = ShimRecv then arrived h
          else waiter_released h \<and> (is_waiting (shim h) \<longrightarrow> shim_released h)
      | WaitRecv \<Rightarrow> shim h \<noteq> ShimRecv \<and> (is_waiting (shim h) \<longrightarrow> shim_released h))"

lemma meeting_new: "meeting handle_new"
  by (simp add: meeting_def handle_new_def)

lemma meeting_step: "meeting h \<Longrightarrow> handle_step h i = (h', es) \<Longrightarrow> meeting h'"
  by (cases i) (auto simp: meeting_def machine_simps split: handle_splits wait_phase.splits)

lemma wait_ends:
  assumes "meeting h" and "waiter h \<noteq> WaitIdle"
  shows "snd (run handle_step h [Inbound x t, ShimResumes, WaitResumes, WaitReceives]) \<noteq> []"
  using assms
  by (cases "waiter h"; cases "shim h") (auto simp: meeting_def machine_simps split: option.splits)

lemma wait_goes_on:
  assumes "run handle_step h ((if called then [] else [WaitCalled]) @ [WaitResumes, WaitReceives]) = (h', [])"
    and "called \<longrightarrow> waiter h \<noteq> WaitIdle"
  shows "waiter h' \<noteq> WaitIdle"
  using assms
  by (cases "waiter h") (auto simp: machine_simps split: if_splits option.splits result.splits)

section \<open>Evaluation\<close>

theorem wait_answers_witness:
  "snd (run handle_step handle_new
      [WaitCalled, Inbound (Some (Ok default_pod)) 5, ShimResumes, WaitResumes, WaitReceives, WaitCalled])
     = [Returned (Ok default_pod), Returned (Ok default_pod)]
   \<and> Ok default_pod \<in> verdicts
      [WaitCalled, Inbound (Some (Ok default_pod)) 5, ShimResumes, WaitResumes, WaitReceives, WaitCalled]"
proof -
  let ?is = "[WaitCalled, Inbound (Some (Ok default_pod)) 5, ShimResumes, WaitResumes, WaitReceives, WaitCalled]"
  have "snd (run handle_step handle_new ?is) = [Returned (Ok default_pod), Returned (Ok default_pod)]"
    by (simp add: machine_simps handle_new_def inbound_def)
  moreover from this obtain h where
    "run handle_step handle_new ?is = (h, [Returned (Ok default_pod), Returned (Ok default_pod)])"
    by (metis prod.collapse)
  from wait_answers [OF this] have "Ok default_pod \<in> verdicts ?is" by (auto simp: Cons_eq_append_conv)
  ultimately show ?thesis by blast
qed

theorem late_wait_never_ok_witness:
  "Returned (Ok default_pod) \<notin> set (snd (run handle_step handle_new
      [Inbound (Some (Ok default_pod)) 0, PatienceElapsed 60000, WaitCalled, WaitResumes, WaitReceives]))"
  using late_wait_never_ok [of 0 60000 "Ok default_pod" "[WaitCalled, WaitResumes, WaitReceives]"]
  by (metis add_0 le_refl prod.collapse)

end
