(* ===== verification/Pod_Manager.thy ===== *)
theory Pod_Manager
  imports Garbage_Collector External_Handle
begin

text \<open>
  Model of acm podmanager/mod.rs: one pod manager is an event watcher, a garbage collector and
  the handle of its clients, joined by two channels. A step of the whole is a step of one of the
  three, in any order; a coroutine that returned or panicked has dropped its ends of the
  channels. The bounds of the channels (100 and 1) are left out; how far the channels fill is
  shown in \<open>Channels\<close>.
\<close>

section \<open>One pod manager\<close>

record 'b system =
  watcher :: "'b event_watcher"
  collector :: gc_daemon
  upper :: handle
  gc_channel :: "gc_status list"
  result_channel :: "pod acm_result list"

datatype sys_input =
    OnWatcher ew_event nat
  | OnCollector gc_input
  | OnHandle handle_input

datatype sys_effect =
    ByWatcher ew_effect
  | ByCollector gc_effect
  | ByHandle handle_effect

definition new_podmanager :: "'b ew_env \<Rightarrow> string \<Rightarrow> 64 word \<Rightarrow> nat \<Rightarrow> 'b system" where
  "new_podmanager en name ttl now =
     \<lparr>watcher = new_watcher en name now, collector = gc_new name ttl, upper = handle_new,
      gc_channel = [], result_channel = []\<rparr>"

abbreviation watcher_gone :: "'b system \<Rightarrow> bool" where
  "watcher_gone s \<equiv> ew_halted (ew_phase (watcher s))"

abbreviation collector_gone :: "'b system \<Rightarrow> bool" where
  "collector_gone s \<equiv> gc_halted (gc_phase (collector s))"

abbreviation shim_gone :: "'b system \<Rightarrow> bool" where
  "shim_gone s \<equiv> shim (upper s) = ShimDone"

text \<open>
  \<open>mpsc::Receiver::recv\<close>: the next message, the end when the channel is empty and the sender
  is gone, or nothing yet.
\<close>

definition recv :: "bool \<Rightarrow> 'a list \<Rightarrow> ('a option \<times> 'a list) option" where
  "recv sender_gone q =
     (case q of
        x # q' \<Rightarrow> Some (Some x, q')
      | [] \<Rightarrow> if sender_gone then Some (None, []) else None)"

fun sent_gc :: "ew_effect \<Rightarrow> gc_status option" where
  "sent_gc (SendGc s True) = Some s"
| "sent_gc _ = None"

fun sent_result :: "ew_effect \<Rightarrow> pod acm_result option" where
  "sent_result (SendResult r True) = Some r"
| "sent_result _ = None"

definition watcher_turn ::
  "'b ew_env \<Rightarrow> 'b system \<Rightarrow> ew_event \<Rightarrow> nat \<Rightarrow> 'b system \<times> sys_effect list" where
  "watcher_turn en s ev now =
     (case ew_step en (watcher s)
             \<lparr>ew_event = ev, ew_now = now, gc_open = \<not> collector_gone s, upstream_open = \<not> shim_gone s\<rparr> of
        (w, es) \<Rightarrow>
          (s\<lparr>watcher := w, gc_channel := gc_channel s @ List.map_filter sent_gc es,
             result_channel := result_channel s @ List.map_filter sent_result es\<rparr>,
           map ByWatcher es))"

definition collector_turn :: "clock \<Rightarrow> 'b system \<Rightarrow> gc_input \<Rightarrow> 'b system \<times> sys_effect list" where
  "collector_turn ck s i =
     (case gc_step ck (collector s) i of (c, es) \<Rightarrow> (s\<lparr>collector := c\<rparr>, map ByCollector es))"

definition collector_recv :: "clock \<Rightarrow> 'b system \<Rightarrow> gc_input \<Rightarrow> 'b system \<times> sys_effect list" where
  "collector_recv ck s i =
     (if collector_gone s then (s, [])
      else case recv (watcher_gone s) (gc_channel s) of
             None \<Rightarrow> (s, [])
           | Some (x, q) \<Rightarrow> collector_turn ck (s\<lparr>gc_channel := q\<rparr>) (i\<lparr>gc_event := PodEvent x\<rparr>))"

definition handle_turn :: "'b system \<Rightarrow> handle_input \<Rightarrow> 'b system \<times> sys_effect list" where
  "handle_turn s i =
     (case handle_step (upper s) i of (h, es) \<Rightarrow> (s\<lparr>upper := h\<rparr>, map ByHandle es))"

definition handle_recv :: "'b system \<Rightarrow> nat \<Rightarrow> 'b system \<times> sys_effect list" where
  "handle_recv s now =
     (if shim (upper s) \<noteq> ShimRecv then (s, [])
      else case recv (watcher_gone s) (result_channel s) of
             None \<Rightarrow> (s, [])
           | Some (x, q) \<Rightarrow> handle_turn (s\<lparr>result_channel := q\<rparr>) (Inbound x now))"

definition sys_step ::
  "'b ew_env \<Rightarrow> clock \<Rightarrow> 'b system \<Rightarrow> sys_input \<Rightarrow> 'b system \<times> sys_effect list" where
  "sys_step en ck s inp =
     (case inp of
        OnWatcher ev now \<Rightarrow> watcher_turn en s ev now
      | OnCollector i \<Rightarrow>
          (case gc_event i of PodEvent _ \<Rightarrow> collector_recv ck s i | _ \<Rightarrow> collector_turn ck s i)
      | OnHandle i \<Rightarrow>
          (case i of Inbound _ now \<Rightarrow> handle_recv s now | _ \<Rightarrow> handle_turn s i))"

section \<open>Projections\<close>

fun by_watcher :: "sys_effect \<Rightarrow> ew_effect option" where
  "by_watcher (ByWatcher e) = Some e"
| "by_watcher _ = None"

fun by_collector :: "sys_effect \<Rightarrow> gc_effect option" where
  "by_collector (ByCollector e) = Some e"
| "by_collector _ = None"

fun by_handle :: "sys_effect \<Rightarrow> handle_effect option" where
  "by_handle (ByHandle e) = Some e"
| "by_handle _ = None"

fun on_watcher :: "sys_input \<Rightarrow> ew_event option" where
  "on_watcher (OnWatcher ev _) = Some ev"
| "on_watcher _ = None"

abbreviation watcher_did :: "sys_effect list \<Rightarrow> ew_effect list" where
  "watcher_did es \<equiv> List.map_filter by_watcher es"

abbreviation collector_did :: "sys_effect list \<Rightarrow> gc_effect list" where
  "collector_did es \<equiv> List.map_filter by_collector es"

abbreviation handle_did :: "sys_effect list \<Rightarrow> handle_effect list" where
  "handle_did es \<equiv> List.map_filter by_handle es"

abbreviation watcher_saw :: "sys_input list \<Rightarrow> ew_event list" where
  "watcher_saw is \<equiv> List.map_filter on_watcher is"

lemma map_filter_map [simp]:
  "List.map_filter f (map g xs) = List.map_filter (\<lambda>x. f (g x)) xs"
  by (simp add: List.map_filter_def comp_def filter_map)

lemma map_filter_Some [simp]: "List.map_filter Some xs = xs" "List.map_filter (\<lambda>x. None) xs = []"
  by (simp_all add: List.map_filter_def)

lemma map_filter_in: "y \<in> set (List.map_filter f xs) \<longleftrightarrow> (\<exists>x \<in> set xs. f x = Some y)"
  by (force simp: List.map_filter_def)

lemma did_in:
  "e \<in> set (watcher_did es) \<longleftrightarrow> ByWatcher e \<in> set es"
  "f \<in> set (collector_did es) \<longleftrightarrow> ByCollector f \<in> set es"
  "g \<in> set (handle_did es) \<longleftrightarrow> ByHandle g \<in> set es"
  by (force simp: map_filter_in elim: by_watcher.elims by_collector.elims by_handle.elims)+

lemmas turn_defs = watcher_turn_def collector_turn_def collector_recv_def handle_turn_def handle_recv_def

text \<open>Every run of the whole is, seen from the watcher and from the collector, a run of theirs.\<close>

lemma watcher_run:
  assumes "run (sys_step en ck) s is = (s', es)"
  shows "\<exists>js. run (ew_step en) (watcher s) js = (watcher s', watcher_did es) \<and> map ew_event js = watcher_saw is"
  using assms
proof (induction "is" arbitrary: s es)
  case (Cons inp "is")
  then obtain t es1 es2 where
    1: "sys_step en ck s inp = (t, es1)" and 2: "run (sys_step en ck) t is = (s', es2)" "es = es1 @ es2"
    by (auto split: prod.splits)
  from Cons.IH [OF 2(1)] obtain js where
    js: "run (ew_step en) (watcher t) js = (watcher s', watcher_did es2)" "map ew_event js = watcher_saw is" by blast
  show ?case
  proof (cases inp)
    case (OnWatcher ev now)
    define i where "i = \<lparr>ew_event = ev, ew_now = now, gc_open = \<not> collector_gone s, upstream_open = \<not> shim_gone s\<rparr>"
    from 1 OnWatcher have "ew_step en (watcher s) i = (watcher t, watcher_did es1)"
      by (auto simp: sys_step_def watcher_turn_def i_def split: prod.splits)
    with js 2(2) OnWatcher show ?thesis by (intro exI [where x = "i # js"]) (simp add: i_def)
  next
    case (OnCollector i)
    with 1 have "watcher t = watcher s" "watcher_did es1 = []"
      by (auto simp: sys_step_def turn_defs split: gc_event.splits prod.splits option.splits if_splits)
    with js 2(2) OnCollector show ?thesis by auto
  next
    case (OnHandle i)
    with 1 have "watcher t = watcher s" "watcher_did es1 = []"
      by (auto simp: sys_step_def turn_defs split: handle_input.splits prod.splits option.splits if_splits)
    with js 2(2) OnHandle show ?thesis by auto
  qed
qed auto

section \<open>The channel to the garbage collector\<close>

abbreviation signalled :: "sys_effect list \<Rightarrow> gc_status list" where
  "signalled es \<equiv> gc_signals (watcher_did es)"

text \<open>
  While the collector lives, what the watcher has signalled is what the collector has consumed
  followed by what is in the channel; it has consumed nothing while it waits and one running
  signal while it counts, and it acts only after such a signal.
\<close>

definition wired :: "string \<Rightarrow> 'b system \<Rightarrow> sys_effect list \<Rightarrow> bool" where
  "wired name s es \<longleftrightarrow>
     ew_protocol name (watcher s) (watcher_did es)
     \<and> (case gc_phase (collector s) of
          GcWaiting \<Rightarrow> gc_channel s = signalled es \<and> collector_did es = []
        | Counting _ \<Rightarrow> \<exists>p. signalled es = GcRunning p # gc_channel s
        | _ \<Rightarrow> True)
     \<and> (signalled es = [] \<longrightarrow> collector_did es = [])"

lemma sent_gc_all:
  assumes "ew_step en d i = (d', es)" and "gc_open i"
  shows "List.map_filter sent_gc es = gc_signals es"
proof -
  have "sent_gc e = gc_signal e" if "e \<in> set es" for e
  proof (cases e)
    case (SendGc x b)
    with that assms ew_send_flags(1) have b by blast
    with SendGc show ?thesis by simp
  qed simp_all
  then show ?thesis by (induction es) (auto simp: List.map_filter_simps split: option.splits)
qed

lemma wired_watcher:
  assumes "wired name s es" and "watcher_turn en s ev now = (s', es')"
  shows "wired name s' (es @ es')"
proof -
  define i where "i = \<lparr>ew_event = ev, ew_now = now, gc_open = \<not> collector_gone s, upstream_open = \<not> shim_gone s\<rparr>"
  obtain w fs where st: "ew_step en (watcher s) i = (w, fs)" by fastforce
  then have s': "watcher s' = w" "collector s' = collector s" "es' = map ByWatcher fs"
    "gc_channel s' = gc_channel s @ List.map_filter sent_gc fs"
    using assms(2) by (auto simp: watcher_turn_def i_def)
  have "ew_protocol name w (watcher_did es @ fs)"
    using ew.inv_step_any [OF _ st] assms(1) by (simp add: wired_def)
  moreover have "List.map_filter sent_gc fs = gc_signals fs" if "\<not> collector_gone s"
    using sent_gc_all [OF st] that by (simp add: i_def)
  ultimately show ?thesis using assms(1) s' by (auto simp: wired_def split: gc_phase.splits)
qed

lemma gc_step_timer:
  assumes "\<forall>x. gc_event i \<noteq> PodEvent x" and "gc_step ck d i = (d', es)"
  shows "gc_phase d = GcWaiting \<and> d' = d \<and> es = []
    \<or> (\<exists>tk. gc_phase d = Counting tk) \<and> ((\<exists>tk. gc_phase d' = Counting tk) \<or> gc_halted (gc_phase d'))
    \<or> gc_halted (gc_phase d) \<and> d' = d \<and> es = []"
  using assms by (auto simp: machine_simps split: gc_splits)

lemma gc_step_signal:
  assumes "gc_event i = PodEvent x" and "gc_step ck d i = (d', es)" and "\<not> gc_halted (gc_phase d)"
  shows "gc_halted (gc_phase d') \<and> (x = None \<or> x = Some GcTerminated \<or> (\<exists>p. x = Some (GcRunning p)))
      \<and> (gc_phase d = GcWaiting \<longrightarrow> es = [] \<or> (\<exists>p. x = Some (GcRunning p)))
    \<or> (\<exists>p. x = Some (GcRunning p)) \<and> (\<exists>tk. gc_phase d' = Counting tk)"
  using assms by (auto simp: machine_simps split: gc_splits)

lemma said_second: "ew_said name ph (GcRunning p # x # q) r k \<Longrightarrow> x = GcTerminated"
  by (auto elim: ew_said.cases)

lemma said_alone: "ew_said name ph [GcRunning p] r k \<Longrightarrow> \<not> ew_halted ph"
  by (auto elim: ew_said.cases)

lemma wired_recv:
  assumes "wired name s es" and "collector_recv ck s i = (s', es')"
  shows "wired name s' (es @ es')"
proof (cases "collector_gone s \<or> recv (watcher_gone s) (gc_channel s) = None")
  case True
  with assms show ?thesis by (auto simp: collector_recv_def split: if_splits)
next
  case False
  then obtain x q where r: "recv (watcher_gone s) (gc_channel s) = Some (x, q)" and live: "\<not> collector_gone s"
    by auto
  obtain c fs where st: "gc_step ck (collector s) (i\<lparr>gc_event := PodEvent x\<rparr>) = (c, fs)" by fastforce
  with False r assms(2) have s': "watcher s' = watcher s" "collector s' = c" "gc_channel s' = q"
    "es' = map ByCollector fs"
    by (auto simp: collector_recv_def collector_turn_def)
  from r have q: "(\<exists>y. x = Some y \<and> gc_channel s = y # q) \<or> x = None \<and> q = []"
    by (auto simp: recv_def split: list.splits if_splits)
  note step = gc_step_signal [OF _ st live]
  show ?thesis
  proof (cases "gc_phase (collector s)")
    case GcWaiting
    with assms(1) s' q step show ?thesis by (auto simp: wired_def split: gc_phase.splits)
  next
    case (Counting tk)
    with assms(1) obtain p where p: "signalled es = GcRunning p # gc_channel s" by (auto simp: wired_def)
    have "\<not> (\<exists>p'. x = Some (GcRunning p'))"
      using q p assms(1) said_second by (fastforce simp: wired_def ew_protocol_def)
    with step have "gc_halted (gc_phase c)" by auto
    with assms(1) s' p show ?thesis by (auto simp: wired_def split: gc_phase.splits)
  qed (use live in auto)
qed

lemma wired_timer:
  assumes "wired name s es" and "collector_turn ck s i = (s', es')" and "\<forall>x. gc_event i \<noteq> PodEvent x"
  shows "wired name s' (es @ es')"
proof -
  obtain c fs where st: "gc_step ck (collector s) i = (c, fs)" by fastforce
  with assms(2) have "watcher s' = watcher s" "collector s' = c" "gc_channel s' = gc_channel s"
    "es' = map ByCollector fs"
    by (auto simp: collector_turn_def)
  with assms(1) gc_step_timer [OF assms(3) st] show ?thesis
    by (auto simp: wired_def split: gc_phase.splits)
qed

interpretation wiring: traced_daemon "sys_step en ck" "\<lambda>_. False" "wired name"
  for en :: "'b ew_env" and ck name
proof unfold_locales
  fix s s' :: "'b system" and es es' inp
  assume inv: "wired name s es" and st: "sys_step en ck s inp = (s', es')"
  show "wired name s' (es @ es')"
  proof (cases inp)
    case (OnWatcher ev now)
    with inv st show ?thesis by (auto simp: sys_step_def intro: wired_watcher)
  next
    case (OnCollector i)
    with inv st show ?thesis
      by (cases "gc_event i") (auto simp: sys_step_def intro: wired_recv wired_timer)
  next
    case (OnHandle i)
    with st have "watcher s' = watcher s" "collector s' = collector s" "gc_channel s' = gc_channel s"
      "watcher_did es' = []" "collector_did es' = []"
      by (auto simp: sys_step_def handle_turn_def handle_recv_def
          split: handle_input.splits prod.splits option.splits if_splits)
    with inv show ?thesis by (simp add: wired_def split: gc_phase.splits)
  qed
qed simp

lemma new_podmanager_wired: "wired name (new_podmanager en name ttl now) []"
  by (simp add: wired_def new_podmanager_def ew_start_protocol gc_new_def)

lemma run_wired:
  assumes "run (sys_step en ck) (new_podmanager en name ttl now) is = (s, es)"
  shows "wired name s es"
  using wiring.run_inv [OF new_podmanager_wired assms] by simp

lemma wired_delete:
  assumes "wired name s fs" and "ByCollector (GcDelete n) \<in> set (snd (sys_step en ck s inp))"
  shows "\<exists>i tk. inp = OnCollector i \<and> n = gc_pod (collector s) \<and> gc_phase (collector s) = Counting tk
    \<and> gc_event i = ExecutionDateReached \<and> execution_instant tk \<le> instant_now i"
proof (cases inp)
  case (OnWatcher ev now)
  with assms(2) show ?thesis by (auto simp: sys_step_def watcher_turn_def split: prod.splits)
next
  case (OnHandle i)
  with assms(2) show ?thesis
    by (auto simp: sys_step_def handle_turn_def handle_recv_def
        split: handle_input.splits prod.splits option.splits if_splits)
next
  case (OnCollector i)
  show ?thesis
  proof (cases "\<exists>x. gc_event i = PodEvent x")
    case False
    with assms(2) OnCollector have "GcDelete n \<in> set (snd (gc_step ck (collector s) i))"
      by (auto simp: sys_step_def collector_turn_def split: gc_event.splits prod.splits)
    with False OnCollector show ?thesis by (auto simp: gc_delete_cause)
  next
    case True
    with assms(2) OnCollector obtain x q where
      r: "recv (watcher_gone s) (gc_channel s) = Some (x, q)"
      and del: "GcDelete n \<in> set (snd (gc_step ck (collector s) (i\<lparr>gc_event := PodEvent x\<rparr>)))"
      by (auto simp: sys_step_def collector_recv_def collector_turn_def
          split: if_splits option.splits prod.splits)
    then obtain tk where "x = None" "gc_phase (collector s) = Counting tk" by (auto simp: gc_delete_cause)
    with r assms(1) have "watcher_gone s" "\<exists>p. signalled fs = [GcRunning p]"
      by (auto simp: recv_def wired_def split: list.splits if_splits)
    with assms(1) said_alone have False by (fastforce simp: wired_def ew_protocol_def)
    then show ?thesis ..
  qed
qed


lemma collector_recv_Terminated:
  assumes "gc_channel s = GcTerminated # q"
  shows "collector_gone (fst (collector_recv ck s i))"
  using assms by (cases "gc_phase (collector s)")
    (auto simp: collector_recv_def collector_turn_def recv_def gc_step_def split: prod.splits)

lemma collector_recv_gone: "collector_gone s \<Longrightarrow> collector_recv ck s i = (s, [])"
  by (simp add: collector_recv_def)

text \<open>
  The collector follows the watcher: once the event watcher has returned or panicked, two polls of
  its channel at most bring the garbage collector to its end, wherever it was.
\<close>

lemma pm_collector_stops:
  assumes "wired name s es" and "watcher_gone s" and "gc_event i = PodEvent x" and "gc_event j = PodEvent y"
  shows "collector_gone (fst (run (sys_step en ck) s [OnCollector i, OnCollector j]))"
proof -
  define t where "t = fst (collector_recv ck s i)"
  have run: "fst (run (sys_step en ck) s [OnCollector i, OnCollector j]) = fst (collector_recv ck t j)"
    using assms(3,4) by (simp add: sys_step_def t_def split: prod.splits)
  from assms(1,2) have sent: "signalled es \<in> {[], [GcTerminated]} \<or> (\<exists>p. signalled es = [GcRunning p, GcTerminated])"
    by (cases "ew_phase (watcher s)") (auto simp: wired_def ew_protocol_def elim: said_Returned said_Panicked)
  have "collector_gone t \<or> (\<exists>q. gc_channel t = GcTerminated # q)"
  proof (cases "\<exists>q. gc_channel s = GcTerminated # q")
    case True
    then show ?thesis unfolding t_def using collector_recv_Terminated by blast
  next
    case False
    with assms(1) sent have "collector_gone s
        \<or> gc_phase (collector s) = GcWaiting \<and> (gc_channel s = [] \<or> (\<exists>p. gc_channel s = [GcRunning p, GcTerminated]))"
      by (cases "gc_phase (collector s)") (auto simp: wired_def dest: sym)
    with assms(2) show ?thesis
      by (auto simp: t_def collector_recv_def collector_turn_def recv_def gc_step_def split: prod.splits)
  qed
  with run show ?thesis
    using collector_recv_Terminated collector_recv_gone by (metis fst_conv)
qed

lemma kill_in: "KillPod n \<in> set es \<Longrightarrow> n \<in> set (killed_pods es)"
  by (force simp: map_filter_in)


section \<open>The channel to the clients\<close>

abbreviation verdict :: "sys_effect list \<Rightarrow> pod acm_result set" where
  "verdict es \<equiv> set (client_results (watcher_did es))"

text \<open>Every verdict on its way to a client, or remembered for one, is one the watcher has sent.\<close>

definition fed :: "'b system \<Rightarrow> sys_effect list \<Rightarrow> bool" where
  "fed s es \<longleftrightarrow>
     set (result_channel s) \<subseteq> verdict es \<and> holds (insert dropped (verdict es)) (upper s)
     \<and> (\<forall>p. phantom (upper s) = Some (Ok p) \<longrightarrow> Ok p \<in> verdict es)
     \<and> (\<forall>p. ByHandle (Returned (Ok p)) \<in> set es \<longrightarrow> Ok p \<in> verdict es)"

lemma holds_mono: "holds R h \<Longrightarrow> R \<subseteq> R' \<Longrightarrow> holds R' h"
  by (auto simp: holds_def split: shim_phase.splits option.splits)

lemma sent_result_in: "set (List.map_filter sent_result es) \<subseteq> set (client_results es)"
proof -
  have "client_result e = Some r" if "sent_result e = Some r" for e r
    using that by (cases e rule: sent_result.cases) auto
  then show ?thesis by (force simp: map_filter_in)
qed

lemma handle_ok_step:
  assumes "holds (insert dropped R) h" and "verdicts [i] \<subseteq> insert dropped R"
    and "\<forall>p. phantom h = Some (Ok p) \<longrightarrow> Ok p \<in> R" and "handle_step h i = (h', es)"
  shows "holds (insert dropped R) h' \<and> (\<forall>p. phantom h' = Some (Ok p) \<longrightarrow> Ok p \<in> R)
    \<and> (\<forall>p. Returned (Ok p) \<in> set es \<longrightarrow> Ok p \<in> R)"
proof -
  have "Ok p \<in> R" if "slot h = Some (Ok p)" for p using assms(1) that by (simp add: holds_def)
  then have "(\<forall>p. phantom h' = Some (Ok p) \<longrightarrow> Ok p \<in> R) \<and> (\<forall>p. Returned (Ok p) \<in> set es \<longrightarrow> Ok p \<in> R)"
    using assms(3,4)
    by (cases i) (auto simp: remember_Ok handle_step_def wait_called_def wait_receives_def wait_return_def
        split: shim_phase.splits option.splits result.splits if_splits)
  with holds_keep [OF assms(1,2,4)] show ?thesis by blast
qed

lemma fed_handle:
  assumes "fed s es" and "handle_step (upper s) i = (h, fs)" and "verdicts [i] \<subseteq> insert dropped (verdict es)"
    and "set (result_channel s') \<subseteq> set (result_channel s)" and "upper s' = h"
  shows "fed s' (es @ map ByHandle fs)"
proof -
  have "\<forall>p. phantom (upper s) = Some (Ok p) \<longrightarrow> Ok p \<in> verdict es"
    and "holds (insert dropped (verdict es)) (upper s)"
    using assms(1) by (simp_all add: fed_def)
  from handle_ok_step [OF this(2) assms(3) this(1) assms(2)] assms(1,4,5) show ?thesis
    by (auto simp: fed_def)
qed

lemma fed_handle_turn:
  assumes "fed s es" and "sys_step en ck s (OnHandle i) = (s', es')"
  shows "fed s' (es @ es')"
proof (cases "\<exists>x now. i = Inbound x now")
  case False
  then have "verdicts [i] = {}" by (auto simp: verdicts_def)
  moreover obtain h fs where "handle_step (upper s) i = (h, fs)" by fastforce
  ultimately show ?thesis
    using False assms(2) fed_handle [OF assms(1), of i h fs s']
    by (cases i) (auto simp: sys_step_def handle_turn_def)
next
  case True
  then obtain y now where i: "i = Inbound y now" by blast
  show ?thesis
  proof (cases "shim (upper s) \<noteq> ShimRecv \<or> recv (watcher_gone s) (result_channel s) = None")
    case True
    with i assms show ?thesis by (auto simp: sys_step_def handle_recv_def split: if_splits)
  next
    case False
    then obtain x q where r: "recv (watcher_gone s) (result_channel s) = Some (x, q)" by auto
    obtain h fs where h: "handle_step (upper s) (Inbound x now) = (h, fs)" by fastforce
    from r have "set q \<subseteq> set (result_channel s)" "x = None \<or> (\<exists>v \<in> set (result_channel s). x = Some v)"
      by (auto simp: recv_def split: list.splits if_splits)
    moreover from this assms(1) have "verdicts [Inbound x now] \<subseteq> insert dropped (verdict es)"
      by (auto simp: verdicts_def inbound_def fed_def)
    ultimately show ?thesis
      using fed_handle [OF assms(1) h, of s'] False r i h assms(2)
      by (auto simp: sys_step_def handle_recv_def handle_turn_def)
  qed
qed

interpretation feeding: traced_daemon "sys_step en ck" "\<lambda>_. False" fed
  for en :: "'b ew_env" and ck
proof unfold_locales
  fix s s' :: "'b system" and es es' inp
  assume inv: "fed s es" and st: "sys_step en ck s inp = (s', es')"
  show "fed s' (es @ es')"
  proof (cases inp)
    case (OnWatcher ev now)
    with st obtain fs where "upper s' = upper s" "es' = map ByWatcher fs"
      "result_channel s' = result_channel s @ List.map_filter sent_result fs"
      by (auto simp: sys_step_def watcher_turn_def split: prod.splits)
    moreover from inv have "holds (insert dropped (verdict es \<union> set (client_results fs))) (upper s)"
      by (auto simp: fed_def elim: holds_mono)
    ultimately show ?thesis using inv sent_result_in [of fs] by (auto simp: fed_def)
  next
    case (OnCollector i)
    with st have "upper s' = upper s" "result_channel s' = result_channel s" "watcher_did es' = []"
      "\<forall>p. ByHandle (Returned (Ok p)) \<notin> set es'"
      by (auto simp: sys_step_def turn_defs split: gc_event.splits prod.splits option.splits if_splits)
    with inv show ?thesis by (auto simp: fed_def)
  next
    case (OnHandle i)
    with inv st show ?thesis by (auto intro: fed_handle_turn)
  qed
qed

lemma new_podmanager_fed: "fed (new_podmanager en name ttl now) []"
  by (simp add: fed_def new_podmanager_def holds_def handle_new_def)

lemma client_result_sent: "r \<in> set (client_results es) \<Longrightarrow> \<exists>b. SendResult r b \<in> set es"
  by (auto simp: map_filter_in elim!: client_result.elims)

section \<open>Evaluation\<close>

abbreviation pm0 :: "nat system" where
  "pm0 \<equiv> new_podmanager quarter_hour ''conn-1'' DEFAULT_TTL 0"

abbreviation pm_step :: "nat system \<Rightarrow> sys_input \<Rightarrow> nat system \<times> sys_effect list" where
  "pm_step \<equiv> sys_step quarter_hour wide_clock"

definition goes_up :: "sys_input list" where
  "goes_up = [OnWatcher (K8s (Ok (Some (Applied up_pod)))) 900, OnCollector (gc_at 7 (PodEvent None))]"

definition pm1 :: "nat system" where
  "pm1 = pm0\<lparr>watcher := \<lparr>pod_id = ''conn-1'', ew_backoff = 900, ew_phase = Phase2 up_pod\<rparr>,
             collector := (gc_new ''conn-1'' DEFAULT_TTL)\<lparr>gc_phase := Counting leasing\<rparr>\<rparr>"

lemmas sys_eval = sys_step_def turn_defs recv_def new_podmanager_def machine_simps

lemma goes_up_run:
  "run pm_step pm0 goes_up = (pm1, [ByWatcher (SendGc (GcRunning up_pod) True),
     ByWatcher (CheckStart ''http://10-0-0-9.ocf.pod:8080''), ByCollector (PatchPod ''conn-1'' (pod_patch leasing))])"
  by (simp add: goes_up_def pm1_def sys_eval quarter_hour_def half_second_def ew_start_def handle_new_def
      server_check_new_def up_pod_address leasing_issue)



end
