(* ===== verification/Managed_Pod.thy ===== *)
theory Managed_Pod
  imports Pod_Manager
begin

text \<open>
  The pod manager together with the health check that its event watcher starts
  (event_watcher.rs phase 2 with server_check.rs). The report of the check reaches the watcher
  through a one-shot channel; \<open>kill\<close> and \<open>join\<close> await the check's end. What the other coroutines
  do while the watcher awaits them comes before its step: it shares nothing with them until then.
\<close>

section \<open>The health check in its place\<close>

record 'c health =
  checker :: "'c check option"
  outcome_of :: "unit acm_result option"

record ('b, 'c) managed =
  manager :: "'b system"
  health :: "'c health"

datatype managed_input =
    StreamItem "(pod event option, watcher_error) result" nat "(check_event \<times> nat) list"
  | Outcome nat
  | OnCheck check_event nat
  | OnOthers sys_input

datatype managed_effect = ByManager sys_effect | ByCheck check_effect

definition new_managed :: "'b ew_env \<Rightarrow> string \<Rightarrow> 64 word \<Rightarrow> nat \<Rightarrow> ('b, 'c) managed" where
  "new_managed en name ttl now =
     \<lparr>manager = new_podmanager en name ttl now, health = \<lparr>checker = None, outcome_of = None\<rparr>\<rparr>"

text \<open>The check's report, if it made one, is put into the one-shot channel.\<close>

definition check_turned ::
  "'c health \<Rightarrow> 'c check \<times> check_effect list \<Rightarrow> 'c health \<times> managed_effect list" where
  "check_turned k r =
     (\<lparr>checker = Some (fst r),
       outcome_of = (case snd r of [] \<Rightarrow> outcome_of k | Report v # _ \<Rightarrow> Some v)\<rparr>,
      map ByCheck (snd r))"

text \<open>What a call of the watcher does to the check: spawn, kill, or await it.\<close>

definition supervise ::
  "'c backoff_ops \<Rightarrow> nat \<Rightarrow> (check_event \<times> nat) list \<Rightarrow> 'c health \<Rightarrow> ew_effect
   \<Rightarrow> 'c health \<times> managed_effect list" where
  "supervise bo now ready k e =
     (case e of
        CheckStart uri \<Rightarrow> check_turned k (check_start bo uri now True)
      | CheckKill \<Rightarrow>
          (case checker k of
             None \<Rightarrow> (k, [])
           | Some c \<Rightarrow> check_turned k (server_check_kill bo ready now c))
      | _ \<Rightarrow> (k, []))"

definition watcher_acts ::
  "'b ew_env \<Rightarrow> 'c backoff_ops \<Rightarrow> clock \<Rightarrow> (check_event \<times> nat) list \<Rightarrow> ew_event \<Rightarrow> nat
   \<Rightarrow> ('b, 'c) managed \<Rightarrow> ('b, 'c) managed \<times> managed_effect list" where
  "watcher_acts en bo ck ready ev now m =
     (case sys_step en ck (manager m) (OnWatcher ev now) of
        (s, es) \<Rightarrow>
          (case run (supervise bo now ready) (health m) (watcher_did es) of
             (k, cs) \<Rightarrow> (\<lparr>manager = s, health = k\<rparr>, cs @ map ByManager es)))"

text \<open>
  The one-shot channel as \<open>select!\<close> polls it: the report, the error of a dropped sender, or
  nothing yet. The value comes with the end of the coroutine, so that joining does not wait.
\<close>

definition poll_outcome :: "'c health \<Rightarrow> (unit acm_result, unit) result option" where
  "poll_outcome k =
     (case checker k of
        None \<Rightarrow> None
      | Some c \<Rightarrow>
          (case server_check_join c of
             None \<Rightarrow> None
           | Some _ \<Rightarrow> Some (case outcome_of k of Some r \<Rightarrow> Ok r | None \<Rightarrow> Err ())))"

definition managed_step ::
  "'b ew_env \<Rightarrow> 'c backoff_ops \<Rightarrow> clock \<Rightarrow> ('b, 'c) managed \<Rightarrow> managed_input
   \<Rightarrow> ('b, 'c) managed \<times> managed_effect list" where
  "managed_step en bo ck m inp =
     (case inp of
        StreamItem x now ready \<Rightarrow> watcher_acts en bo ck ready (K8s x) now m
      | Outcome now \<Rightarrow>
          (case (ew_phase (watcher (manager m)), poll_outcome (health m)) of
             (Phase2 _, Some r) \<Rightarrow> watcher_acts en bo ck [] (HealthCheck r) now m
           | _ \<Rightarrow> (m, []))
      | OnCheck ev now \<Rightarrow>
          (case checker (health m) of
             Some c \<Rightarrow>
               if ev = Sigint then (m, [])
               else (case check_turned (health m) (check_step bo c
                            \<lparr>check_event = ev, check_now = now, output_open = \<not> watcher_gone (manager m)\<rparr>) of
                       (k, cs) \<Rightarrow> (m\<lparr>health := k\<rparr>, cs))
           | None \<Rightarrow> (m, []))
      | OnOthers si \<Rightarrow>
          (case si of
             OnWatcher _ _ \<Rightarrow> (m, [])
           | _ \<Rightarrow> (case sys_step en ck (manager m) si of
                    (s, es) \<Rightarrow> (m\<lparr>manager := s\<rparr>, map ByManager es))))"

section \<open>Projections\<close>

fun by_manager :: "managed_effect \<Rightarrow> sys_effect option" where
  "by_manager (ByManager e) = Some e"
| "by_manager _ = None"

abbreviation manager_did :: "managed_effect list \<Rightarrow> sys_effect list" where
  "manager_did es \<equiv> List.map_filter by_manager es"

lemma manager_did_in: "e \<in> set (manager_did es) \<longleftrightarrow> ByManager e \<in> set es"
  by (force simp: map_filter_in elim: by_manager.elims)

lemma supervise_quiet: "manager_did (snd (run (supervise bo now ready) k es)) = []"
proof (induction es arbitrary: k)
  case (Cons e es)
  have "manager_did (snd (supervise bo now ready k e)) = []"
    by (auto simp: supervise_def check_turned_def split: ew_effect.splits option.splits)
  with Cons show ?case by (auto split: prod.splits) (metis snd_conv)
qed simp

lemma supervise_run_quiet: "run (supervise bo now ready) k es = (k', cs) \<Longrightarrow> manager_did cs = []"
  using supervise_quiet by (metis snd_conv)

lemma watcher_acts_manager:
  assumes "watcher_acts en bo ck ready ev now m = (m', es)"
  shows "sys_step en ck (manager m) (OnWatcher ev now) = (manager m', manager_did es)"
  using assms by (auto simp: watcher_acts_def split: prod.splits dest: supervise_run_quiet)

text \<open>A step of the whole is a step of the manager or none at all.\<close>

definition sys_inputs :: "('b, 'c) managed \<Rightarrow> managed_input \<Rightarrow> sys_input list" where
  "sys_inputs m inp =
     (case inp of
        StreamItem x now _ \<Rightarrow> [OnWatcher (K8s x) now]
      | Outcome now \<Rightarrow>
          (case (ew_phase (watcher (manager m)), poll_outcome (health m)) of
             (Phase2 _, Some r) \<Rightarrow> [OnWatcher (HealthCheck r) now]
           | _ \<Rightarrow> [])
      | OnCheck _ _ \<Rightarrow> []
      | OnOthers si \<Rightarrow> (case si of OnWatcher _ _ \<Rightarrow> [] | _ \<Rightarrow> [si]))"

lemma check_turned_quiet: "check_turned k r = (k', es) \<Longrightarrow> manager_did es = []"
  by (auto simp: check_turned_def)

lemma manager_step:
  assumes "managed_step en bo ck m inp = (m', es)"
  shows "run (sys_step en ck) (manager m) (sys_inputs m inp) = (manager m', manager_did es)"
proof (cases inp)
  case (StreamItem x now ready)
  with assms show ?thesis by (auto simp: managed_step_def sys_inputs_def dest!: watcher_acts_manager)
next
  case (Outcome now)
  with assms show ?thesis
    by (auto simp: managed_step_def sys_inputs_def dest!: watcher_acts_manager
        split: ew_phase.splits option.splits)
next
  case (OnCheck ev now)
  with assms show ?thesis
    by (auto simp: managed_step_def sys_inputs_def split: option.splits if_splits prod.splits dest: check_turned_quiet)
next
  case (OnOthers si)
  with assms show ?thesis
    by (auto simp: managed_step_def sys_inputs_def split: sys_input.splits prod.splits)
qed

lemma manager_run:
  assumes "run (managed_step en bo ck) m is = (m', es)"
  shows "\<exists>js. run (sys_step en ck) (manager m) js = (manager m', manager_did es)"
  using assms
proof (induction "is" arbitrary: m es)
  case (Cons i "is")
  then obtain t es1 es2 where
    1: "managed_step en bo ck m i = (t, es1)" and 2: "run (managed_step en bo ck) t is = (m', es2)" "es = es1 @ es2"
    by (auto split: prod.splits)
  from Cons.IH [OF 2(1)] obtain js where "run (sys_step en ck) (manager t) js = (manager m', manager_did es2)" by blast
  with manager_step [OF 1] 2(2) show ?case
    by (intro exI [where x = "sys_inputs m i @ js"]) (simp add: run_append)
qed (auto intro: exI [where x = "[]"])

section \<open>What the watcher does with its check\<close>

fun on_check :: "ew_effect \<Rightarrow> bool" where
  "on_check (CheckStart _) = True"
| "on_check CheckKill = True"
| "on_check CheckJoin = True"
| "on_check _ = False"

abbreviation check_calls :: "ew_effect list \<Rightarrow> ew_effect list" where
  "check_calls es \<equiv> filter on_check es"

lemma run_supervise_calls: "run (supervise bo now ready) k es = run (supervise bo now ready) k (check_calls es)"
proof (induction es arbitrary: k)
  case (Cons e es)
  then show ?case by (cases e) (auto simp: supervise_def split: prod.splits)
qed simp

text \<open>It starts one check on entering phase 2, and kills or joins it on every way out of there.\<close>

inductive supervises :: "'b ew_env \<Rightarrow> ew_phase \<Rightarrow> ew_event \<Rightarrow> ew_phase \<Rightarrow> ew_effect list \<Rightarrow> bool" for en where
  starts: "server_check_new (parse_endpoint en) p = Ok uri \<Longrightarrow> supervises en Phase1 ev (Phase2 p) [CheckStart uri]"
| same: "supervises en ph ev ph []"
| never: "ph = EwReturned \<or> ph = EwPanicked m \<Longrightarrow> supervises en Phase1 ev ph []"
| kills: "supervises en (Phase2 p) (K8s x) EwReturned [CheckKill]"
| joins: "ph = Phase3 \<or> ph = EwReturned \<Longrightarrow> supervises en (Phase2 p) (HealthCheck r) ph [CheckJoin]"
| ends: "supervises en Phase3 ev EwReturned []"

lemma ew_supervises:
  assumes "ew_step en d i = (d', es)"
  shows "supervises en (ew_phase d) (ew_event i) (ew_phase d') (check_calls es)"
  using assms by (auto simp: machine_simps Let_def split: ew_splits intro: supervises.intros)

lemma watcher_acts_cases:
  assumes "watcher_acts en bo ck ready ev now m = (m', es)"
  obtains calls cs where
    "supervises en (ew_phase (watcher (manager m))) ev (ew_phase (watcher (manager m'))) calls"
    "run (supervise bo now ready) (health m) calls = (health m', cs)"
    "es = cs @ map ByManager (manager_did es)"
proof -
  from assms obtain s fs k cs where
    st: "sys_step en ck (manager m) (OnWatcher ev now) = (s, fs)"
    and k: "run (supervise bo now ready) (health m) (watcher_did fs) = (k, cs)"
    and m': "m' = \<lparr>manager = s, health = k\<rparr>" "es = cs @ map ByManager fs"
    by (auto simp: watcher_acts_def split: prod.splits)
  let ?i = "\<lparr>ew_event = ev, ew_now = now, gc_open = \<not> collector_gone (manager m),
             upstream_open = \<not> shim_gone (manager m)\<rparr>"
  from st have "ew_step en (watcher (manager m)) ?i = (watcher s, watcher_did fs)"
    by (auto simp: sys_step_def watcher_turn_def split: prod.splits)
  from ew_supervises [OF this]
  have "supervises en (ew_phase (watcher (manager m))) ev (ew_phase (watcher s)) (check_calls (watcher_did fs))"
    by simp
  moreover have "manager_did cs = []" by (rule supervise_run_quiet [OF k])
  ultimately show thesis using that k m' run_supervise_calls [of bo now ready "health m" "watcher_did fs"] by simp
qed

section \<open>The invariant\<close>

lemma check_step_endpoint: "endpoint (fst (check_step bo c i)) = endpoint c"
  by (auto simp: machine_simps split: check_wait.splits check_event.splits result.splits option.splits prod.splits)

lemma check_start_endpoint: "endpoint (fst (check_start bo uri now b)) = uri"
  by (auto simp: check_start_def machine_simps split: option.splits prod.splits)

text \<open>
  Before phase 2 there is no check; in phase 2 there is one, for the address of the running pod;
  afterwards it is over. What is in the one-shot channel is what the check has reported.
\<close>

definition supervised :: "'b ew_env \<Rightarrow> ('b, 'c) managed \<Rightarrow> managed_effect list \<Rightarrow> bool" where
  "supervised en m es \<longleftrightarrow>
     (case ew_phase (watcher (manager m)) of
        Phase1 \<Rightarrow> health m = \<lparr>checker = None, outcome_of = None\<rparr>
      | Phase2 p \<Rightarrow> \<exists>c. checker (health m) = Some c \<and> server_check_new (parse_endpoint en) p = Ok (endpoint c)
      | _ \<Rightarrow> \<forall>c. checker (health m) = Some c \<longrightarrow> check_halted (check_wait c))
     \<and> (\<forall>r. outcome_of (health m) = Some r \<longrightarrow> ByCheck (Report r) \<in> set es)"

lemma check_turned_checker: "check_turned k r = (k', cs) \<Longrightarrow> checker k' = Some (fst r)"
  by (auto simp: check_turned_def)

lemma check_turned_outcome:
  assumes "check_turned k r = (k', cs)" and "\<forall>v. outcome_of k = Some v \<longrightarrow> ByCheck (Report v) \<in> set es"
    and "outcome_of k' = Some v"
  shows "ByCheck (Report v) \<in> set (es @ cs)"
  using assms by (auto simp: check_turned_def split: list.splits check_effect.splits)

lemma supervise_outcome:
  assumes "run (supervise bo now ready) k es = (k', cs)"
    and "\<forall>v. outcome_of k = Some v \<longrightarrow> ByCheck (Report v) \<in> set fs"
  shows "\<forall>v. outcome_of k' = Some v \<longrightarrow> ByCheck (Report v) \<in> set (fs @ cs)"
  using assms
proof (induction es arbitrary: k fs cs)
  case (Cons e es)
  from Cons.prems(1) obtain k1 cs1 cs2 where
    1: "supervise bo now ready k e = (k1, cs1)" "run (supervise bo now ready) k1 es = (k', cs2)" "cs = cs1 @ cs2"
    by (auto split: prod.splits)
  from 1(1) have "k1 = k \<and> cs1 = [] \<or> (\<exists>r. check_turned k r = (k1, cs1))"
    by (auto simp: supervise_def simp del: split_paired_Ex split_paired_All split: ew_effect.splits option.splits)
  with check_turned_outcome Cons.prems(2) have "\<forall>v. outcome_of k1 = Some v \<longrightarrow> ByCheck (Report v) \<in> set (fs @ cs1)"
    by fastforce
  from Cons.IH [OF 1(2) this] 1(3) show ?case by simp
qed simp

lemma supervised_acts:
  assumes inv: "supervised en m es" and act: "watcher_acts en bo ck ready ev now m = (m', es')"
    and joined: "\<forall>r c. ev = HealthCheck r \<longrightarrow> checker (health m) = Some c \<longrightarrow> check_halted (check_wait c)"
  shows "supervised en m' (es @ es')"
proof -
  from watcher_acts_cases [OF act] obtain calls cs where
    sup: "supervises en (ew_phase (watcher (manager m))) ev (ew_phase (watcher (manager m'))) calls"
    and run: "run (supervise bo now ready) (health m) calls = (health m', cs)"
    and es': "es' = cs @ map ByManager (manager_did es')" by blast
  from supervise_outcome [OF run, of es] inv es'
  have out: "\<forall>r. outcome_of (health m') = Some r \<longrightarrow> ByCheck (Report r) \<in> set (es @ es')"
    by (metis Un_iff set_append supervised_def)
  from sup run inv joined show ?thesis unfolding supervised_def using out
    by cases (auto simp: supervise_def check_start_endpoint server_check_kill_halts
        split: ew_phase.splits option.splits prod.splits dest!: check_turned_checker)
qed

interpretation supervision: traced_daemon "managed_step en bo ck" "\<lambda>_. False" "supervised en"
  for en :: "'b ew_env" and bo :: "'c backoff_ops" and ck
proof unfold_locales
  fix m m' :: "('b, 'c) managed" and es es' inp
  assume inv: "supervised en m es" and st: "managed_step en bo ck m inp = (m', es')"
  show "supervised en m' (es @ es')"
  proof (cases inp)
    case (StreamItem x now ready)
    with inv st show ?thesis by (auto simp: managed_step_def intro!: supervised_acts)
  next
    case (Outcome now)
    with inv st show ?thesis
      by (auto simp: managed_step_def poll_outcome_def server_check_join_def intro!: supervised_acts
          split: ew_phase.splits option.splits if_splits)
  next
    case (OnCheck ev now)
    show ?thesis
    proof (cases "m' = m \<and> es' = []")
      case False
      with OnCheck st obtain c i where c: "checker (health m) = Some c"
        and t: "check_turned (health m) (check_step bo c i) = (health m', es')" "manager m' = manager m"
        by (auto simp: managed_step_def split: option.splits if_splits prod.splits)
      from check_turned_outcome [OF t(1), of es] inv
      have out: "\<forall>r. outcome_of (health m') = Some r \<longrightarrow> ByCheck (Report r) \<in> set (es @ es')"
        by (simp add: supervised_def)
      have "checker (health m') = Some (fst (check_step bo c i))"
        by (rule check_turned_checker [OF t(1)])
      moreover have "check_halted (check_wait c) \<Longrightarrow> check_step bo c i = (c, [])" by (rule check.halted_step)
      ultimately show ?thesis using inv c t(2) out
        by (auto simp: supervised_def check_step_endpoint split: ew_phase.splits)
    qed (use inv in auto)
  next
    case (OnOthers si)
    with st have "watcher (manager m') = watcher (manager m)" "health m' = health m"
      by (auto simp: managed_step_def sys_step_def turn_defs
          split: sys_input.splits gc_event.splits handle_input.splits prod.splits option.splits if_splits)
    with inv show ?thesis by (simp add: supervised_def split: ew_phase.splits)
  qed
qed simp

lemma new_managed_supervised: "supervised en (new_managed en name ttl now) []"
  by (simp add: supervised_def new_managed_def new_podmanager_def ew_start_def)

lemma run_supervised:
  assumes "run (managed_step en bo ck) (new_managed en name ttl now) is = (m, es)"
  shows "supervised en m es"
  using supervision.run_inv [OF new_managed_supervised assms] by simp

section \<open>Properties\<close>

text \<open>
  No health check outlives its watcher. Once the event watcher has returned or panicked, its
  health check, if it ever started one, has ended as well; no coroutine keeps polling a pod that
  nobody waits for.
\<close>

lemma managed_check_ends:
  assumes "run (managed_step en bo ck) (new_managed en name ttl now) is = (m, es)"
    and "watcher_gone (manager m)" and "checker (health m) = Some c"
  shows "check_halted (check_wait c)"
  using run_supervised [OF assms(1)] assms(2,3) by (auto simp: supervised_def split: ew_phase.splits)

text \<open>Where a success of the check can come from.\<close>

lemma check_start_fails: "Report (Ok ()) \<notin> set (snd (check_start bo uri now b))"
  by (auto simp: check_start_def machine_simps split: option.splits prod.splits)

lemma check_ok_connecting:
  assumes "Report (Ok ()) \<in> set (snd (check_step bo c i))"
  shows "check_event i = Connection (Ok ()) \<and> (\<exists>d. check_wait c = Connecting d)"
  using assms
  by (auto simp: machine_simps
      split: check_wait.splits check_event.splits result.splits option.splits prod.splits if_splits)

lemma managed_ok_report:
  assumes "ByCheck (Report (Ok ())) \<in> set (snd (managed_step en bo ck m inp))"
    and "managed_step en bo ck m inp = (m', es)" and "\<not> watcher_gone (manager m')"
  shows "\<exists>t c d. inp = OnCheck (Connection (Ok ())) t \<and> checker (health m) = Some c
    \<and> check_wait c = Connecting d \<and> watcher (manager m') = watcher (manager m)"
proof -
  have no: False if "watcher_acts en bo ck ready ev now m = (m', es)" for ready ev now
  proof -
    from watcher_acts_cases [OF that] obtain calls cs where
      sup: "supervises en (ew_phase (watcher (manager m))) ev (ew_phase (watcher (manager m'))) calls"
      and run: "run (supervise bo now ready) (health m) calls = (health m', cs)"
      and es: "es = cs @ map ByManager (manager_did es)" by blast
    from assms(1,2) have "ByCheck (Report (Ok ())) \<in> set es" by simp
    then have "ByCheck (Report (Ok ())) \<in> set cs" by (subst (asm) es) auto
    with sup run assms(3) check_start_fails [of bo] show False
      by cases (auto simp: supervise_def check_turned_def split: prod.splits)
  qed
  show ?thesis
  proof (cases inp)
    case (OnCheck ev t)
    with assms(1,2) show ?thesis
      by (fastforce simp: managed_step_def check_turned_def dest: check_ok_connecting
          split: option.splits if_splits prod.splits)
  qed (use assms no in \<open>auto simp: managed_step_def split: ew_phase.splits option.splits sys_input.splits prod.splits\<close>)
qed

lemma managed_wired:
  assumes "run (managed_step en bo ck) (new_managed en name ttl now) is = (m, es)"
  shows "wired name (manager m) (manager_did es)" and "fed (manager m) (manager_did es)"
proof -
  from manager_run [OF assms] obtain js where
    "run (sys_step en ck) (new_podmanager en name ttl now) js = (manager m, manager_did es)"
    by (auto simp: new_managed_def)
  then show "wired name (manager m) (manager_did es)" "fed (manager m) (manager_did es)"
    using run_wired feeding.run_inv [OF new_podmanager_fed] by fastforce+
qed

lemma managed_phase2_said:
  assumes "run (managed_step en bo ck) (new_managed en name ttl now) is = (m, es)"
    and "ew_phase (watcher (manager m)) = Phase2 p"
  shows "signalled (manager_did es) = [GcRunning p] \<and> running p"
  using managed_wired(1) [OF assms(1)] assms(2) said_ran by (fastforce simp: wired_def ew_protocol_def)

lemma managed_gone:
  assumes "run (managed_step en bo ck) m is = (m', es)" and "watcher_gone (manager m)"
  shows "watcher (manager m') = watcher (manager m)"
proof -
  from manager_run [OF assms(1)] watcher_run obtain ks where
    "run (ew_step en) (watcher (manager m)) ks = (watcher (manager m'), watcher_did (manager_did es))" by blast
  with ew.run_halted [OF assms(2)] show ?thesis by simp
qed

text \<open>Whence what the watcher says comes.\<close>

lemma managed_watcher_effect:
  assumes "ByManager (ByWatcher e) \<in> set (snd (managed_step en bo ck m inp))"
  obtains ev now i where "OnWatcher ev now \<in> set (sys_inputs m inp)" "ew_event i = ev"
    "e \<in> set (snd (ew_step en (watcher (manager m)) i))"
proof -
  obtain m' es where st: "managed_step en bo ck m inp = (m', es)" by fastforce
  with assms have "ByWatcher e \<in> set (manager_did es)" by (simp add: manager_did_in)
  from run_effect_split [OF manager_step [OF st] this] obtain xs si ys s fs where
    si: "sys_inputs m inp = xs @ si # ys" "run (sys_step en ck) (manager m) xs = (s, fs)"
      "ByWatcher e \<in> set (snd (sys_step en ck s si))"
    by blast
  have "length (sys_inputs m inp) \<le> 1"
    by (auto simp: sys_inputs_def split: managed_input.splits ew_phase.splits option.splits sys_input.splits)
  with si(1) have "xs = []" by simp
  with si have s: "s = manager m" by simp
  from si(3) obtain ev now where ev: "si = OnWatcher ev now"
    by (cases si) (auto simp: sys_step_def turn_defs
        split: gc_event.splits handle_input.splits prod.splits option.splits if_splits)
  let ?i = "\<lparr>ew_event = ev, ew_now = now, gc_open = \<not> collector_gone s, upstream_open = \<not> shim_gone s\<rparr>"
  from si(3) ev have "e \<in> set (snd (ew_step en (watcher s) ?i))"
    by (auto simp: sys_step_def watcher_turn_def split: prod.splits)
  with si(1) ev s show thesis by (intro that [of ev now ?i]) simp_all
qed

lemma managed_running_origin:
  assumes "ByManager (ByWatcher (SendGc (GcRunning p) b)) \<in> set (snd (managed_step en bo ck m inp))"
  shows "\<exists>now ready. inp = StreamItem (Ok (Some (Applied p))) now ready"
proof -
  from managed_watcher_effect [OF assms] ew_running_step obtain ev now where
    "OnWatcher ev now \<in> set (sys_inputs m inp)" "ev = K8s (Ok (Some (Applied p)))" by metis
  then show ?thesis
    by (auto simp: sys_inputs_def split: managed_input.splits ew_phase.splits option.splits sys_input.splits)
qed

lemma managed_ok_origin:
  assumes "ByManager (ByWatcher (SendResult (Ok p) b)) \<in> set (snd (managed_step en bo ck m inp))"
  shows "ew_phase (watcher (manager m)) = Phase2 p \<and> outcome_of (health m) = Some (Ok ())"
proof -
  from managed_watcher_effect [OF assms] ew_ok_step obtain ev now where
    "OnWatcher ev now \<in> set (sys_inputs m inp)" "ev = HealthCheck (Ok (Ok ()))" "ew_phase (watcher (manager m)) = Phase2 p"
    by metis
  then show ?thesis
    by (auto simp: sys_inputs_def poll_outcome_def server_check_join_def
        split: managed_input.splits ew_phase.splits option.splits sys_input.splits if_splits)
qed

text \<open>A success in the one-shot channel of a live watcher is an answer of its pod.\<close>

lemma managed_ok_outcome:
  assumes "run (managed_step en bo ck) (new_managed en name ttl now) is = (m, es)"
    and "ew_phase (watcher (manager m)) = Phase2 p" and "outcome_of (health m) = Some (Ok ())"
  shows "\<exists>us t vs u gs c d. is = us @ OnCheck (Connection (Ok ())) t # vs
    \<and> run (managed_step en bo ck) (new_managed en name ttl now) us = (u, gs)
    \<and> ew_phase (watcher (manager u)) = Phase2 p \<and> checker (health u) = Some c
    \<and> check_wait c = Connecting d \<and> server_check_new (parse_endpoint en) p = Ok (endpoint c)"
proof -
  let ?run = "run (managed_step en bo ck) (new_managed en name ttl now)"
  from run_supervised [OF assms(1)] assms(3) have "ByCheck (Report (Ok ())) \<in> set es" by (simp add: supervised_def)
  from run_effect_split [OF assms(1) this] obtain us inp vs u gs where
    us: "is = us @ inp # vs" "?run us = (u, gs)" "ByCheck (Report (Ok ())) \<in> set (snd (managed_step en bo ck u inp))"
    by blast
  obtain u' gs' where st: "managed_step en bo ck u inp = (u', gs')" by fastforce
  obtain hs where hs: "run (managed_step en bo ck) u' vs = (m, hs)" "es = gs @ gs' @ hs"
    using assms(1) us(1,2) st by (auto simp: run_append split: prod.splits)
  have "\<not> watcher_gone (manager u')" using managed_gone [OF hs(1)] assms(2) by auto
  from managed_ok_report [OF us(3) st this] obtain t c d where
    c: "inp = OnCheck (Connection (Ok ())) t" "checker (health u) = Some c" "check_wait c = Connecting d"
    by blast
  with run_supervised [OF us(2)] obtain q where
    q: "ew_phase (watcher (manager u)) = Phase2 q" "server_check_new (parse_endpoint en) q = Ok (endpoint c)"
    by (auto simp: supervised_def split: ew_phase.splits)
  from managed_phase2_said [OF us(2) q(1)] managed_phase2_said [OF assms(1,2)] hs(2) have "q = p" by simp
  with us c q show ?thesis by blast
qed

text \<open>
  What a client is promised. A call of \<open>wait\<close> returns a pod only if the API server reported
  that very pod as applied and it was running, and then, later, the health check at the address
  of that pod had its connection accepted; through the check, its channel, the watcher, the
  channel to the clients, the shim and the barrier, in any interleaving.
\<close>

lemma managed_wait_sound:
  assumes "run (managed_step en bo ck) (new_managed en name ttl now) is = (m, es)"
    and "ByManager (ByHandle (Returned (Ok p))) \<in> set es"
  shows "running p \<and> (\<exists>xs t1 ready ys t2 zs u gs c d.
      is = xs @ StreamItem (Ok (Some (Applied p))) t1 ready # ys @ OnCheck (Connection (Ok ())) t2 # zs
    \<and> run (managed_step en bo ck) (new_managed en name ttl now)
        (xs @ StreamItem (Ok (Some (Applied p))) t1 ready # ys) = (u, gs)
    \<and> checker (health u) = Some c \<and> check_wait c = Connecting d
    \<and> server_check_new (parse_endpoint en) p = Ok (endpoint c))"
proof -
  from managed_wired(2) [OF assms(1)] assms(2) have "Ok p \<in> verdict (manager_did es)"
    by (simp add: fed_def manager_did_in)
  then obtain b where "ByManager (ByWatcher (SendResult (Ok p) b)) \<in> set es"
    using client_result_sent did_in(1) manager_did_in by blast
  from run_effect_split [OF assms(1) this] managed_ok_origin obtain ws inp zs t fs where
    ws: "is = ws @ inp # zs" "run (managed_step en bo ck) (new_managed en name ttl now) ws = (t, fs)"
      "ew_phase (watcher (manager t)) = Phase2 p" "outcome_of (health t) = Some (Ok ())"
    by metis
  from managed_ok_outcome [OF ws(2-4)] obtain us t2 vs u gs c d where
    us: "ws = us @ OnCheck (Connection (Ok ())) t2 # vs"
      "run (managed_step en bo ck) (new_managed en name ttl now) us = (u, gs)"
      "ew_phase (watcher (manager u)) = Phase2 p" "checker (health u) = Some c"
      "check_wait c = Connecting d" "server_check_new (parse_endpoint en) p = Ok (endpoint c)"
    by blast
  from managed_phase2_said [OF us(2,3)] have "running p" "GcRunning p \<in> set (signalled (manager_did gs))" by simp_all
  then obtain b' where "ByManager (ByWatcher (SendGc (GcRunning p) b')) \<in> set gs"
    using gc_signal_in did_in(1) manager_did_in by blast
  from run_effect_split [OF us(2) this] managed_running_origin obtain xs t1 ready ys where
    "us = xs @ StreamItem (Ok (Some (Applied p))) t1 ready # ys" by metis
  with ws(1) us \<open>running p\<close> show ?thesis by fastforce
qed

text \<open>In phase 2 a check that is over has left its report.\<close>

definition has_reported :: "('b, 'c) managed \<Rightarrow> managed_effect list \<Rightarrow> bool" where
  "has_reported m es \<longleftrightarrow>
     (\<forall>p c. ew_phase (watcher (manager m)) = Phase2 p \<longrightarrow> checker (health m) = Some c
        \<longrightarrow> check_halted (check_wait c) \<longrightarrow> outcome_of (health m) \<noteq> None)"

lemma check_step_reports:
  assumes "check_step bo c i = (c', es)" and "output_open i" and "check_event i \<noteq> Sigint"
    and "check_halted (check_wait c')" and "\<not> check_halted (check_wait c)"
  shows "\<exists>r. es = [Report r]"
  using assms
  by (auto simp: machine_simps split: check_wait.splits check_event.splits result.splits option.splits prod.splits)

lemma check_start_granted:
  assumes "\<forall>t. fst (bo_next bo t (bo_new bo t)) \<noteq> None"
  shows "\<not> check_halted (check_wait (fst (check_start bo uri now b)))"
proof -
  obtain d b' where "bo_next bo now (bo_new bo now) = (Some d, b')"
    using assms by (cases "bo_next bo now (bo_new bo now)") (metis fst_conv not_None_eq)
  then show ?thesis by (simp add: check_start_def check_top_def)
qed

lemma has_reported_check:
  assumes "has_reported m es" and "managed_step en bo ck m (OnCheck ev now) = (m', es')"
  shows "has_reported m' (es @ es')"
proof (cases "m' = m \<and> es' = []")
  case False
  with assms(2) obtain c where c: "checker (health m) = Some c" "ev \<noteq> Sigint"
    and t: "check_turned (health m) (check_step bo c
        \<lparr>check_event = ev, check_now = now, output_open = \<not> watcher_gone (manager m)\<rparr>) = (health m', es')"
      "manager m' = manager m"
    by (auto simp: managed_step_def split: option.splits if_splits prod.splits)
  obtain c' rs where st: "check_step bo c
      \<lparr>check_event = ev, check_now = now, output_open = \<not> watcher_gone (manager m)\<rparr> = (c', rs)" by fastforce
  have "check_halted (check_wait c) \<Longrightarrow> c' = c \<and> rs = []" using check.halted_step st by fastforce
  moreover have "health m' = \<lparr>checker = Some c', outcome_of = (case rs of [] \<Rightarrow> outcome_of (health m) | Report v # _ \<Rightarrow> Some v)\<rparr>"
    using t(1) st by (simp add: check_turned_def)
  ultimately show ?thesis using assms(1) c t(2) check_step_reports [OF st]
    by (cases "check_halted (check_wait c)") (auto simp: has_reported_def)
qed (use assms(1) in auto)

lemma has_reported_acts:
  assumes "has_reported m es" and "watcher_acts en bo ck ready ev now m = (m', es')"
    and "\<forall>t. fst (bo_next bo t (bo_new bo t)) \<noteq> None"
  shows "has_reported m' (es @ es')"
proof -
  from watcher_acts_cases [OF assms(2)] obtain calls cs where
    "supervises en (ew_phase (watcher (manager m))) ev (ew_phase (watcher (manager m'))) calls"
    "run (supervise bo now ready) (health m) calls = (health m', cs)" by blast
  then show ?thesis using assms(1) check_start_granted [OF assms(3)]
    by cases (auto simp: has_reported_def supervise_def split: prod.splits dest!: check_turned_checker)
qed

text \<open>A backoff that grants its first pause makes the check report.\<close>

lemma reporting:
  assumes first_pause: "\<forall>t. fst (bo_next bo t (bo_new bo t)) \<noteq> None"
  shows "traced_daemon (managed_step en bo ck) (\<lambda>_. False) has_reported"
proof unfold_locales
  fix m m' es es' inp
  assume inv: "has_reported m es" and st: "managed_step en bo ck m inp = (m', es')"
  show "has_reported m' (es @ es')"
  proof (cases inp)
    case (StreamItem x now ready)
    with inv st first_pause show ?thesis by (auto simp: managed_step_def intro: has_reported_acts)
  next
    case (Outcome now)
    with inv st first_pause show ?thesis
      by (auto simp: managed_step_def intro: has_reported_acts split: ew_phase.splits option.splits)
  next
    case (OnCheck ev now)
    with inv st has_reported_check show ?thesis by blast
  next
    case (OnOthers si)
    with st have "watcher (manager m') = watcher (manager m)" "health m' = health m"
      by (auto simp: managed_step_def sys_step_def turn_defs
          split: sys_input.splits gc_event.splits handle_input.splits prod.splits option.splits if_splits)
    with inv show ?thesis by (simp add: has_reported_def)
  qed
qed

text \<open>
  C31: the health check never drops its channel: in phase 2 the watcher either still waits for it
  or has a report to take, so the error for a dropped channel cannot occur (given that the
  backoff grants its first pause).
\<close>

theorem managed_never_dropped:
  assumes "\<forall>t. fst (bo_next bo t (bo_new bo t)) \<noteq> None"
    and "run (managed_step en bo ck) (new_managed en name ttl now) is = (m, es)"
    and "ew_phase (watcher (manager m)) = Phase2 p"
  shows "poll_outcome (health m) \<noteq> Some (Err ())"
proof -
  have "has_reported (new_managed en name ttl now) []"
    by (simp add: has_reported_def new_managed_def new_podmanager_def ew_start_def)
  from traced_daemon.run_inv [OF reporting [OF assms(1)] this assms(2)] assms(3) show ?thesis
    by (auto simp: has_reported_def poll_outcome_def server_check_join_def split: option.splits if_splits)
qed

section \<open>A healthy pod\<close>

text \<open>A pod that runs and whose endpoint accepts the first connection: the verdict is on its way to the clients.\<close>

definition is_checked :: "pod \<Rightarrow> (check_event \<times> nat) list \<Rightarrow> nat \<Rightarrow> nat \<Rightarrow> nat \<Rightarrow> nat \<Rightarrow> managed_input list" where
  "is_checked p ready t1 t2 t3 t4 =
     [StreamItem (Ok (Some (Applied p))) t1 ready, OnCheck TimerFired t2, OnCheck (Connection (Ok ())) t3, Outcome t4]"

lemma is_checked_run:
  assumes "running p" and "server_check_new (parse_endpoint en) p = Ok uri"
    and "\<forall>t. fst (bo_next bo t (bo_new bo t)) \<noteq> None"
  shows "\<exists>w k. ew_phase w = Phase3 \<and> fst (run (managed_step en bo ck) (new_managed en name ttl now) (is_checked p ready t1 t2 t3 t4))
    = \<lparr>manager = (new_podmanager en name ttl now)\<lparr>watcher := w, gc_channel := [GcRunning p], result_channel := [Ok p]\<rparr>,
       health = k\<rparr>"
proof -
  obtain d b where "bo_next bo t1 (bo_new bo t1) = (Some d, b)"
    using assms(3) by (cases "bo_next bo t1 (bo_new bo t1)") (metis fst_conv not_None_eq)
  with assms(1,2) show ?thesis
    by (simp add: is_checked_def managed_step_def watcher_acts_def supervise_def check_turned_def poll_outcome_def
        server_check_join_def check_start_def sys_step_def turn_defs new_podmanager_def machine_simps ew_start_def
        new_managed_def handle_new_def gc_new_def)
qed

section \<open>Well-formed states\<close>

text \<open>Everything the parts promise to each other, at once.\<close>

definition managed_wf :: "string \<Rightarrow> 'b ew_env \<Rightarrow> ('b, 'c) managed \<Rightarrow> managed_effect list \<Rightarrow> bool" where
  "managed_wf name en m es \<longleftrightarrow>
     supervised en m es \<and> wired name (manager m) (manager_did es) \<and> fed (manager m) (manager_did es)"

lemma managed_wf_step:
  assumes "managed_wf name en m es" and "managed_step en bo ck m inp = (m', es')"
  shows "managed_wf name en m' (es @ es')"
  using assms supervision.inv_step_any [OF _ assms(2)] wiring.run_inv [OF _ manager_step [OF assms(2)]]
    feeding.run_inv [OF _ manager_step [OF assms(2)]]
  by (simp add: managed_wf_def)

lemma new_managed_wf: "managed_wf name en (new_managed en name ttl now) []"
  using new_managed_supervised [of en name ttl now] new_podmanager_wired [of name en ttl now]
    new_podmanager_fed [of en name ttl now]
  by (simp add: managed_wf_def new_managed_def)


section \<open>The life of a pod\<close>

text \<open>
  The abstract specification of a pod manager: a pod is pending, then checked, then ready, and at
  some time over; a step says what the clients get to hear.
\<close>

datatype life = Pending | Checked pod | Ready | Over

inductive life_step :: "life \<Rightarrow> pod acm_result list \<Rightarrow> life \<Rightarrow> bool" where
  stays: "life_step s [] s"
| comes_to_run: "running p \<Longrightarrow> life_step Pending [] (Checked p)"
| gets_ready: "life_step (Checked p) [Ok p] Ready"
| unclaimed: "life_step (Checked p) [Ok p] Over"
| fails: "s \<noteq> Over \<Longrightarrow> life_step s [Err e] Over"
| panics: "life_step Pending [] Over"
| is_deleted: "life_step Ready [] Over"

inductive life_run :: "life \<Rightarrow> pod acm_result list \<Rightarrow> life \<Rightarrow> bool" where
  here: "life_run s [] s"
| further: "life_run s rs t \<Longrightarrow> life_step t os u \<Longrightarrow> life_run s (rs @ os) u"

inductive_cases life_from_Over: "life_step Over os s"
inductive_cases life_from_Ready: "life_step Ready os s"
inductive_cases life_from_Checked: "life_step (Checked p) os s"
inductive_cases life_from_Pending: "life_step Pending os s"

text \<open>What the specification promises: one verdict, a pod that ran or an error; an error may follow a pod.\<close>

definition verdicts_of :: "life \<Rightarrow> pod acm_result list \<Rightarrow> bool" where
  "verdicts_of s rs \<longleftrightarrow>
     (case s of
        Pending \<Rightarrow> rs = []
      | Checked p \<Rightarrow> rs = [] \<and> running p
      | Ready \<Rightarrow> \<exists>p. running p \<and> rs = [Ok p]
      | Over \<Rightarrow> rs = [] \<or> (\<exists>e. rs = [Err e]) \<or> (\<exists>p. running p \<and> (rs = [Ok p] \<or> (\<exists>e. rs = [Ok p, Err e]))))"

lemma life_verdicts: "life_run Pending rs s \<Longrightarrow> verdicts_of s rs"
proof (induction Pending rs s rule: life_run.induct)
  case (further rs t os u)
  then show ?case
    by (cases t) (auto simp: verdicts_of_def
        elim!: life_from_Pending life_from_Checked life_from_Ready life_from_Over)
qed (simp add: verdicts_of_def)

fun life_of :: "ew_phase \<Rightarrow> life" where
  "life_of Phase1 = Pending"
| "life_of (Phase2 p) = Checked p"
| "life_of Phase3 = Ready"
| "life_of _ = Over"

lemma ew_life:
  assumes "ew_step en d i = (d', es)"
  shows "life_step (life_of (ew_phase d)) (client_results es) (life_of (ew_phase d'))"
  using assms by (auto simp: machine_simps Let_def split: ew_splits intro: life_step.intros)

lemma ew_life_run:
  assumes "run (ew_step en) d is = (d', es)"
  shows "life_run (life_of (ew_phase d)) (client_results es) (life_of (ew_phase d'))"
  using assms
proof (induction "is" arbitrary: d' es rule: rev_induct)
  case (snoc i "is")
  then obtain t fs fs' where
    1: "run (ew_step en) d is = (t, fs)" and 2: "ew_step en t i = (d', fs')" "es = fs @ fs'"
    by (auto simp: run_append split: prod.splits)
  from further [OF snoc.IH [OF 1] ew_life [OF 2(1)]] 2(2) show ?case by simp
qed (auto intro: here)

abbreviation told :: "managed_effect list \<Rightarrow> pod acm_result list" where
  "told es \<equiv> client_results (watcher_did (manager_did es))"


section \<open>Evaluation\<close>

abbreviation mp0 :: "(nat, nat) managed" where
  "mp0 \<equiv> new_managed quarter_hour ''conn-1'' DEFAULT_TTL 0"

abbreviation mp_step :: "(nat, nat) managed \<Rightarrow> managed_input \<Rightarrow> (nat, nat) managed \<times> managed_effect list" where
  "mp_step \<equiv> managed_step quarter_hour (half_second 30000) wide_clock"

definition comes_up :: "managed_input list" where
  "comes_up = [StreamItem (Ok (Some (Applied up_pod))) 900 [], OnCheck TimerFired 1400]"

definition mp1 :: "(nat, nat) managed" where
  "mp1 = fst (run mp_step mp0 comes_up)"

lemmas managed_eval = managed_step_def watcher_acts_def supervise_def check_turned_def poll_outcome_def
  server_check_join_def check_start_def sys_eval quarter_hour_def half_second_def ew_start_def
  server_check_new_def up_pod_address new_managed_def MAXIMUM_POLLING_TIME_def handle_new_def gc_new_def

lemma mp1_eval:
  "mp1 = \<lparr>manager = pm0\<lparr>watcher := \<lparr>pod_id = ''conn-1'', ew_backoff = 900, ew_phase = Phase2 up_pod\<rparr>,
             gc_channel := [GcRunning up_pod]\<rparr>,
     health = \<lparr>checker = Some \<lparr>endpoint = ''http://10-0-0-9.ocf.pod:8080'', check_backoff = 900, latest_error = None,
                check_wait = Connecting 30900\<rparr>, outcome_of = None\<rparr>\<rparr>"
  by (simp add: mp1_def comes_up_def managed_eval)

theorem managed_never_dropped_witness:
  "\<exists>m es. run mp_step mp0 comes_up = (m, es) \<and> poll_outcome (health m) \<noteq> Some (Err ())"
proof -
  obtain m es where r: "run mp_step mp0 comes_up = (m, es)" by fastforce
  then have "ew_phase (watcher (manager m)) = Phase2 up_pod" using mp1_eval by (simp add: mp1_def)
  from managed_never_dropped [OF _ r this] half_second_first r show ?thesis by blast
qed



end
