(* ===== verification/Acm.thy ===== *)
theory Acm
  imports Managed_Pod
begin

text \<open>
  The pod managers of the connector manager and their cache (podmanager/mod.rs). Managers are
  numbered as they are started: the number is the \<open>Arc\<close> that the cache and the requests share, so
  it stays valid when the cache forgets it. Everything interleaves: \<open>acm_step\<close> is one await-free
  stretch of any coroutine, or an access to the cache.
\<close>

section \<open>The cache of pod managers\<close>

text \<open>
  \<open>managers\<close> are all pod managers ever started, \<open>cached\<close> is \<open>POD_MANAGER_CACHE\<close>, \<open>cleaners\<close> are the
  cleanup coroutines that still wait to join theirs, with the key they will remove.
\<close>

record ('b, 'c) acm =
  managers :: "('b, 'c) managed list"
  cached :: "string \<Rightarrow> nat option"
  cleaners :: "(nat \<times> string) list"

definition acm_new :: "('b, 'c) acm" where
  "acm_new = \<lparr>managers = [], cached = (\<lambda>_. None), cleaners = []\<rparr>"

definition joined :: "('b, 'c) managed \<Rightarrow> bool" where
  "joined m \<longleftrightarrow> watcher_gone (manager m) \<and> collector_gone (manager m) \<and> shim_gone (manager m)"

definition pm_spawn :: "'b ew_env \<Rightarrow> string \<Rightarrow> 64 word \<Rightarrow> nat \<Rightarrow> ('b, 'c) acm \<Rightarrow> ('b, 'c) acm" where
  "pm_spawn en pod ttl now a =
     a\<lparr>managers := managers a @ [new_managed en pod ttl now],
       cleaners := (length (managers a), pod) # cleaners a\<rparr>"

definition pm_insert :: "string \<Rightarrow> nat \<Rightarrow> ('b, 'c) acm \<Rightarrow> ('b, 'c) acm" where
  "pm_insert pod arc a = a\<lparr>cached := (cached a)(pod \<mapsto> arc)\<rparr>"

definition pm_cleanup :: "nat \<Rightarrow> ('b, 'c) acm \<Rightarrow> ('b, 'c) acm" where
  "pm_cleanup arc a =
     (case map_of (cleaners a) arc of
        None \<Rightarrow> a
      | Some pod \<Rightarrow>
          if arc < length (managers a) \<and> joined (managers a ! arc)
          then a\<lparr>cached := (cached a)(pod := None), cleaners := filter (\<lambda>c. fst c \<noteq> arc) (cleaners a)\<rparr>
          else a)"

definition pm_get :: "('b, 'c) acm \<Rightarrow> string \<Rightarrow> nat acm_result" where
  "pm_get a ident = ok_or (E_PodManager (PodManagerNotFound ident)) (cached a ident)"

datatype acm_input =
    Spawn string "64 word" nat
  | Insert string nat
  | Cleanup nat
  | Turn nat managed_input

fun acm_step ::
  "'b ew_env \<Rightarrow> 'c backoff_ops \<Rightarrow> clock \<Rightarrow> ('b, 'c) acm \<Rightarrow> acm_input
   \<Rightarrow> ('b, 'c) acm \<times> (nat \<times> managed_effect) list" where
  "acm_step en bo ck a (Spawn pod ttl now) = (pm_spawn en pod ttl now a, [])"
| "acm_step en bo ck a (Insert pod arc) = (pm_insert pod arc a, [])"
| "acm_step en bo ck a (Cleanup arc) = (pm_cleanup arc a, [])"
| "acm_step en bo ck a (Turn arc i) =
     (if arc < length (managers a) then
        case managed_step en bo ck (managers a ! arc) i of
          (m, es) \<Rightarrow> (a\<lparr>managers := (managers a)[arc := m]\<rparr>, map (Pair arc) es)
      else (a, []))"

text \<open>\<open>PodManager::wait\<close> and \<open>PodManager::refresh\<close>, as calls on a running manager: what is polled, and the result.\<close>

fun returned :: "managed_effect list \<Rightarrow> pod acm_result option" where
  "returned (ByManager (ByHandle (Returned r)) # _) = Some r"
| "returned (_ # es) = returned es"
| "returned [] = None"

definition wait_polls :: "bool \<Rightarrow> managed_input list" where
  "wait_polls called = map (\<lambda>h. OnOthers (OnHandle h)) ((if called then [] else [WaitCalled]) @ [WaitResumes, WaitReceives])"

definition pm_wait ::
  "'b ew_env \<Rightarrow> 'c backoff_ops \<Rightarrow> clock \<Rightarrow> bool \<Rightarrow> nat \<Rightarrow> ('b, 'c) acm
   \<Rightarrow> ('b, 'c) acm \<times> (nat \<times> managed_effect) list \<times> pod acm_result option" where
  "pm_wait en bo ck called arc a =
     (case run (acm_step en bo ck) a (map (Turn arc) (wait_polls called)) of
        (a', es) \<Rightarrow> (a', es, returned (map snd es)))"

text \<open>
  \<open>None\<close>: the collector has not taken up the request yet. It takes up a request when it counts;
  when it is gone, or goes while it holds the request, the answer is an error.
\<close>

definition pm_refresh ::
  "'b ew_env \<Rightarrow> 'c backoff_ops \<Rightarrow> clock \<Rightarrow> gc_input \<Rightarrow> nat \<Rightarrow> ('b, 'c) acm
   \<Rightarrow> (('b, 'c) acm \<times> (nat \<times> managed_effect) list \<times> keep_alive_ticket acm_result) option" where
  "pm_refresh en bo ck i arc a =
     (if arc < length (managers a) \<and> gc_phase (collector (manager (managers a ! arc))) = GcWaiting then None
      else case acm_step en bo ck a (Turn arc (OnOthers (OnCollector (i\<lparr>gc_event := RefreshRequest (Some True)\<rparr>)))) of
             (a', es) \<Rightarrow> Some (a', es,
               ok_or (E_Gc RefreshChannelClosed) (answer (collector_did (manager_did (map snd es))))))"

text \<open>It is \<open>GarbageCollector::refresh\<close> on the collector of that manager, and touches nothing else.\<close>

lemma pm_refresh_collector:
  assumes "arc < length (managers a)"
  shows "pm_refresh en bo ck i arc a =
    (case gc_refresh ck (collector (manager (managers a ! arc))) i of
       None \<Rightarrow> None
     | Some (c, es, r) \<Rightarrow>
         Some (a\<lparr>managers := (managers a)[arc := (managers a ! arc)\<lparr>manager := (manager (managers a ! arc))\<lparr>collector := c\<rparr>\<rparr>]\<rparr>,
               map (\<lambda>e. (arc, ByManager (ByCollector e))) es, r))"
  using assms
  by (auto simp: pm_refresh_def gc_refresh_def managed_step_def sys_step_def collector_turn_def comp_def
      gc_step_def split: prod.splits gc_phase.splits)

section \<open>Properties of the cache\<close>

text \<open>A key in the cache that no cleanup coroutine will remove any more.\<close>

definition leaked :: "string \<Rightarrow> ('b, 'c) acm \<Rightarrow> bool" where
  "leaked pod a \<longleftrightarrow> cached a pod \<noteq> None \<and> pod \<notin> snd ` set (cleaners a)"

lemma leaked_step:
  assumes "leaked pod a" and "acm_step en bo ck a i = (a', es)" and "\<forall>ttl now. i \<noteq> Spawn pod ttl now"
  shows "leaked pod a'"
  using assms
  by (cases i) (auto simp: leaked_def pm_spawn_def pm_insert_def pm_cleanup_def rev_image_eqI
      split: option.splits prod.splits if_splits dest!: map_of_SomeD)

lemma leaked_run:
  assumes "leaked pod a" and "run (acm_step en bo ck) a is = (a', es)" and "\<forall>ttl now. Spawn pod ttl now \<notin> set is"
  shows "leaked pod a'"
  by (rule run_keeps [where P = "leaked pod", OF assms(2,1)]) (use assms(3) in \<open>auto intro: leaked_step\<close>)

section \<open>Managers do not disturb each other\<close>

text \<open>
  What happened to the manager of a given number: the pod, the lease and the time it was started
  with, and its inputs since. The first component counts the managers.
\<close>

type_synonym life_story = "string \<times> 64 word \<times> nat \<times> managed_input list"

fun history_step :: "nat \<Rightarrow> nat \<times> life_story option \<Rightarrow> acm_input \<Rightarrow> nat \<times> life_story option" where
  "history_step arc (n, h) (Spawn pod ttl now) = (Suc n, if n = arc then Some (pod, ttl, now, []) else h)"
| "history_step arc (n, h) (Turn j i) =
     (n, if j = arc then map_option (\<lambda>(pod, ttl, now, is). (pod, ttl, now, is @ [i])) h else h)"
| "history_step arc nh _ = nh"

definition history :: "nat \<Rightarrow> acm_input list \<Rightarrow> life_story option" where
  "history arc is = snd (foldl (history_step arc) (0, None) is)"

definition alone ::
  "'b ew_env \<Rightarrow> 'c backoff_ops \<Rightarrow> clock \<Rightarrow> life_story option \<Rightarrow> (('b, 'c) managed \<times> managed_effect list) option" where
  "alone en bo ck h =
     map_option (\<lambda>(pod, ttl, now, is). run (managed_step en bo ck) (new_managed en pod ttl now) is) h"

fun effect_of :: "nat \<Rightarrow> nat \<times> 'e \<Rightarrow> 'e option" where
  "effect_of arc (j, e) = (if j = arc then Some e else None)"

abbreviation effects_of :: "nat \<Rightarrow> (nat \<times> 'e) list \<Rightarrow> 'e list" where
  "effects_of arc es \<equiv> List.map_filter (effect_of arc) es"

lemma effects_of_own [simp]: "effects_of arc (map (Pair j) es) = (if j = arc then es else [])"
  by simp

lemma effects_of_in: "e \<in> set (effects_of arc es) \<longleftrightarrow> (arc, e) \<in> set es"
  by (force simp: map_filter_in elim: effect_of.elims split: if_splits)

definition part :: "nat \<Rightarrow> ('b, 'c) acm \<Rightarrow> (nat \<times> managed_effect) list \<Rightarrow> (('b, 'c) managed \<times> managed_effect list) option" where
  "part arc a es = (if arc < length (managers a) then Some (managers a ! arc, effects_of arc es) else None)"

lemma part_spawn:
  assumes "arc < length (managers a) \<or> (\<forall>e \<in> set es. fst e < length (managers a))"
  shows "part arc (pm_spawn en pod ttl now a) es =
    (if arc = length (managers a) then Some (new_managed en pod ttl now, []) else part arc a es)"
proof -
  have "effects_of (length (managers a)) es = []" if "\<forall>e \<in> set es. fst e < length (managers a)"
    using that by (induction es) (auto simp: List.map_filter_simps)
  with assms show ?thesis by (auto simp: part_def pm_spawn_def nth_append)
qed

definition parts_alone :: "'b ew_env \<Rightarrow> 'c backoff_ops \<Rightarrow> clock \<Rightarrow> acm_input list \<Rightarrow> ('b, 'c) acm \<Rightarrow> (nat \<times> managed_effect) list \<Rightarrow> bool" where
  "parts_alone en bo ck is a es \<longleftrightarrow>
     (\<forall>arc. foldl (history_step arc) (0, None) is = (length (managers a), history arc is)
        \<and> part arc a es = alone en bo ck (history arc is))
     \<and> (\<forall>e \<in> set es. fst e < length (managers a))"

lemma history_snoc:
  "foldl (history_step arc) (0, None) is = (n, history arc is) \<Longrightarrow>
     history arc (is @ [i]) = snd (history_step arc (n, history arc is) i)"
  by (simp add: history_def)

lemma part_alone_step:
  assumes "parts_alone en bo ck is a es" and "acm_step en bo ck a i = (a', es')"
  shows "parts_alone en bo ck (is @ [i]) a' (es @ es')"
proof -
  from assms(1) have h: "foldl (history_step arc) (0, None) is = (length (managers a), history arc is)"
    and p: "part arc a es = alone en bo ck (history arc is)" and e: "\<forall>e \<in> set es. fst e < length (managers a)" for arc
    by (auto simp: parts_alone_def)
  have "part arc a' (es @ es') = alone en bo ck (history arc (is @ [i]))" for arc
  proof (cases i)
    case (Spawn pod ttl now)
    with assms(2) e p [of arc] show ?thesis
      by (auto simp: history_snoc [OF h] part_spawn alone_def)
  next
    case (Insert pod j)
    with assms(2) p [of arc] show ?thesis
      by (auto simp: history_snoc [OF h] pm_insert_def part_def)
  next
    case (Cleanup j)
    with assms(2) p [of arc] show ?thesis
      by (auto simp: history_snoc [OF h] pm_cleanup_def part_def split: option.splits if_splits)
  next
    case (Turn j inp)
    with assms(2) p [of arc] show ?thesis
      by (cases "history arc is")
        (auto simp: history_snoc [OF h] part_def alone_def run_append split: prod.splits if_splits)
  qed
  moreover have "foldl (history_step arc) (0, None) (is @ [i]) = (length (managers a'), history arc (is @ [i]))" for arc
    using assms(2)
    by (cases i) (auto simp: h history_snoc [OF h] pm_spawn_def pm_insert_def pm_cleanup_def
        split: option.splits prod.splits if_splits)
  moreover have "\<forall>e \<in> set (es @ es'). fst e < length (managers a')"
    using assms(2) e
    by (cases i) (fastforce simp: pm_spawn_def pm_insert_def pm_cleanup_def
        split: option.splits prod.splits if_splits)+
  ultimately show ?thesis unfolding parts_alone_def by blast
qed

lemma acm_parts:
  assumes "run (acm_step en bo ck) acm_new is = (a, es)"
  shows "parts_alone en bo ck is a es"
  using assms
proof (induction "is" arbitrary: a es rule: rev_induct)
  case Nil
  then show ?case by (auto simp: acm_new_def parts_alone_def history_def part_def alone_def)
next
  case (snoc i "is")
  then obtain b fs gs where b: "run (acm_step en bo ck) acm_new is = (b, fs)" and "acm_step en bo ck b i = (a, gs)"
    and "es = fs @ gs"
    by (auto simp: run_append split: prod.splits)
  with part_alone_step [OF snoc.IH [OF b]] show ?case by simp
qed


section \<open>Evaluation\<close>


end
