(* ===== verification/K8s.thy ===== *)
theory K8s
  imports Pod
begin

text \<open>
  Model of library/k8s/src/lib.rs: deploying a pod with the labels that say which ACM serves it,
  and deleting one. The calls on the Kubernetes API server are a record of functions; what they
  answer is up to the cluster. Building the client (theory \<open>Client\<close>) either succeeds
  or panics for good and is not a step of the model.
\<close>

record delete_params =
  dry_run :: bool
  grace_period_seconds :: "nat option"

record kube_status =
  status_text :: string
  status_message :: string
  status_reason :: string
  kube_code :: nat

record kube_api =
  get_pod :: "string \<Rightarrow> (pod, kube_error) result"
  create_pod :: "pod \<Rightarrow> (pod, kube_error) result"
  delete_pod :: "string \<Rightarrow> delete_params \<Rightarrow> (pod + kube_status, kube_error) result"

abbreviation api_err :: "kube_error \<Rightarrow> acm_error" where
  "api_err e \<equiv> E_Api (api_error_from e)"

definition trim_start :: "string \<Rightarrow> string" where
  "trim_start s = concat (dropWhile is_whitespace (chars s))"

definition trim :: "string \<Rightarrow> string" where
  "trim s = trim_start (trim_end s)"

text \<open>\<open>servicer\<close>: the pod this ACM runs in, by the contents of \<open>/etc/hostname\<close>.\<close>

definition servicer :: "kube_api \<Rightarrow> string option \<Rightarrow> pod acm_result outcome" where
  "servicer api hostname =
     outcome_bind (unwrap ''could not read /etc/hostname! This is extremely fatal!'' hostname) (\<lambda>h.
       Done (map_err api_err (get_pod api (trim h))))"

definition servicer_labels :: "pod \<Rightarrow> 64 word \<Rightarrow> (string \<times> string) list acm_result outcome" where
  "servicer_labels myself ttl =
     outcome_bind (resource_name myself) (\<lambda>name.
       Done (and_then (dns myself) (\<lambda>d.
             and_then (port myself) (\<lambda>n.
               Ok [(''servicer'', name), (''servicer_dns'', d), (''servicer_port'', show_int n),
                   (''ttl'', show_nat (unat ttl))]))))"

definition k8s_deploy ::
  "naming \<Rightarrow> (json \<Rightarrow> (pod, string) result) \<Rightarrow> kube_api \<Rightarrow> string option \<Rightarrow> string \<Rightarrow> string \<Rightarrow> 64 word
   \<Rightarrow> pod acm_result outcome" where
  "k8s_deploy nm from_value api hostname reference name ttl =
     outcome_bind (pod_new nm from_value reference name) (\<lambda>r. case r of
       Err e \<Rightarrow> Done (Err e)
     | Ok pod \<Rightarrow> outcome_bind (servicer api hostname) (\<lambda>r. case r of
         Err e \<Rightarrow> Done (Err e)
       | Ok myself \<Rightarrow> outcome_bind (servicer_labels myself ttl) (\<lambda>r. case r of
           Err e \<Rightarrow> Done (Err e)
         | Ok ls \<Rightarrow> Done (map_err api_err
             (create_pod api (pod\<lparr>metadata := (metadata pod)\<lparr>labels := Some ls\<rparr>\<rparr>))))))"

definition k8s_delete :: "kube_api \<Rightarrow> string \<Rightarrow> (pod + kube_status) acm_result" where
  "k8s_delete api ident =
     map_err api_err
       (case delete_pod api ident \<lparr>dry_run = False, grace_period_seconds = Some 60\<rparr> of
          Ok x \<Rightarrow> Ok x
        | Err err \<Rightarrow>
            (case err of
               Kube_Api r \<Rightarrow>
                 if resp_code r = 404
                 then Ok (Inr \<lparr>status_text = [], status_message = [], status_reason = [],
                               kube_code = 0\<rparr>)
                 else Err err
             | _ \<Rightarrow> Err err))"

text \<open>
  Deleting a pod that is already gone succeeds, so the call may be repeated; it fails exactly
  when the API server reports anything but 404, with that failure as the cause.
\<close>

lemma k8s_delete_Err_iff:
  "k8s_delete api ident = Err e \<longleftrightarrow>
     (\<exists>err. delete_pod api ident \<lparr>dry_run = False, grace_period_seconds = Some 60\<rparr> = Err err
        \<and> (\<forall>r. err = Kube_Api r \<longrightarrow> resp_code r \<noteq> 404)
        \<and> e = E_Api (api_error_from err))"
  by (auto simp: k8s_delete_def split: result.splits kube_error.splits)

text \<open>
  C25: a deployment submits exactly the manifest of \<open>pod_new\<close> with four labels: the name, DNS
  entry and port of the ACM that deploys it, and the TTL in decimal, from which the TTL can be read
  back. It fails with the API server's error when the submission is refused.
\<close>

theorem k8s_deploy_submits:
  assumes "pod_new nm from_value reference name = Done (Ok p)"
    and "hostname = Some h" and "get_pod api (trim h) = Ok myself"
    and "meta_name (metadata myself) = Some n" and "dns myself = Ok d" and "port myself = Ok k"
  shows "\<exists>ls. k8s_deploy nm from_value api hostname reference name ttl
       = Done (map_err api_err (create_pod api (p\<lparr>metadata := (metadata p)\<lparr>labels := Some ls\<rparr>\<rparr>)))
     \<and> map_of ls = [''servicer'' \<mapsto> n, ''servicer_dns'' \<mapsto> d, ''servicer_port'' \<mapsto> show_int k,
                    ''ttl'' \<mapsto> show_nat (unat ttl)]
     \<and> read_nat (the (map_of ls ''ttl'')) = unat ttl"
proof -
  let ?ls = "[(''servicer'', n), (''servicer_dns'', d), (''servicer_port'', show_int k),
              (''ttl'', show_nat (unat ttl))]"
  have "k8s_deploy nm from_value api hostname reference name ttl
      = Done (map_err api_err (create_pod api (p\<lparr>metadata := (metadata p)\<lparr>labels := Some ?ls\<rparr>\<rparr>)))"
    using assms by (simp add: k8s_deploy_def servicer_def servicer_labels_def resource_name_def)
  moreover have "map_of ?ls = [''servicer'' \<mapsto> n, ''servicer_dns'' \<mapsto> d,
      ''servicer_port'' \<mapsto> show_int k, ''ttl'' \<mapsto> show_nat (unat ttl)]"
    by (auto simp: fun_eq_iff)
  moreover have "read_nat (the (map_of ?ls ''ttl'')) = unat ttl"
    by (simp add: read_show_nat)
  ultimately show ?thesis by blast
qed

theorem k8s_deploy_submits_witness:
  "\<exists>p ls. k8s_deploy \<lparr>unicode_alnum = (\<lambda>_. False), kebab = word_kebab,
        fresh_uuid = ''0b15278c2f95272de1abc8295775292f''\<rparr> (\<lambda>j. Ok (decode_pod j))
      \<lparr>get_pod = (\<lambda>_. Ok ((decode_pod (pod_json ''acm-0'' ''acm:1''))
                    \<lparr>pod_status_of := Some \<lparr>pod_ip = Some ''10.0.0.7'', container_statuses = None\<rparr>\<rparr>)),
       create_pod = (\<lambda>p. Ok p), delete_pod = (\<lambda>_ _. Err (Kube_Other []))\<rparr>
      (Some ''acm-0'') ''registry.kurl/ocf:t'' ''Oracle v1'' 1800 = Done (Ok p)
     \<and> labels (metadata p) = Some ls \<and> map_of ls ''servicer'' = Some ''acm-0''
     \<and> read_nat (the (map_of ls ''ttl'')) = 1800"
proof -
  let ?nm = "\<lparr>unicode_alnum = (\<lambda>_. False), kebab = word_kebab,
              fresh_uuid = ''0b15278c2f95272de1abc8295775292f''\<rparr>"
  let ?me = "(decode_pod (pod_json ''acm-0'' ''acm:1''))
              \<lparr>pod_status_of := Some \<lparr>pod_ip = Some ''10.0.0.7'', container_statuses = None\<rparr>\<rparr>"
  let ?api = "\<lparr>get_pod = (\<lambda>_. Ok ?me), create_pod = (\<lambda>p. Ok p),
               delete_pod = (\<lambda>_ _. Err (Kube_Other []))\<rparr>"
  obtain n where n: "rfc1123_subdomain (\<lambda>_. False) word_kebab
      ''0b15278c2f95272de1abc8295775292f'' ''Oracle v1'' = Done n"
    using subdomain_valid [OF word_kebab_law, of "''0b15278c2f95272de1abc8295775292f''" "''Oracle v1''"]
    by (fastforce simp: simple_uuid_def char_class_defs)
  then have "pod_new ?nm (\<lambda>j. Ok (decode_pod j)) ''registry.kurl/ocf:t'' ''Oracle v1''
      = Done (Ok (decode_pod (pod_json n ''registry.kurl/ocf:t'')))"
    by (simp add: pod_new_def)
  moreover have "get_pod ?api (trim ''acm-0'') = Ok ?me" by simp
  moreover have "meta_name (metadata ?me) = Some ''acm-0''" by (simp add: decode_pod_json)
  moreover have "dns ?me = Ok ''10-0-0-7.ocf.pod''"
    by (simp add: dns_def decode_pod_json replace_char_def)
  moreover have "port ?me = Ok 8080" by (simp add: port_def first_def decode_pod_json)
  ultimately show ?thesis
    using k8s_deploy_submits [of ?nm "\<lambda>j. Ok (decode_pod j)" "''registry.kurl/ocf:t''" "''Oracle v1''"
        _ "Some ''acm-0''" "''acm-0''" ?api ?me "''acm-0''" "''10-0-0-7.ocf.pod''" 8080 1800]
    by fastforce
qed

end
