(* ===== verification/Requests.thy ===== *)
theory Requests
  imports Acm K8s
begin

text \<open>
  The endpoints of acm main.rs as the requests they serve: each request is a task that runs beside
  the coroutines of the pod managers and the other requests. \<open>wait\<close> and \<open>refresh\<close> hold the mutex of
  a pod manager from the moment they get it until they answer; the mutex is fair, as tokio's is
  documented to be: its queue holds the tasks in the order in which they asked for it, the first
  of them has it.
\<close>

section \<open>Requests and tasks\<close>

datatype acm_request =
    Post_Deploy string string "64 word option"
  | Get_Wait string
  | Post_Refresh string
  | Delete_Delete string

record pod_ticket =
  ticket_pod :: pod
  pod_ticket_ticket :: keep_alive_ticket

datatype acm_answer =
    Deployed "pod acm_result"
  | Waited "pod_ticket acm_result"
  | Refreshed "keep_alive_ticket acm_result"
  | Undeployed "unit acm_result"

text \<open>A task at one of its await points, or at its end; a number is the \<open>Arc\<close> of a pod manager.\<close>

datatype task =
    Inserting pod string nat
  | WaitLocking nat
  | Waiting nat
  | WaitRefreshing nat pod
  | RefreshLocking nat
  | Refreshing nat
  | Answered acm_answer
  | Died string

record ('b, 'c) server =
  acm_of :: "('b, 'c) acm"
  tasks :: "(acm_request \<times> task) list"
  lock_queue :: "nat \<Rightarrow> nat list"

datatype server_effect = Did "nat \<times> managed_effect" | Queued nat nat | Unlocked nat nat

definition server_new :: "('b, 'c) server" where
  "server_new = \<lparr>acm_of = acm_new, tasks = [], lock_queue = (\<lambda>_. [])\<rparr>"

definition start :: "acm_request \<Rightarrow> task \<Rightarrow> ('b, 'c) server \<Rightarrow> ('b, 'c) server" where
  "start req k s = s\<lparr>tasks := tasks s @ [(req, k)]\<rparr>"

definition become :: "nat \<Rightarrow> task \<Rightarrow> ('b, 'c) server \<Rightarrow> ('b, 'c) server" where
  "become t k s = s\<lparr>tasks := (tasks s)[t := (fst (tasks s ! t), k)]\<rparr>"

text \<open>\<open>lock().await\<close> and the end of the guard.\<close>

definition ask_lock :: "nat \<Rightarrow> nat \<Rightarrow> ('b, 'c) server \<Rightarrow> ('b, 'c) server" where
  "ask_lock arc t s = s\<lparr>lock_queue := (lock_queue s)(arc := lock_queue s arc @ [t])\<rparr>"

definition holds_lock :: "('b, 'c) server \<Rightarrow> nat \<Rightarrow> nat \<Rightarrow> bool" where
  "holds_lock s arc t \<longleftrightarrow> (case lock_queue s arc of [] \<Rightarrow> False | t' # _ \<Rightarrow> t' = t)"

definition unlock :: "nat \<Rightarrow> ('b, 'c) server \<Rightarrow> ('b, 'c) server" where
  "unlock arc s = s\<lparr>lock_queue := (lock_queue s)(arc := tl (lock_queue s arc))\<rparr>"

definition finish :: "nat \<Rightarrow> nat \<Rightarrow> acm_answer \<Rightarrow> ('b, 'c) server \<Rightarrow> ('b, 'c) server" where
  "finish arc t ans s = unlock arc (become t (Answered ans) s)"

section \<open>The endpoints\<close>

record acm_env =
  registry_var :: "string option"
  repository_var :: "string option"
  hostname :: "string option"

definition image_reference :: "acm_env \<Rightarrow> string \<Rightarrow> string" where
  "image_reference e tag =
     (case registry_var e of None \<Rightarrow> ''registry.kurl'' | Some r \<Rightarrow> r) @ ''/''
     @ (case repository_var e of None \<Rightarrow> ''ocf'' | Some r \<Rightarrow> r) @ '':'' @ tag"

text \<open>What a request finds around it: the names drawn, serde, the API server, the environment, the time.\<close>

record cluster =
  ctx_names :: naming
  ctx_decode :: "json \<Rightarrow> (pod, string) result"
  ctx_api :: kube_api
  ctx_vars :: acm_env
  ctx_now :: nat

text \<open>
  \<open>deploy\<close>: the pod is created, its manager started, and then, after the lock of the cache,
  inserted (\<open>Inserting\<close>).
\<close>

definition acm_deploy ::
  "'b ew_env \<Rightarrow> cluster \<Rightarrow> string \<Rightarrow> string \<Rightarrow> 64 word option \<Rightarrow> ('b, 'c) acm \<Rightarrow> ('b, 'c) acm \<times> task" where
  "acm_deploy en x tag name ttl a =
     (let ttl = (case ttl of None \<Rightarrow> DEFAULT_TTL | Some t \<Rightarrow> t) in
      case k8s_deploy (ctx_names x) (ctx_decode x) (ctx_api x) (hostname (ctx_vars x))
             (image_reference (ctx_vars x) tag) name ttl of
        Panic m \<Rightarrow> (a, Died m)
      | Done (Err err) \<Rightarrow> (a, Answered (Deployed (Err err)))
      | Done (Ok pod) \<Rightarrow>
          (case resource_name pod of
             Panic m \<Rightarrow> (a, Died m)
           | Done n \<Rightarrow> (pm_spawn en n ttl (ctx_now x) a, Inserting pod n (length (managers a)))))"

text \<open>\<open>wait\<close> and \<open>refresh\<close> find their manager and ask for its lock.\<close>

definition acm_wait :: "string \<Rightarrow> ('b, 'c) server \<Rightarrow> ('b, 'c) server \<times> server_effect list" where
  "acm_wait ident s =
     (case pm_get (acm_of s) ident of
        Err err \<Rightarrow> (start (Get_Wait ident) (Answered (Waited (Err err))) s, [])
      | Ok arc \<Rightarrow> (ask_lock arc (length (tasks s)) (start (Get_Wait ident) (WaitLocking arc) s),
                  [Queued arc (length (tasks s))]))"

definition acm_refresh :: "string \<Rightarrow> ('b, 'c) server \<Rightarrow> ('b, 'c) server \<times> server_effect list" where
  "acm_refresh ident s =
     (case pm_get (acm_of s) ident of
        Err err \<Rightarrow> (start (Post_Refresh ident) (Answered (Refreshed (Err err))) s, [])
      | Ok arc \<Rightarrow> (ask_lock arc (length (tasks s)) (start (Post_Refresh ident) (RefreshLocking arc) s),
                  [Queued arc (length (tasks s))]))"

definition acm_delete :: "kube_api \<Rightarrow> string \<Rightarrow> unit acm_result outcome" where
  "acm_delete api ident =
     (case k8s_delete api ident of
        Err err \<Rightarrow> Done (Err err)
      | Ok (Inl pod) \<Rightarrow> outcome_bind (resource_name pod) (\<lambda>_. Done (Ok ()))
      | Ok (Inr _) \<Rightarrow> Done (Ok ()))"

fun accept ::
  "'b ew_env \<Rightarrow> cluster \<Rightarrow> acm_request \<Rightarrow> ('b, 'c) server \<Rightarrow> ('b, 'c) server \<times> server_effect list" where
  "accept en x (Post_Deploy t name ttl) s =
     (case acm_deploy en x t name ttl (acm_of s) of
        (a, k) \<Rightarrow> (start (Post_Deploy t name ttl) k (s\<lparr>acm_of := a\<rparr>), []))"
| "accept en x (Get_Wait ident) s = acm_wait ident s"
| "accept en x (Post_Refresh ident) s = acm_refresh ident s"
| "accept en x (Delete_Delete ident) s =
     (start (Delete_Delete ident)
        (case acm_delete (ctx_api x) ident of Done r \<Rightarrow> Answered (Undeployed r) | Panic m \<Rightarrow> Died m) s, [])"

text \<open>The holder of the lock polls \<open>manager.wait()\<close>, then \<open>manager.refresh()\<close>.\<close>

definition wait_polled ::
  "'b ew_env \<Rightarrow> 'c backoff_ops \<Rightarrow> clock \<Rightarrow> bool \<Rightarrow> nat \<Rightarrow> nat \<Rightarrow> ('b, 'c) server
   \<Rightarrow> ('b, 'c) server \<times> server_effect list" where
  "wait_polled en bo ck called t arc s =
     (case pm_wait en bo ck called arc (acm_of s) of
        (a, es, r) \<Rightarrow>
          (case r of
             None \<Rightarrow> (become t (Waiting arc) (s\<lparr>acm_of := a\<rparr>), map Did es)
           | Some (Ok pod) \<Rightarrow> (become t (WaitRefreshing arc pod) (s\<lparr>acm_of := a\<rparr>), map Did es)
           | Some (Err err) \<Rightarrow>
               (finish arc t (Waited (Err err)) (s\<lparr>acm_of := a\<rparr>), map Did es @ [Unlocked arc t])))"

definition refresh_polled ::
  "'b ew_env \<Rightarrow> 'c backoff_ops \<Rightarrow> clock \<Rightarrow> gc_input \<Rightarrow> nat \<Rightarrow> nat
   \<Rightarrow> (keep_alive_ticket acm_result \<Rightarrow> acm_answer) \<Rightarrow> ('b, 'c) server \<Rightarrow> ('b, 'c) server \<times> server_effect list" where
  "refresh_polled en bo ck i t arc ans s =
     (case pm_refresh en bo ck i arc (acm_of s) of
        None \<Rightarrow> (s, [])
      | Some (a, es, r) \<Rightarrow> (finish arc t (ans r) (s\<lparr>acm_of := a\<rparr>), map Did es @ [Unlocked arc t]))"

definition pod_ticketed :: "pod \<Rightarrow> keep_alive_ticket acm_result \<Rightarrow> acm_answer" where
  "pod_ticketed pod r = Waited (and_then r (\<lambda>tk. Ok \<lparr>ticket_pod = pod, pod_ticket_ticket = tk\<rparr>))"

definition resume ::
  "'b ew_env \<Rightarrow> 'c backoff_ops \<Rightarrow> clock \<Rightarrow> gc_input \<Rightarrow> nat \<Rightarrow> ('b, 'c) server
   \<Rightarrow> ('b, 'c) server \<times> server_effect list" where
  "resume en bo ck i t s =
     (if t < length (tasks s) then
        case snd (tasks s ! t) of
          Inserting pod n arc \<Rightarrow>
            (become t (Answered (Deployed (Ok pod))) (s\<lparr>acm_of := pm_insert n arc (acm_of s)\<rparr>), [])
        | WaitLocking arc \<Rightarrow> if holds_lock s arc t then wait_polled en bo ck False t arc s else (s, [])
        | Waiting arc \<Rightarrow> wait_polled en bo ck True t arc s
        | WaitRefreshing arc pod \<Rightarrow> refresh_polled en bo ck i t arc (pod_ticketed pod) s
        | RefreshLocking arc \<Rightarrow> if holds_lock s arc t then (become t (Refreshing arc) s, []) else (s, [])
        | Refreshing arc \<Rightarrow> refresh_polled en bo ck i t arc Refreshed s
        | _ \<Rightarrow> (s, [])
      else (s, []))"

section \<open>The service\<close>

text \<open>The inputs of a pod manager that come from requests, not from its own coroutines.\<close>

fun by_request :: "managed_input \<Rightarrow> bool" where
  "by_request (OnOthers (OnHandle i)) \<longleftrightarrow> i = WaitCalled \<or> i = WaitResumes \<or> i = WaitReceives"
| "by_request (OnOthers (OnCollector i)) \<longleftrightarrow> (case gc_event i of RefreshRequest _ \<Rightarrow> True | _ \<Rightarrow> False)"
| "by_request _ \<longleftrightarrow> False"

datatype server_input =
    Request acm_request cluster
  | Resume nat gc_input
  | Daemon nat managed_input
  | Cleaner nat

definition server_step ::
  "'b ew_env \<Rightarrow> 'c backoff_ops \<Rightarrow> clock \<Rightarrow> ('b, 'c) server \<Rightarrow> server_input
   \<Rightarrow> ('b, 'c) server \<times> server_effect list" where
  "server_step en bo ck s inp =
     (case inp of
        Request req x \<Rightarrow> accept en x req s
      | Resume t i \<Rightarrow> resume en bo ck i t s
      | Daemon arc i \<Rightarrow>
          if by_request i then (s, [])
          else (case acm_step en bo ck (acm_of s) (Turn arc i) of (a, es) \<Rightarrow> (s\<lparr>acm_of := a\<rparr>, map Did es))
      | Cleaner arc \<Rightarrow> (s\<lparr>acm_of := pm_cleanup arc (acm_of s)\<rparr>, []))"

lemmas server_defs = start_def become_def ask_lock_def unlock_def finish_def

lemma server_fields [simp]:
  "acm_of (start req k s) = acm_of s" "acm_of (become t k s) = acm_of s" "acm_of (finish arc t ans s) = acm_of s"
  "acm_of (ask_lock arc t s) = acm_of s"
  "lock_queue (start req k s) = lock_queue s" "lock_queue (become t k s) = lock_queue s"
  "tasks (ask_lock arc t s) = tasks s" "lock_queue (ask_lock arc t s) = (lock_queue s)(arc := lock_queue s arc @ [t])"
  by (simp_all add: server_defs)

section \<open>Projections\<close>

fun did :: "server_effect \<Rightarrow> (nat \<times> managed_effect) option" where
  "did (Did e) = Some e"
| "did _ = None"

abbreviation acm_did :: "server_effect list \<Rightarrow> (nat \<times> managed_effect) list" where
  "acm_did es \<equiv> List.map_filter did es"

fun own_turn :: "nat \<Rightarrow> acm_input \<Rightarrow> managed_input option" where
  "own_turn arc (Turn j i) = (if j = arc \<and> \<not> by_request i then Some i else None)"
| "own_turn arc _ = None"

fun daemon_turn :: "nat \<Rightarrow> server_input \<Rightarrow> managed_input option" where
  "daemon_turn arc (Daemon j i) = (if j = arc \<and> \<not> by_request i then Some i else None)"
| "daemon_turn arc _ = None"

abbreviation daemon_turns :: "nat \<Rightarrow> server_input list \<Rightarrow> managed_input list" where
  "daemon_turns arc is \<equiv> List.map_filter (daemon_turn arc) is"

text \<open>The moments at which the collectors read the clock in a stretch of inputs.\<close>

fun managed_readings :: "managed_input \<Rightarrow> nat set" where
  "managed_readings (OnOthers (OnCollector j)) = {instant_now j}"
| "managed_readings _ = {}"

fun turn_readings :: "acm_input \<Rightarrow> nat set" where
  "turn_readings (Turn _ i) = managed_readings i"
| "turn_readings _ = {}"

fun readings :: "server_input \<Rightarrow> nat set" where
  "readings (Resume _ j) = {instant_now j}"
| "readings (Daemon _ i) = managed_readings i"
| "readings _ = {}"

text \<open>
  A step of the service is a run of the pod managers in which only \<open>Daemon\<close> is not a request's doing
  and the collectors read the clock when the service does.
\<close>

definition traces :: "'b ew_env \<Rightarrow> 'c backoff_ops \<Rightarrow> clock \<Rightarrow> ('b, 'c) acm \<Rightarrow> server_input list
   \<Rightarrow> ('b, 'c) acm \<Rightarrow> (nat \<times> managed_effect) list \<Rightarrow> acm_input list \<Rightarrow> bool" where
  "traces en bo ck a is a' es js \<longleftrightarrow> run (acm_step en bo ck) a js = (a', es)
     \<and> (\<forall>arc. List.map_filter (own_turn arc) js = daemon_turns arc is)
     \<and> (\<Union>j \<in> set js. turn_readings j) \<subseteq> (\<Union>i \<in> set is. readings i)"

lemma traces_none: "traces en bo ck a [Resume t i] a [] []"
  by (simp add: traces_def)

lemma wait_polls_by_request: "i \<in> set (wait_polls called) \<Longrightarrow> by_request i"
  by (auto simp: wait_polls_def split: if_splits)

lemma wait_polls_readings: "i \<in> set (wait_polls called) \<Longrightarrow> turn_readings (Turn arc i) = {}"
  by (auto simp: wait_polls_def split: if_splits)

lemma own_turn_request: "\<forall>i \<in> set is. by_request i \<Longrightarrow> List.map_filter (own_turn arc) (map (Turn j) is) = []"
  by (induction "is") auto

lemma pm_wait_traces:
  assumes "pm_wait en bo ck called arc a = (a', es, r)"
  shows "\<exists>js. traces en bo ck a [Resume t i] a' es js"
  using assms wait_polls_by_request wait_polls_readings own_turn_request
  by (intro exI [where x = "map (Turn arc) (wait_polls called)"])
    (auto simp: pm_wait_def traces_def simp del: acm_step.simps split: prod.splits)

lemma pm_refresh_traces:
  assumes "pm_refresh en bo ck i arc a = Some (a', es, r)"
  shows "\<exists>js. traces en bo ck a [Resume t i] a' es js"
  using assms
  by (intro exI [where x = "[Turn arc (OnOthers (OnCollector (i\<lparr>gc_event := RefreshRequest (Some True)\<rparr>)))]"])
    (auto simp: pm_refresh_def traces_def split: prod.splits if_splits)

lemma wait_polled_traces:
  assumes "wait_polled en bo ck called t arc s = (s', es)"
  shows "\<exists>js. traces en bo ck (acm_of s) [Resume t i] (acm_of s') (acm_did es) js"
proof -
  obtain a fs r where p: "pm_wait en bo ck called arc (acm_of s) = (a, fs, r)" by (metis prod.collapse)
  with assms have "acm_of s' = a" "acm_did es = fs"
    by (auto simp: wait_polled_def split: option.splits result.splits)
  with pm_wait_traces [OF p] show ?thesis by simp
qed

lemma refresh_polled_traces:
  assumes "refresh_polled en bo ck i t arc ans s = (s', es)"
  shows "\<exists>js. traces en bo ck (acm_of s) [Resume t i] (acm_of s') (acm_did es) js"
proof (cases "pm_refresh en bo ck i arc (acm_of s)")
  case None
  with assms show ?thesis using traces_none by (fastforce simp: refresh_polled_def)
next
  case (Some x)
  then obtain a fs r where p: "pm_refresh en bo ck i arc (acm_of s) = Some (a, fs, r)" by (cases x) auto
  with assms have "acm_of s' = a" "acm_did es = fs"
    by (auto simp: refresh_polled_def)
  with pm_refresh_traces [OF p] show ?thesis by simp
qed

lemma resume_traces:
  assumes "resume en bo ck i t s = (s', es)"
  shows "\<exists>js. traces en bo ck (acm_of s) [Resume t i] (acm_of s') (acm_did es) js"
proof (cases "\<exists>pod n arc. snd (tasks s ! t) = Inserting pod n arc \<and> t < length (tasks s)")
  case True
  then obtain pod n arc where "snd (tasks s ! t) = Inserting pod n arc" "t < length (tasks s)" by blast
  with assms show ?thesis
    by (intro exI [where x = "[Insert n arc]"]) (auto simp: resume_def traces_def)
next
  case False
  with assms traces_none wait_polled_traces refresh_polled_traces show ?thesis
    by (fastforce simp: resume_def split: task.splits if_splits)
qed

lemma accept_acm:
  assumes "accept en x req s = (s', es)" and "acm_of s' \<noteq> acm_of s"
  shows "es = [] \<and> (\<exists>n ttl now. acm_of s' = pm_spawn en n ttl now (acm_of s))"
  using assms
  by (cases req) (auto simp: acm_wait_def acm_refresh_def acm_deploy_def Let_def
      split: prod.splits result.splits outcome.splits, blast)

lemma accept_traces:
  assumes "accept en x req s = (s', es)"
  shows "\<exists>js. traces en bo ck (acm_of s) [Request req x] (acm_of s') (acm_did es) js"
proof (cases "acm_of s' = acm_of s")
  case True
  with assms have "acm_did es = []"
    by (cases req) (auto simp: acm_wait_def acm_refresh_def split: prod.splits result.splits)
  with True show ?thesis by (intro exI [where x = "[]"]) (simp add: traces_def)
next
  case False
  from accept_acm [OF assms this] obtain n ttl now where "acm_of s' = pm_spawn en n ttl now (acm_of s)" "es = []"
    by blast
  then show ?thesis
    by (intro exI [where x = "[Spawn n ttl now]"]) (simp add: traces_def)
qed

lemma step_traces:
  assumes "server_step en bo ck s inp = (s', es)"
  shows "\<exists>js. traces en bo ck (acm_of s) [inp] (acm_of s') (acm_did es) js"
proof (cases inp)
  case (Request req x)
  with assms accept_traces show ?thesis by (fastforce simp: server_step_def)
next
  case (Resume t i)
  with assms resume_traces show ?thesis by (fastforce simp: server_step_def)
next
  case (Daemon arc i)
  show ?thesis
  proof (cases "by_request i")
    case True
    with assms Daemon show ?thesis
      by (intro exI [where x = "[]"]) (simp add: server_step_def traces_def)
  next
    case False
    with assms Daemon show ?thesis
      by (intro exI [where x = "[Turn arc i]"])
        (auto simp: server_step_def traces_def split: prod.splits)
  qed
next
  case (Cleaner arc)
  with assms show ?thesis
    by (intro exI [where x = "[Cleanup arc]"]) (auto simp: server_step_def traces_def)
qed

lemma server_traces:
  assumes "run (server_step en bo ck) s is = (s', es)"
  shows "\<exists>js. traces en bo ck (acm_of s) is (acm_of s') (acm_did es) js"
  using assms
proof (induction "is" arbitrary: s' es rule: rev_induct)
  case Nil
  then show ?case by (intro exI [where x = "[]"]) (simp add: traces_def)
next
  case (snoc i "is")
  then obtain t fs gs where t: "run (server_step en bo ck) s is = (t, fs)"
    and st: "server_step en bo ck t i = (s', gs)" and es: "es = fs @ gs"
    by (auto simp: run_append split: prod.splits)
  from snoc.IH [OF t] step_traces [OF st] obtain js ks where
    "traces en bo ck (acm_of s) is (acm_of t) (acm_did fs) js" "traces en bo ck (acm_of t) [i] (acm_of s') (acm_did gs) ks"
    by blast
  then have "traces en bo ck (acm_of s) (is @ [i]) (acm_of s') (acm_did es) (js @ ks)"
    by (auto simp: traces_def run_append es split: prod.splits)
  then show ?case by blast
qed

text \<open>So what is shown of one pod manager holds of every one behind the endpoints.\<close>

lemma history_turns:
  assumes "history arc js = Some (pod, ttl, now, is)"
  shows "\<exists>pre. List.map_filter (own_turn arc) js = pre @ filter (\<lambda>i. \<not> by_request i) is"
  using assms
proof (induction js arbitrary: pod ttl now "is" rule: rev_induct)
  case (snoc j js)
  obtain n h where nh: "foldl (history_step arc) (0, None) js = (n, h)" by fastforce
  then have h: "history arc js = h" by (simp add: history_def)
  show ?case
  proof (cases j)
    case (Turn k i)
    with snoc.prems nh have "h \<noteq> None" by (auto simp: history_def split: if_splits)
    then obtain pod' ttl' now' is' where h': "h = Some (pod', ttl', now', is')" by (cases h) auto
    with snoc.IH h obtain pre where "List.map_filter (own_turn arc) js = pre @ filter (\<lambda>i. \<not> by_request i) is'" by blast
    with snoc.prems nh h' Turn show ?thesis by (auto simp: history_def split: if_splits)
  next
    case (Spawn p' t' n')
    with snoc.prems snoc.IH [of pod ttl now "is"] nh show ?thesis by (auto simp: history_def split: if_splits)
  qed (use snoc nh in \<open>auto simp: history_def\<close>)
qed (simp add: history_def)

lemma server_part:
  assumes "run (server_step en bo ck) server_new is = (s, es)" and "arc < length (managers (acm_of s))"
  obtains pod ttl now js pre where
    "run (managed_step en bo ck) (new_managed en pod ttl now) js = (managers (acm_of s) ! arc, effects_of arc (acm_did es))"
    "daemon_turns arc is = pre @ filter (\<lambda>i. \<not> by_request i) js"
proof -
  from server_traces [OF assms(1)] obtain ks where
    ks: "run (acm_step en bo ck) acm_new ks = (acm_of s, acm_did es)" "List.map_filter (own_turn arc) ks = daemon_turns arc is"
    by (auto simp: traces_def server_new_def)
  from acm_parts [OF ks(1)] have "part arc (acm_of s) (acm_did es) = alone en bo ck (history arc ks)"
    by (simp add: parts_alone_def)
  with assms(2) obtain pod ttl now js where h: "history arc ks = Some (pod, ttl, now, js)"
    and r: "run (managed_step en bo ck) (new_managed en pod ttl now) js = (managers (acm_of s) ! arc, effects_of arc (acm_did es))"
    by (cases "history arc ks") (auto simp: part_def alone_def split: prod.splits)
  from history_turns [OF h] ks(2) that [OF r] show ?thesis by auto
qed

section \<open>The mutex\<close>

text \<open>The lock a task has asked for and not released, and whether it has got it.\<close>

fun lock_of :: "task \<Rightarrow> nat option" where
  "lock_of (WaitLocking arc) = Some arc"
| "lock_of (Waiting arc) = Some arc"
| "lock_of (WaitRefreshing arc _) = Some arc"
| "lock_of (RefreshLocking arc) = Some arc"
| "lock_of (Refreshing arc) = Some arc"
| "lock_of _ = None"

fun inside :: "task \<Rightarrow> bool" where
  "inside (Waiting _) = True"
| "inside (WaitRefreshing _ _) = True"
| "inside (Refreshing _) = True"
| "inside _ = False"

abbreviation task_at :: "('b, 'c) server \<Rightarrow> nat \<Rightarrow> task" where
  "task_at s t \<equiv> snd (tasks s ! t)"

definition disciplined :: "('b, 'c) server \<Rightarrow> bool" where
  "disciplined s \<longleftrightarrow> (\<forall>arc. distinct (lock_queue s arc)
     \<and> (\<forall>t. t \<in> set (lock_queue s arc) \<longleftrightarrow> t < length (tasks s) \<and> lock_of (task_at s t) = Some arc)
     \<and> (\<forall>t < length (tasks s). inside (task_at s t) \<longrightarrow> lock_of (task_at s t) = Some arc \<longrightarrow> holds_lock s arc t))"

lemma inside_holds:
  "disciplined s \<Longrightarrow> t < length (tasks s) \<Longrightarrow> inside (task_at s t) \<Longrightarrow> lock_of (task_at s t) = Some arc
     \<Longrightarrow> holds_lock s arc t"
  by (simp add: disciplined_def)

lemma disciplined_acm [simp]: "disciplined (s\<lparr>acm_of := a\<rparr>) = disciplined s"
  by (simp add: disciplined_def holds_lock_def)

lemma start_disciplined:
  assumes "disciplined s" and "lock_of k = None"
  shows "disciplined (start req k s)"
  using assms by (fastforce simp: disciplined_def start_def holds_lock_def nth_append less_Suc_eq)

lemma holds_lock_ask: "holds_lock s arc t \<Longrightarrow> holds_lock (ask_lock j u s) arc t"
  by (auto simp: holds_lock_def ask_lock_def split: list.splits)

lemma ask_disciplined:
  assumes "disciplined s" and "lock_of k = Some arc" and "\<not> inside k"
  shows "disciplined (ask_lock arc (length (tasks s)) (start req k s))"
proof -
  have fresh: "length (tasks s) \<notin> set (lock_queue s j)" for j
    using assms(1) by (auto simp: disciplined_def)
  have "holds_lock (ask_lock arc (length (tasks s)) (start req k s)) j t"
    if "t < length (tasks s)" "inside (task_at s t)" "lock_of (task_at s t) = Some j" for t j
    using that assms(1) by (intro holds_lock_ask) (auto simp: disciplined_def start_def holds_lock_def)
  with assms fresh show ?thesis
    by (auto simp: disciplined_def ask_lock_def start_def nth_append less_Suc_eq split: if_splits)
qed

lemma become_disciplined:
  assumes "disciplined s" and "lock_of (task_at s t) = lock_of k" and "t < length (tasks s)"
    and "inside k \<longrightarrow> (\<forall>arc. lock_of k = Some arc \<longrightarrow> holds_lock s arc t)"
  shows "disciplined (become t k s)"
proof -
  have "holds_lock (become t k s) arc u = holds_lock s arc u" for arc u by (simp add: holds_lock_def)
  with assms show ?thesis
    by (auto simp: disciplined_def become_def nth_list_update)
qed

lemma finish_disciplined:
  assumes "disciplined s" and "lock_of (task_at s t) = Some arc" and "t < length (tasks s)" and "holds_lock s arc t"
  shows "disciplined (finish arc t ans s)"
proof -
  from assms(4) obtain q where q: "lock_queue s arc = t # q" by (auto simp: holds_lock_def split: list.splits)
  with assms(1) have "t \<notin> set q" "distinct q" by (auto simp: disciplined_def) (metis distinct.simps(2))+
  have "\<not> inside (task_at s u)" if "u < length (tasks s)" "lock_of (task_at s u) = Some arc" "u \<noteq> t" for u
    using that inside_holds [OF assms(1) that(1) _ that(2)] q by (auto simp: holds_lock_def)
  moreover have "u \<in> set q \<longleftrightarrow> u \<noteq> t \<and> u < length (tasks s) \<and> lock_of (task_at s u) = Some arc" for u
    using assms(1) q \<open>t \<notin> set q\<close> by (metis disciplined_def set_ConsD list.set_intros)
  ultimately show ?thesis
    using assms(1-3) q \<open>distinct q\<close>
    by (auto simp: disciplined_def finish_def unlock_def become_def nth_list_update holds_lock_def split: if_splits)
qed

text \<open>Who asked for a lock, and who had it and released it, in order.\<close>

fun queued_at :: "nat \<Rightarrow> server_effect \<Rightarrow> nat option" where
  "queued_at arc (Queued j t) = (if j = arc then Some t else None)"
| "queued_at arc _ = None"

fun unlocked_at :: "nat \<Rightarrow> server_effect \<Rightarrow> nat option" where
  "unlocked_at arc (Unlocked j t) = (if j = arc then Some t else None)"
| "unlocked_at arc _ = None"

definition orderly :: "('b, 'c) server \<Rightarrow> server_effect list \<Rightarrow> bool" where
  "orderly s es \<longleftrightarrow> disciplined s
     \<and> (\<forall>arc. List.map_filter (queued_at arc) es = List.map_filter (unlocked_at arc) es @ lock_queue s arc)"

lemma queue_quiet [simp]:
  "List.map_filter (queued_at arc) (map Did es) = []" "List.map_filter (unlocked_at arc) (map Did es) = []"
  by simp_all

lemma finish_orderly:
  assumes "orderly s es" and "lock_of (task_at s t) = Some arc" and "inside (task_at s t) \<or> holds_lock s arc t"
    and "t < length (tasks s)"
  shows "orderly (finish arc t ans (s\<lparr>acm_of := a\<rparr>)) (es @ map Did ds @ [Unlocked arc t])"
proof -
  from assms have h: "holds_lock s arc t" by (auto simp: orderly_def intro: inside_holds)
  from finish_disciplined [OF _ assms(2,4) this] assms(1)
  have "disciplined (finish arc t ans (s\<lparr>acm_of := a\<rparr>))"
    by (simp add: orderly_def finish_def unlock_def become_def disciplined_def holds_lock_def)
  with assms(1) h show ?thesis
    by (auto simp: orderly_def finish_def unlock_def holds_lock_def split: list.splits)
qed

lemma become_orderly:
  assumes "orderly s es" and "lock_of (task_at s t) = lock_of k" and "t < length (tasks s)"
    and "inside k \<longrightarrow> (\<forall>arc. lock_of k = Some arc \<longrightarrow> inside (task_at s t) \<or> holds_lock s arc t)"
  shows "orderly (become t k (s\<lparr>acm_of := a\<rparr>)) (es @ map Did ds)"
proof -
  have "disciplined (become t k s)"
    using assms by (intro become_disciplined) (auto simp: orderly_def intro: inside_holds)
  then have "disciplined (become t k (s\<lparr>acm_of := a\<rparr>))"
    by (simp add: become_def disciplined_def holds_lock_def)
  with assms(1) show ?thesis by (simp add: orderly_def)
qed

lemma orderly_acm: "orderly s es \<Longrightarrow> orderly (s\<lparr>acm_of := a\<rparr>) (es @ map Did ds)"
  by (simp add: orderly_def)

lemma wait_polled_orderly:
  assumes "orderly s es" and "lock_of (task_at s t) = Some arc" and "inside (task_at s t) \<or> holds_lock s arc t"
    and "t < length (tasks s)" and "wait_polled en bo ck called t arc s = (s', es')"
  shows "orderly s' (es @ es')"
  using assms finish_orderly [OF assms(1-4)] become_orderly [OF assms(1) _ assms(4)]
  by (auto simp: wait_polled_def split: prod.splits option.splits result.splits)

lemma refresh_polled_orderly:
  assumes "orderly s es" and "lock_of (task_at s t) = Some arc" and "inside (task_at s t) \<or> holds_lock s arc t"
    and "t < length (tasks s)" and "refresh_polled en bo ck i t arc ans s = (s', es')"
  shows "orderly s' (es @ es')"
  using assms finish_orderly [OF assms(1-4)]
  by (auto simp: refresh_polled_def split: prod.splits option.splits)

lemma resume_orderly:
  assumes "orderly s es" and "resume en bo ck i t s = (s', es')"
  shows "orderly s' (es @ es')"
proof (cases "t < length (tasks s)")
  case True
  show ?thesis
  proof (cases "task_at s t")
    case (Inserting pod n arc)
    with assms True become_orderly [OF assms(1), of t "Answered (Deployed (Ok pod))" _ "[]"] show ?thesis
      by (auto simp: resume_def)
  next
    case (RefreshLocking arc)
    with assms True become_orderly [OF assms(1), of t "Refreshing arc" "acm_of s" "[]"] show ?thesis
      by (auto simp: resume_def split: if_splits)
  qed (use assms True in \<open>auto simp: resume_def split: if_splits
        elim!: wait_polled_orderly [rotated 4] refresh_polled_orderly [rotated 4]\<close>)
qed (use assms in \<open>simp add: resume_def\<close>)

lemma accept_orderly:
  assumes "orderly s es" and "accept en x req s = (s', es')"
  shows "orderly s' (es @ es')"
proof -
  have start: "orderly (start req k (s\<lparr>acm_of := a\<rparr>)) es" if "lock_of k = None" for k a
    using assms(1) that by (simp add: orderly_def start_disciplined)
  have ask: "orderly (ask_lock arc (length (tasks s)) (start req k s)) (es @ [Queued arc (length (tasks s))])"
    if "lock_of k = Some arc" "\<not> inside k" for k arc
    using assms(1) ask_disciplined [OF _ that, of s req] by (simp add: orderly_def)
  show ?thesis
    using assms(2) ask start [of _ "acm_of s"] start
    by (cases req) (auto simp: acm_wait_def acm_refresh_def acm_deploy_def Let_def
        split: prod.splits result.splits outcome.splits)
qed

interpretation mutex: traced_daemon "server_step en bo ck" "\<lambda>_. False" orderly
proof unfold_locales
  fix s es i s' es'
  assume "orderly s es" and "server_step en bo ck s i = (s', es')"
  then show "orderly s' (es @ es')"
    using orderly_acm [of s es _ "[]"]
    by (cases i) (auto simp: server_step_def split: prod.splits if_splits
        dest: accept_orderly resume_orderly intro: orderly_acm simp flip: map_map)
qed simp

section \<open>Evaluation\<close>

definition quiet_api :: kube_api where
  "quiet_api = \<lparr>get_pod = (\<lambda>_. Ok up_pod), create_pod = (\<lambda>_. Ok up_pod),
     delete_pod = (\<lambda>_ _. Err (Kube_Api \<lparr>resp_code = 404, resp_display = ''not found''\<rparr>))\<rparr>"

definition quiet :: cluster where
  "quiet = \<lparr>ctx_names = \<lparr>unicode_alnum = (\<lambda>_. False), kebab = word_kebab, fresh_uuid = ''0b15278c2f95272de1abc8295775292f''\<rparr>,
     ctx_decode = (\<lambda>j. Ok (decode_pod j)), ctx_api = quiet_api,
     ctx_vars = \<lparr>registry_var = None, repository_var = None, hostname = Some ''conn-1''\<rparr>, ctx_now = 0\<rparr>"

lemma quiet_deploy:
  "k8s_deploy (ctx_names quiet) (ctx_decode quiet) (ctx_api quiet) (hostname (ctx_vars quiet)) ref ''Oracle v1'' ttl
     = Done (Ok up_pod)"
proof -
  have "\<exists>n. rfc1123_subdomain (\<lambda>_. False) word_kebab ''0b15278c2f95272de1abc8295775292f'' ''Oracle v1'' = Done n"
    using subdomain_valid [of word_kebab "''0b15278c2f95272de1abc8295775292f''" "''Oracle v1''" "\<lambda>_. False"]
    by (auto simp: word_kebab_law simple_uuid_def char_class_defs)
  then show ?thesis
    by (auto simp: k8s_deploy_def pod_new_def quiet_def quiet_api_def servicer_def servicer_labels_def resource_name_def
        decode_pod_json up_pod_def dns_def port_def first_def)
qed

lemma up_pod_name: "meta_name (metadata up_pod) = Some ''conn-1''"
  by (simp add: up_pod_def decode_pod_json)

abbreviation conn_step :: "(nat, nat) server \<Rightarrow> server_input \<Rightarrow> (nat, nat) server \<times> server_effect list" where
  "conn_step \<equiv> server_step quarter_hour (half_second 30000) wide_clock"

abbreviation some_gc :: gc_input where
  "some_gc \<equiv> gc_at 7 (PodEvent None)"

definition deploys :: "server_input list" where
  "deploys = [Request (Post_Deploy ''t'' ''Oracle v1'' None) quiet, Resume 0 some_gc]"

end
