(* ===== verification/Service.thy ===== *)
theory Service
  imports Requests
begin

text \<open>
  What the requests of the connector manager are promised: answers belong to the pod that was asked
  for, a pod is handed out only after it ran and answered, the requests of one pod exclude each
  other and are served in order, and none is left behind when its pod is over.
\<close>

section \<open>Tasks and their managers\<close>

definition named :: "('b, 'c) acm \<Rightarrow> nat \<Rightarrow> string \<Rightarrow> bool" where
  "named a arc n \<longleftrightarrow> arc < length (managers a)
     \<and> pod_id (watcher (manager (managers a ! arc))) = n \<and> gc_pod (collector (manager (managers a ! arc))) = n"

lemma ew_step_pod_id: "ew_step en d i = (d', es) \<Longrightarrow> pod_id d' = pod_id d"
  by (auto simp: machine_simps Let_def split: ew_splits)

lemma gc_step_pod: "gc_step ck d i = (d', es) \<Longrightarrow> gc_pod d' = gc_pod d"
  by (auto simp: machine_simps split: gc_splits)

lemma sys_step_names:
  assumes "sys_step en ck s i = (s', es)"
  shows "pod_id (watcher s') = pod_id (watcher s) \<and> gc_pod (collector s') = gc_pod (collector s)"
  using assms
  by (cases i) (auto simp: sys_step_def turn_defs ew_step_pod_id gc_step_pod
      split: prod.splits option.splits gc_event.splits handle_input.splits if_splits)

lemma sys_run_names:
  assumes "run (sys_step en ck) s is = (s', es)"
  shows "pod_id (watcher s') = pod_id (watcher s) \<and> gc_pod (collector s') = gc_pod (collector s)"
  by (rule run_keeps [OF assms]) (auto dest: sys_step_names)

lemma managed_step_names:
  assumes "managed_step en bo ck m i = (m', es)"
  shows "pod_id (watcher (manager m')) = pod_id (watcher (manager m))
    \<and> gc_pod (collector (manager m')) = gc_pod (collector (manager m))"
  using sys_run_names [OF manager_step [OF assms]] .

lemma named_step: "named a arc n \<Longrightarrow> acm_step en bo ck a i = (a', es) \<Longrightarrow> named a' arc n"
  by (cases i) (auto simp: named_def pm_spawn_def pm_insert_def pm_cleanup_def nth_append nth_list_update
      managed_step_names split: prod.splits option.splits if_splits)

lemma named_run: "named a arc n \<Longrightarrow> run (acm_step en bo ck) a is = (a', es) \<Longrightarrow> named a' arc n"
  by (rule run_keeps [where P = "\<lambda>a. named a arc n"]) (auto intro: named_step)

lemma acm_length: "acm_step en bo ck a i = (a', es) \<Longrightarrow> n \<le> length (managers a) \<Longrightarrow> n \<le> length (managers a')"
  by (cases i) (auto simp: pm_spawn_def pm_insert_def pm_cleanup_def split: prod.splits option.splits if_splits)

lemma named_spawn: "named (pm_spawn en n ttl now a) (length (managers a)) n"
  by (simp add: named_def pm_spawn_def new_managed_def new_podmanager_def new_watcher_def ew_start_def gc_new_def)

definition cache_ok :: "('b, 'c) acm \<Rightarrow> bool" where
  "cache_ok a \<longleftrightarrow> (\<forall>pod arc. cached a pod = Some arc \<longrightarrow> named a arc pod)"

lemma cache_ok_step:
  assumes "cache_ok a" and "acm_step en bo ck a i = (a', es)" and "\<forall>pod arc. i = Insert pod arc \<longrightarrow> named a arc pod"
  shows "cache_ok a'"
proof -
  have "cached a' pod = Some arc \<Longrightarrow> named a arc pod" for pod arc
    using assms by (cases i) (auto simp: cache_ok_def pm_spawn_def pm_insert_def pm_cleanup_def
        split: prod.splits option.splits if_splits)
  with named_step [OF _ assms(2)] show ?thesis unfolding cache_ok_def by blast
qed

lemma cache_ok_run:
  assumes "cache_ok a" and "run (acm_step en bo ck) a is = (a', es)" and "\<forall>pod arc. Insert pod arc \<notin> set is"
  shows "cache_ok a'"
  by (rule run_keeps [where P = cache_ok, OF assms(2,1)]) (use assms(3) in \<open>auto intro: cache_ok_step\<close>)

text \<open>What is known of a task, from the request it serves to the answer.\<close>

abbreviation has_returned :: "(nat \<times> managed_effect) list \<Rightarrow> nat \<Rightarrow> pod \<Rightarrow> bool" where
  "has_returned ds arc p \<equiv> (arc, ByManager (ByHandle (Returned (Ok p)))) \<in> set ds"

fun answer_ok :: "('b, 'c) acm \<Rightarrow> (nat \<times> managed_effect) list \<Rightarrow> acm_request \<Rightarrow> acm_answer \<Rightarrow> bool" where
  "answer_ok a ds (Post_Deploy _ _ _) (Deployed _) = True"
| "answer_ok a ds (Get_Wait n) (Waited r) = (\<forall>pt. r = Ok pt \<longrightarrow> ticket (pod_ticket_ticket pt) = n
      \<and> (\<exists>arc. named a arc n \<and> has_returned ds arc (ticket_pod pt)))"
| "answer_ok a ds (Post_Refresh n) (Refreshed r) = (\<forall>tk. r = Ok tk \<longrightarrow> ticket tk = n)"
| "answer_ok a ds (Delete_Delete _) (Undeployed _) = True"
| "answer_ok a ds _ _ = False"

fun task_ok :: "('b, 'c) acm \<Rightarrow> (nat \<times> managed_effect) list \<Rightarrow> acm_request \<Rightarrow> task \<Rightarrow> bool" where
  "task_ok a ds req (Inserting _ n arc) = (named a arc n \<and> (\<exists>t m ttl. req = Post_Deploy t m ttl))"
| "task_ok a ds req (WaitLocking arc) = (\<exists>n. req = Get_Wait n \<and> named a arc n)"
| "task_ok a ds req (Waiting arc) = (\<exists>n. req = Get_Wait n \<and> named a arc n)"
| "task_ok a ds req (WaitRefreshing arc p) = (\<exists>n. req = Get_Wait n \<and> named a arc n \<and> has_returned ds arc p)"
| "task_ok a ds req (RefreshLocking arc) = (\<exists>n. req = Post_Refresh n \<and> named a arc n)"
| "task_ok a ds req (Refreshing arc) = (\<exists>n. req = Post_Refresh n \<and> named a arc n)"
| "task_ok a ds req (Answered ans) = answer_ok a ds req ans"
| "task_ok a ds req (Died _) = True"

definition serving :: "('b, 'c) server \<Rightarrow> server_effect list \<Rightarrow> bool" where
  "serving s es \<longleftrightarrow> cache_ok (acm_of s) \<and> (\<forall>x \<in> set (tasks s). task_ok (acm_of s) (acm_did es) (fst x) (snd x))"

definition grows :: "('b, 'c) acm \<Rightarrow> ('b, 'c) acm \<Rightarrow> bool" where
  "grows a a' \<longleftrightarrow> (\<forall>arc n. named a arc n \<longrightarrow> named a' arc n)"

lemma answer_ok_mono: "answer_ok a ds req ans \<Longrightarrow> grows a a' \<Longrightarrow> set ds \<subseteq> set ds' \<Longrightarrow> answer_ok a' ds' req ans"
  by (induction a ds req ans rule: answer_ok.induct) (auto simp: grows_def subset_iff, blast)

lemma task_ok_mono: "task_ok a ds req k \<Longrightarrow> grows a a' \<Longrightarrow> set ds \<subseteq> set ds' \<Longrightarrow> task_ok a' ds' req k"
  by (cases k) (auto simp: grows_def dest: answer_ok_mono)

lemma serving_update:
  assumes "serving s es" and "grows (acm_of s) (acm_of s')" and "cache_ok (acm_of s')"
    and "set (tasks s') \<subseteq> insert (req, k) (set (tasks s))"
    and "task_ok (acm_of s') (acm_did (es @ es')) req k"
  shows "serving s' (es @ es')"
proof -
  have "task_ok (acm_of s') (acm_did (es @ es')) (fst x) (snd x)" if "x \<in> set (tasks s)" for x
    using assms(1,2) that by (auto simp: serving_def intro: task_ok_mono)
  with assms(3-5) show ?thesis unfolding serving_def by fastforce
qed

lemma grows_run: "run (acm_step en bo ck) a is = (a', es) \<Longrightarrow> grows a a'"
  unfolding grows_def using named_run by blast

lemma become_set: "set (tasks (become t k s)) \<subseteq> insert (fst (tasks s ! t), k) (set (tasks s))"
  unfolding become_def by (simp add: set_update_subset_insert)

lemma become_serving:
  assumes "serving s es" and "grows (acm_of s) a" and "cache_ok a"
    and "task_ok a (acm_did (es @ es')) (fst (tasks s ! t)) k"
  shows "serving (become t k (s\<lparr>acm_of := a\<rparr>)) (es @ es')"
  by (rule serving_update [OF assms(1) _ _ _ , of _ "fst (tasks s ! t)" k])
    (use assms become_set [of t k "s\<lparr>acm_of := a\<rparr>"] in \<open>simp_all add: become_def\<close>)

lemma finish_serving:
  assumes "serving s es" and "grows (acm_of s) a" and "cache_ok a"
    and "task_ok a (acm_did (es @ es')) (fst (tasks s ! t)) (Answered ans)"
  shows "serving (finish arc t ans (s\<lparr>acm_of := a\<rparr>)) (es @ es')"
  using become_serving [OF assms] by (simp add: serving_def finish_def unlock_def)

lemma returned_in: "returned es = Some r \<Longrightarrow> ByManager (ByHandle (Returned r)) \<in> set es"
  by (induction es rule: returned.induct) auto

lemma turn_effects:
  assumes "run (acm_step en bo ck) a (map (Turn arc) is) = (a', es)"
  shows "set es \<subseteq> {arc} \<times> UNIV"
  using assms
proof (induction "is" arbitrary: a es)
  case (Cons i "is")
  then obtain b fs gs where "acm_step en bo ck a (Turn arc i) = (b, fs)"
    "run (acm_step en bo ck) b (map (Turn arc) is) = (a', gs)" "es = fs @ gs"
    by (auto simp del: acm_step.simps split: prod.splits)
  with Cons.IH show ?case by (fastforce split: prod.splits if_splits)
qed simp

lemma pm_wait_facts:
  assumes "pm_wait en bo ck called arc a = (a', es, r)" and "cache_ok a"
  shows "grows a a'" and "cache_ok a'" and "r = Some (Ok p) \<Longrightarrow> has_returned es arc p"
proof -
  from assms(1) have r: "run (acm_step en bo ck) a (map (Turn arc) (wait_polls called)) = (a', es)"
    and r': "r = returned (map snd es)"
    by (auto simp: pm_wait_def split: prod.splits)
  from grows_run [OF r] cache_ok_run [OF assms(2) r] show "grows a a'" "cache_ok a'" by auto
  assume "r = Some (Ok p)"
  with r' returned_in have "ByManager (ByHandle (Returned (Ok p))) \<in> snd ` set es" by force
  with turn_effects [OF r] show "has_returned es arc p" by fastforce
qed

lemma answer_in: "answer es = Some tk \<Longrightarrow> \<exists>b. SendTicket tk b \<in> set es"
  by (induction es rule: answer.induct) auto

lemma gc_refresh_ticket: "gc_refresh ck d i = Some (d', es, Ok tk) \<Longrightarrow> ticket tk = gc_pod d"
  by (auto simp: gc_refresh_def machine_simps issue_ticket split: if_splits prod.splits gc_phase.splits outcome.splits)

lemma pm_refresh_facts:
  assumes "pm_refresh en bo ck i arc a = Some (a', es, r)" and "cache_ok a" and "named a arc n"
  shows "grows a a'" and "cache_ok a'" and "r = Ok tk \<Longrightarrow> ticket tk = n"
proof -
  from assms(1) obtain j where st: "acm_step en bo ck a (Turn arc j) = (a', es)"
    by (auto simp: pm_refresh_def simp del: acm_step.simps split: if_splits prod.splits)
  with named_step show "grows a a'" unfolding grows_def by blast
  from cache_ok_step [OF assms(2) st] show "cache_ok a'" by simp
  assume "r = Ok tk"
  with assms(1,3) show "ticket tk = n"
    by (auto simp: pm_refresh_collector named_def split: option.splits dest!: gc_refresh_ticket)
qed

lemma task_ok_at:
  assumes "serving s es" and "t < length (tasks s)"
  shows "task_ok (acm_of s) (acm_did es) (fst (tasks s ! t)) (task_at s t)"
  using assms by (simp add: serving_def)

lemma wait_polled_serving:
  assumes "serving s es" and "fst (tasks s ! t) = Get_Wait n" and "named (acm_of s) arc n"
    and "wait_polled en bo ck called t arc s = (s', es')"
  shows "serving s' (es @ es')"
proof -
  obtain a fs r where p: "pm_wait en bo ck called arc (acm_of s) = (a, fs, r)" by (metis prod.collapse)
  from assms(1) have c: "cache_ok (acm_of s)" by (simp add: serving_def)
  note facts = pm_wait_facts [OF p c]
  from facts(1) assms(3) have "named a arc n" by (simp add: grows_def)
  with facts assms p show ?thesis
    by (auto simp: wait_polled_def split: option.splits result.splits
        intro!: become_serving finish_serving)
qed

lemma refresh_polled_serving:
  assumes "serving s es" and "named (acm_of s) arc n" and "refresh_polled en bo ck i t arc ans s = (s', es')"
    and "\<And>a ds r. grows (acm_of s) a \<Longrightarrow> set (acm_did es) \<subseteq> set ds \<Longrightarrow> \<forall>tk. r = Ok tk \<longrightarrow> ticket tk = n
      \<Longrightarrow> answer_ok a ds (fst (tasks s ! t)) (ans r)"
  shows "serving s' (es @ es')"
proof (cases "pm_refresh en bo ck i arc (acm_of s)")
  case (Some x)
  then obtain a fs r where p: "pm_refresh en bo ck i arc (acm_of s) = Some (a, fs, r)" by (cases x) auto
  from assms(1) have "cache_ok (acm_of s)" by (simp add: serving_def)
  note facts = pm_refresh_facts [OF p this assms(2)]
  with assms(3,4) p show ?thesis by (auto simp: refresh_polled_def intro!: finish_serving [OF assms(1)])
qed (use assms in \<open>auto simp: refresh_polled_def\<close>)

lemma resume_serving:
  assumes "serving s es" and "resume en bo ck i t s = (s', es')"
  shows "serving s' (es @ es')"
proof (cases "t < length (tasks s)")
  case True
  note ok = task_ok_at [OF assms(1) True]
  show ?thesis
  proof (cases "task_at s t")
    case (Inserting pod n arc)
    with ok have n: "named (acm_of s) arc n" "\<exists>u m ttl. fst (tasks s ! t) = Post_Deploy u m ttl" by auto
    from assms(1) have "cache_ok (acm_of s)" by (simp add: serving_def)
    from cache_ok_step [OF this, of _ _ _ "Insert n arc"] n(1) have "cache_ok (pm_insert n arc (acm_of s))" by fastforce
    with n Inserting True assms show ?thesis
      by (auto simp: resume_def grows_def named_def pm_insert_def intro!: become_serving [of s es _ "[]", simplified])
  next
    case (WaitLocking arc)
    with ok assms True show ?thesis
      by (auto simp: resume_def split: if_splits intro: wait_polled_serving)
  next
    case (Waiting arc)
    with ok assms True show ?thesis by (auto simp: resume_def intro: wait_polled_serving)
  next
    case (WaitRefreshing arc p)
    with ok obtain n where n: "fst (tasks s ! t) = Get_Wait n" "named (acm_of s) arc n" "has_returned (acm_did es) arc p"
      by auto
    from WaitRefreshing assms(2) True have "refresh_polled en bo ck i t arc (pod_ticketed p) s = (s', es')"
      by (simp add: resume_def)
    from refresh_polled_serving [OF assms(1) n(2) this] n show ?thesis
      by (fastforce simp: pod_ticketed_def grows_def)
  next
    case (RefreshLocking arc)
    with ok assms True show ?thesis
      using become_serving [of s es "acm_of s" "[]" t "Refreshing arc"]
      by (auto simp: resume_def grows_def serving_def split: if_splits)
  next
    case (Refreshing arc)
    with ok obtain n where n: "fst (tasks s ! t) = Post_Refresh n" "named (acm_of s) arc n" by auto
    from Refreshing assms(2) True have "refresh_polled en bo ck i t arc Refreshed s = (s', es')" by (simp add: resume_def)
    from refresh_polled_serving [OF assms(1) n(2) this] n show ?thesis by auto
  qed (use assms True in \<open>auto simp: resume_def\<close>)
qed (use assms in \<open>simp add: resume_def\<close>)

lemma start_serving:
  assumes "serving s es" and "grows (acm_of s) a" and "cache_ok a" and "task_ok a (acm_did es) req k"
  shows "serving (start req k (s\<lparr>acm_of := a\<rparr>)) es"
  using serving_update [OF assms(1), of "start req k (s\<lparr>acm_of := a\<rparr>)" req k "[]"] assms
  by (simp add: start_def)

lemma ask_serving: "serving (ask_lock arc t s) (es @ [Queued j u]) = serving s es"
  by (simp add: serving_def)

lemma accept_serving:
  assumes "serving s es" and "accept en x req s = (s', es')"
  shows "serving s' (es @ es')"
proof -
  from assms(1) have c: "cache_ok (acm_of s)" by (simp add: serving_def)
  have g: "grows (acm_of s) (acm_of s)" by (simp add: grows_def)
  have keep: "serving (start req k s) es" if "task_ok (acm_of s) (acm_did es) req k" for k
    using start_serving [OF assms(1) g c that] by simp
  show ?thesis
  proof (cases req)
    case (Post_Deploy u name ttl)
    have "grows (acm_of s) (pm_spawn en n t now (acm_of s))" "cache_ok (pm_spawn en n t now (acm_of s))" for n t now
      using named_step [of "acm_of s" _ _ en _ _ "Spawn n t now"] cache_ok_step [OF c, of en _ _ "Spawn n t now"]
      by (auto simp: grows_def)
    with keep named_spawn show ?thesis
      using assms(2) Post_Deploy c g
      by (auto simp: acm_deploy_def Let_def split: prod.splits outcome.splits result.splits intro!: start_serving [OF assms(1)])
  next
    case (Get_Wait n)
    with assms(2) keep c show ?thesis
      by (auto simp: acm_wait_def pm_get_def cache_ok_def ask_serving split: result.splits option.splits)
  next
    case (Post_Refresh n)
    with assms(2) keep c show ?thesis
      by (auto simp: acm_refresh_def pm_get_def cache_ok_def ask_serving split: result.splits option.splits)
  next
    case (Delete_Delete n)
    with assms(2) keep show ?thesis by (auto split: outcome.splits)
  qed
qed

lemma acm_serving:
  assumes "serving s es" and "acm_step en bo ck (acm_of s) i = (a, ds)" and "\<forall>pod arc. i \<noteq> Insert pod arc"
  shows "serving (s\<lparr>acm_of := a\<rparr>) (es @ map Did ds)"
proof -
  have "cache_ok a" using assms cache_ok_step [OF _ assms(2)] by (simp add: serving_def)
  moreover have "grows (acm_of s) a" using named_step [OF _ assms(2)] by (simp add: grows_def)
  ultimately show ?thesis using assms(1) by (auto simp: serving_def intro: task_ok_mono)
qed

interpretation service: traced_daemon "server_step en bo ck" "\<lambda>_. False" serving
proof unfold_locales
  fix s es i s' es'
  assume s: "serving s es" and st: "server_step en bo ck s i = (s', es')"
  show "serving s' (es @ es')"
  proof (cases i)
    case (Daemon arc j)
    with st s acm_serving [OF s] show ?thesis
      by (auto simp: server_step_def simp del: acm_step.simps split: prod.splits if_splits)
  next
    case (Cleaner arc)
    with st acm_serving [OF s, of en _ _ "Cleanup arc" _ "[]"] show ?thesis by (auto simp: server_step_def)
  qed (use s st in \<open>auto simp: server_step_def intro: accept_serving resume_serving\<close>)
qed

lemma server_new_serving: "serving server_new []" and server_new_orderly: "orderly server_new []"
  by (simp_all add: serving_def server_new_def acm_new_def cache_ok_def orderly_def disciplined_def)

lemma run_serving: "run (server_step en bo ck) server_new is = (s, es) \<Longrightarrow> serving s es"
  using service.run_inv [OF server_new_serving] by simp

lemma run_orderly: "run (server_step en bo ck) server_new is = (s, es) \<Longrightarrow> orderly s es"
  using mutex.run_inv [OF server_new_orderly] by simp

section \<open>What the clients are promised\<close>

text \<open>
  A client of \<open>GET /wait?id=n\<close> gets a pod only if, in the pod manager started for \<open>n\<close>, the API
  server reported that very pod as applied and it was running, and then, later, its health check
  had a connection accepted; the ticket it gets is one for \<open>n\<close>. This is so whatever other requests
  and pods there are, in every interleaving of all coroutines, cleanups and requests.
\<close>

lemma wait_request_sound:
  assumes "run (server_step en bo ck) server_new is = (s, es)"
    and "tasks s ! t = (Get_Wait n, Answered (Waited (Ok pt)))" and "t < length (tasks s)"
  shows "ticket (pod_ticket_ticket pt) = n \<and> running (ticket_pod pt)
    \<and> (\<exists>arc xs t1 ready ys t2 zs. named (acm_of s) arc n
        \<and> daemon_turns arc is = xs @ StreamItem (Ok (Some (Applied (ticket_pod pt)))) t1 ready
            # ys @ OnCheck (Connection (Ok ())) t2 # zs)"
proof -
  from task_ok_at [OF run_serving [OF assms(1)] assms(3)] assms(2) obtain arc where
    tk: "ticket (pod_ticket_ticket pt) = n" and arc: "named (acm_of s) arc n"
    and ret: "has_returned (acm_did es) arc (ticket_pod pt)"
    by auto
  from arc have "arc < length (managers (acm_of s))" by (simp add: named_def)
  from server_part [OF assms(1) this] obtain pod ttl now js pre where
    r: "run (managed_step en bo ck) (new_managed en pod ttl now) js = (managers (acm_of s) ! arc, effects_of arc (acm_did es))"
    and d: "daemon_turns arc is = pre @ filter (\<lambda>i. \<not> by_request i) js" .
  from ret have "ByManager (ByHandle (Returned (Ok (ticket_pod pt)))) \<in> set (effects_of arc (acm_did es))"
    by (simp add: effects_of_in)
  from managed_wait_sound [OF r this] obtain xs t1 ready ys t2 zs where run: "running (ticket_pod pt)"
    and js: "js = xs @ StreamItem (Ok (Some (Applied (ticket_pod pt)))) t1 ready # ys @ OnCheck (Connection (Ok ())) t2 # zs"
    by blast
  from js d have "daemon_turns arc is = (pre @ filter (\<lambda>i. \<not> by_request i) xs)
      @ StreamItem (Ok (Some (Applied (ticket_pod pt)))) t1 ready # filter (\<lambda>i. \<not> by_request i) ys
      @ OnCheck (Connection (Ok ())) t2 # filter (\<lambda>i. \<not> by_request i) zs"
    by simp
  with tk run arc show ?thesis by blast
qed


text \<open>
  C32: a successful deployment answers with the pod the API server created and leaves a fresh pod
  manager for it in the cache, with the requested TTL or half an hour; a failed one is answered at
  once and leaves the managers as they were. The image is the tag in the configured repository.
\<close>

theorem deploy_registers:
  assumes "k8s_deploy (ctx_names x) (ctx_decode x) (ctx_api x) (hostname (ctx_vars x))
             (image_reference (ctx_vars x) tag) name (case ttl of None \<Rightarrow> 1800 | Some t \<Rightarrow> t) = Done r"
    and "\<forall>p. r = Ok p \<longrightarrow> meta_name (metadata p) \<noteq> None"
  shows "case r of
      Err err \<Rightarrow> server_step en bo ck s (Request (Post_Deploy tag name ttl) x)
        = (start (Post_Deploy tag name ttl) (Answered (Deployed (Err err))) s, [])
    | Ok p \<Rightarrow> \<exists>s' arc. run (server_step en bo ck) s [Request (Post_Deploy tag name ttl) x, Resume (length (tasks s)) i] = (s', [])
        \<and> task_at s' (length (tasks s)) = Answered (Deployed (Ok p))
        \<and> pm_get (acm_of s') (the (meta_name (metadata p))) = Ok arc
        \<and> managers (acm_of s') = managers (acm_of s) @
            [new_managed en (the (meta_name (metadata p))) (case ttl of None \<Rightarrow> 1800 | Some t \<Rightarrow> t) (ctx_now x)]
        \<and> arc = length (managers (acm_of s))"
proof -
  have "DEFAULT_TTL = 1800" by (simp add: DEFAULT_TTL_def)
  with assms show ?thesis
    by (cases r) (auto simp: server_step_def acm_deploy_def resume_def start_def become_def resource_name_def
        pm_get_def pm_insert_def pm_spawn_def split: option.splits)
qed

section \<open>Refreshing after a wait\<close>

lemma said_ok_running: "ew_said name ph g r k \<Longrightarrow> Ok p \<in> set r \<Longrightarrow> GcRunning p \<in> set g"
  by (auto elim: ew_said.cases)

lemma returned_not_waiting:
  assumes "run (managed_step en bo ck) (new_managed en name ttl now) is = (m, es)"
    and "ByManager (ByHandle (Returned (Ok p))) \<in> set es" and "gc_event i = PodEvent x"
    and "managed_step en bo ck m (OnOthers (OnCollector i)) = (m', es')"
  shows "gc_phase (collector (manager m')) \<noteq> GcWaiting"
proof -
  let ?s = "manager m" and ?es = "manager_did es"
  note wired = managed_wired [OF assms(1)]
  from wired(2) assms(2) have "Ok p \<in> verdict ?es" by (simp add: fed_def manager_did_in)
  with wired(1) said_ok_running have "GcRunning p \<in> set (signalled ?es)" by (fastforce simp: wired_def ew_protocol_def)
  then have "signalled ?es \<noteq> []" by auto
  then have "gc_phase (collector ?s) = GcWaiting \<Longrightarrow> \<exists>y q. gc_channel ?s = y # q"
    using wired(1) by (auto simp: wired_def neq_Nil_conv)
  then have "gc_phase (collector (fst (collector_recv ck ?s i))) \<noteq> GcWaiting"
    by (cases "gc_phase (collector ?s)")
      (auto simp: collector_recv_def collector_turn_def recv_def gc_step_def gc_begin_def patch_label_def gc_delete_def
        split: prod.splits gc_status.splits option.splits outcome.splits list.splits if_splits)
  with assms(3,4) show ?thesis by (auto simp: managed_step_def sys_step_def split: prod.splits)
qed

text \<open>
  A \<open>wait\<close> that has its pod is answered. The collector has the running signal in hand or in its
  channel, so that after its next look at the channel it takes up the refresh, or is found gone; the
  client gets the pod with a ticket or the error that the pod is being shut down.
\<close>

lemma wait_with_pod_answered:
  assumes "run (server_step en bo ck) server_new is = (s, es)" and "t < length (tasks s)"
    and "task_at s t = WaitRefreshing arc p" and "gc_event i = PodEvent x"
  shows "\<exists>r. task_at (fst (run (server_step en bo ck) s [Daemon arc (OnOthers (OnCollector i)), Resume t j])) t
      = Answered (Waited r)
    \<and> (r = Err (E_Gc RefreshChannelClosed) \<or> (\<exists>tk. r = Ok \<lparr>ticket_pod = p, pod_ticket_ticket = tk\<rparr>))"
proof -
  from task_ok_at [OF run_serving [OF assms(1)] assms(2)] assms(3) obtain n where
    arc: "arc < length (managers (acm_of s))" and ret: "has_returned (acm_did es) arc p"
    by (auto simp: named_def)
  from server_part [OF assms(1) arc] obtain pod ttl now js where
    r: "run (managed_step en bo ck) (new_managed en pod ttl now) js = (managers (acm_of s) ! arc, effects_of arc (acm_did es))"
    by metis
  obtain m fs where m: "managed_step en bo ck (managers (acm_of s) ! arc) (OnOthers (OnCollector i)) = (m, fs)" by fastforce
  from returned_not_waiting [OF r _ assms(4) m] ret have "gc_phase (collector (manager m)) \<noteq> GcWaiting"
    by (simp add: effects_of_in)
  moreover define s1 where "s1 = s\<lparr>acm_of := acm_of s\<lparr>managers := (managers (acm_of s))[arc := m]\<rparr>\<rparr>"
  ultimately have "\<exists>a gs r. pm_refresh en bo ck j arc (acm_of s1) = Some (a, gs, ok_or (E_Gc RefreshChannelClosed) r)"
    using arc by (simp add: pm_refresh_def del: acm_step.simps split: prod.split) blast
  then obtain a gs r where "pm_refresh en bo ck j arc (acm_of s1) = Some (a, gs, ok_or (E_Gc RefreshChannelClosed) r)" by blast
  moreover have "fst (run (server_step en bo ck) s [Daemon arc (OnOthers (OnCollector i)), Resume t j])
      = fst (resume en bo ck j t s1)"
    using arc m assms(4) by (simp add: server_step_def s1_def split: prod.splits)
  ultimately show ?thesis
    using assms(2,3) by (cases r) (simp_all add: resume_def refresh_polled_def pod_ticketed_def finish_def unlock_def
        become_def s1_def)
qed

section \<open>The race of cleanup and insertion\<close>

lemma spawned_named:
  assumes "run (acm_step en bo ck) a is = (a', es)" and "Spawn n ttl now \<in> set is"
  shows "\<exists>arc \<ge> length (managers a). named a' arc n"
proof -
  from assms(2) obtain us vs where "is = us @ Spawn n ttl now # vs" by (meson split_list)
  with assms(1) obtain b fs gs where b: "run (acm_step en bo ck) a us = (b, fs)"
    and v: "run (acm_step en bo ck) (pm_spawn en n ttl now b) vs = (a', gs)"
    by (auto simp: run_append split: prod.splits)
  have "length (managers a) \<le> length (managers b)"
    by (rule run_keeps [where P = "\<lambda>b. length (managers a) \<le> length (managers b)", OF b])
      (auto simp: acm_length)
  with named_run [OF named_spawn v] show ?thesis by blast
qed

text \<open>
  C38: a manager that is over leaves the cache, if its cleanup comes after its insertion. But the
  cleanup coroutine is started before the insertion: if it is the first to get the lock of the cache,
  the entry is inserted afterwards and stays for ever, whatever happens (unless a pod of the same
  name is deployed again).
\<close>

theorem cache_cleanup_race:
  assumes "t < length (tasks s)" and "task_at s t = Inserting p n arc"
    and "arc < length (managers (acm_of s))" and "joined (managers (acm_of s) ! arc)"
    and "map_of (cleaners (acm_of s)) arc = Some n" and "\<forall>c \<in> set (cleaners (acm_of s)). snd c = n \<longrightarrow> fst c = arc"
  shows "cached (acm_of (fst (run (server_step en bo ck) s [Resume t i, Cleaner arc]))) n = None
    \<and> (\<forall>is s' es. run (server_step en bo ck) s ([Cleaner arc, Resume t i] @ is) = (s', es)
          \<longrightarrow> (\<forall>j. named (acm_of s') j n \<longrightarrow> j < length (managers (acm_of s)))
          \<longrightarrow> cached (acm_of s') n \<noteq> None)"
proof -
  let ?s = "fst (run (server_step en bo ck) s [Cleaner arc, Resume t i])"
  have leak: "leaked n (acm_of ?s)" and len: "length (managers (acm_of ?s)) = length (managers (acm_of s))"
    using assms by (auto simp: server_step_def resume_def become_def leaked_def pm_cleanup_def pm_insert_def)
  have "cached (acm_of s') n \<noteq> None"
    if r: "run (server_step en bo ck) s ([Cleaner arc, Resume t i] @ is) = (s', es)"
      and fresh: "\<forall>j. named (acm_of s') j n \<longrightarrow> j < length (managers (acm_of s))" for "is" s' es
  proof -
    from r obtain fs where "run (server_step en bo ck) ?s is = (s', fs)" by (auto simp: run_append split: prod.splits)
    from server_traces [OF this] obtain js where js: "run (acm_step en bo ck) (acm_of ?s) js = (acm_of s', acm_did fs)"
      by (auto simp: traces_def)
    have "\<forall>ttl now. Spawn n ttl now \<notin> set js"
      using spawned_named [OF js] fresh len by (metis leD)
    from leaked_run [OF leak js this] show ?thesis by (simp add: leaked_def)
  qed
  moreover have "cached (acm_of (fst (run (server_step en bo ck) s [Resume t i, Cleaner arc]))) n = None"
    using assms(1-5) by (simp add: server_step_def resume_def become_def pm_cleanup_def pm_insert_def)
  ultimately show ?thesis by blast
qed

lemma turns_run:
  assumes "arc < length (managers a)" and "run (managed_step en bo ck) (managers a ! arc) is = (m, es)"
  shows "\<exists>fs. run (acm_step en bo ck) a (map (Turn arc) is) = (a\<lparr>managers := (managers a)[arc := m]\<rparr>, fs)"
  using assms
proof (induction "is" arbitrary: a es)
  case (Cons i "is")
  then obtain m1 es1 es2 where m1: "managed_step en bo ck (managers a ! arc) i = (m1, es1)"
    and r: "run (managed_step en bo ck) m1 is = (m, es2)" by (auto split: prod.splits)
  with Cons.IH [of "a\<lparr>managers := (managers a)[arc := m1]\<rparr>"] Cons.prems(1) obtain fs where
    "run (acm_step en bo ck) (a\<lparr>managers := (managers a)[arc := m1]\<rparr>) (map (Turn arc) is)
       = (a\<lparr>managers := (managers a)[arc := m]\<rparr>, fs)" by auto
  with m1 Cons.prems(1) show ?case by simp
next
  case Nil
  then show ?case by (cases a) (auto simp: list_update_same_conv)
qed

lemma daemons_run:
  assumes "run (acm_step en bo ck) (acm_of s) (map (Turn arc) is) = (a, fs)" and "\<forall>i \<in> set is. \<not> by_request i"
  shows "run (server_step en bo ck) s (map (Daemon arc) is) = (s\<lparr>acm_of := a\<rparr>, map Did fs)"
  using assms
proof (induction "is" arbitrary: s fs)
  case Nil
  then show ?case by (cases s) auto
next
  case (Cons i "is")
  then obtain b gs hs where b: "acm_step en bo ck (acm_of s) (Turn arc i) = (b, gs)"
    and r: "run (acm_step en bo ck) b (map (Turn arc) is) = (a, hs)" "fs = gs @ hs"
    by (auto simp del: acm_step.simps split: prod.splits)
  from b Cons.prems(2) have "server_step en bo ck s (Daemon arc i) = (s\<lparr>acm_of := b\<rparr>, map Did gs)"
    by (simp add: server_step_def del: acm_step.simps)
  with Cons.IH [of "s\<lparr>acm_of := b\<rparr>" hs] r Cons.prems(2) show ?case by simp
qed

section \<open>A session from end to end\<close>

text \<open>A client deploys a connector; the pod comes up; the client waits for it.\<close>

definition comes_online :: "nat \<Rightarrow> pod \<Rightarrow> (check_event \<times> nat) list \<Rightarrow> nat \<Rightarrow> nat \<Rightarrow> nat \<Rightarrow> nat \<Rightarrow> server_input list" where
  "comes_online arc p ready t1 t2 t3 t4 = map (Daemon arc) (is_checked p ready t1 t2 t3 t4)"

definition fetches :: "nat \<Rightarrow> nat \<Rightarrow> string \<Rightarrow> cluster \<Rightarrow> gc_input \<Rightarrow> nat \<Rightarrow> server_input list" where
  "fetches arc t n x g t5 =
     [Request (Get_Wait n) x, Resume t g, Daemon arc (OnOthers (OnHandle (Inbound None t5))),
      Daemon arc (OnOthers (OnHandle ShimResumes)), Resume t g]"

definition refreshes :: "nat \<Rightarrow> nat \<Rightarrow> gc_input \<Rightarrow> server_input list" where
  "refreshes arc t g = [Daemon arc (OnOthers (OnCollector (g\<lparr>gc_event := PodEvent None\<rparr>))), Resume t g]"

lemma fresh_queue:
  assumes "orderly s es" and "serving s es" and "length (managers (acm_of s)) \<le> arc"
  shows "lock_queue s arc = []"
proof (rule ccontr)
  assume "lock_queue s arc \<noteq> []"
  then obtain t where "t \<in> set (lock_queue s arc)" by (cases "lock_queue s arc") auto
  with assms(1) have t: "t < length (tasks s)" "lock_of (task_at s t) = Some arc" by (auto simp: orderly_def disciplined_def)
  from task_ok_at [OF assms(2) t(1)] t(2) assms(3) show False by (cases "task_at s t") (auto simp: named_def)
qed

text \<open>A manager whose pod is online and whose verdict nobody has fetched.\<close>

definition online :: "'b ew_env \<Rightarrow> string \<Rightarrow> 64 word \<Rightarrow> nat \<Rightarrow> pod \<Rightarrow> nat \<Rightarrow> ('b, 'c) server \<Rightarrow> bool" where
  "online en n ttl now p arc s \<longleftrightarrow> arc < length (managers (acm_of s)) \<and> lock_queue s arc = [] \<and> cached (acm_of s) n = Some arc
     \<and> (\<exists>w k. managers (acm_of s) ! arc = \<lparr>manager = (new_podmanager en n ttl now)
          \<lparr>watcher := w, gc_channel := [GcRunning p], result_channel := [Ok p]\<rparr>, health = k\<rparr>)"

lemmas server_eval = server_step_def acm_wait_def pm_get_def start_def ask_lock_def resume_def holds_lock_def
  wait_polled_def pm_wait_def wait_polls_def become_def managed_step_def sys_step_def turn_defs recv_def
  new_podmanager_def machine_simps handle_new_def inbound_def refresh_polled_def pm_refresh_def issue_def gc_new_def
  pod_ticketed_def finish_def unlock_def

lemma onlineE:
  assumes "online en n ttl now p arc s"
  obtains w k where "managers (acm_of s) ! arc = \<lparr>manager = (new_podmanager en n ttl now)
      \<lparr>watcher := w, gc_channel := [GcRunning p], result_channel := [Ok p]\<rparr>, health = k\<rparr>"
    "arc < length (managers (acm_of s))" "lock_queue s arc = []" "cached (acm_of s) n = Some arc"
  using assms by (auto simp: online_def)

lemma fetches_run:
  assumes "online en n ttl now p arc s"
  shows "tasks (fst (run (server_step en bo ck) s (fetches arc (length (tasks s)) n x g t5)))
    = tasks s @ [(Get_Wait n, WaitRefreshing arc p)]"
  using assms by (rule onlineE) (simp add: fetches_def server_eval)

lemma session_run:
  assumes "online en n ttl now p arc s"
    and "ticket_new ck n ttl (utc_now g) (instant_now g) = Done tk" and "patch_answer g = Ok ()"
  shows "tasks (fst (run (server_step en bo ck) s (fetches arc (length (tasks s)) n x g t5 @ refreshes arc (length (tasks s)) g)))
    = tasks s @ [(Get_Wait n, Answered (Waited (Ok \<lparr>ticket_pod = p, pod_ticket_ticket = tk\<rparr>)))]"
  using assms(1) by (rule onlineE) (use assms(2,3) in \<open>simp add: fetches_def refreshes_def server_eval\<close>)

lemma deploy_run:
  assumes "k8s_deploy (ctx_names x) (ctx_decode x) (ctx_api x) (hostname (ctx_vars x))
             (image_reference (ctx_vars x) tag) name (case ttl of None \<Rightarrow> DEFAULT_TTL | Some t \<Rightarrow> t) = Done (Ok q)"
    and "meta_name (metadata q) = Some n"
  shows "run (server_step en bo ck) s [Request (Post_Deploy tag name ttl) x, Resume (length (tasks s)) i] =
    (s\<lparr>acm_of := pm_insert n (length (managers (acm_of s)))
          (pm_spawn en n (case ttl of None \<Rightarrow> DEFAULT_TTL | Some t \<Rightarrow> t) (ctx_now x) (acm_of s)),
       tasks := tasks s @ [(Post_Deploy tag name ttl, Answered (Deployed (Ok q)))]\<rparr>, [])"
  using assms
  by (simp add: server_step_def acm_deploy_def resume_def start_def become_def resource_name_def)

lemma online_run:
  assumes "run (server_step en bo ck) server_new is = (s, es)"
    and "k8s_deploy (ctx_names x) (ctx_decode x) (ctx_api x) (hostname (ctx_vars x))
           (image_reference (ctx_vars x) tag) name (case ttl of None \<Rightarrow> DEFAULT_TTL | Some t \<Rightarrow> t) = Done (Ok q)"
    and "meta_name (metadata q) = Some n"
    and "running p" and "server_check_new (parse_endpoint en) p = Ok uri"
    and "\<forall>t. fst (bo_next bo t (bo_new bo t)) \<noteq> None"
  shows "\<exists>s' fs. run (server_step en bo ck) s ([Request (Post_Deploy tag name ttl) x, Resume (length (tasks s)) g]
       @ comes_online (length (managers (acm_of s))) p ready t1 t2 t3 t4) = (s', fs)
    \<and> tasks s' = tasks s @ [(Post_Deploy tag name ttl, Answered (Deployed (Ok q)))]
    \<and> online en n (case ttl of None \<Rightarrow> DEFAULT_TTL | Some t \<Rightarrow> t) (ctx_now x) p (length (managers (acm_of s))) s'"
proof -
  let ?ttl = "case ttl of None \<Rightarrow> DEFAULT_TTL | Some t \<Rightarrow> t" and ?arc = "length (managers (acm_of s))"
  define a where "a = pm_insert n ?arc (pm_spawn en n ?ttl (ctx_now x) (acm_of s))"
  define s1 where "s1 = s\<lparr>acm_of := a, tasks := tasks s @ [(Post_Deploy tag name ttl, Answered (Deployed (Ok q)))]\<rparr>"
  have r1: "run (server_step en bo ck) s [Request (Post_Deploy tag name ttl) x, Resume (length (tasks s)) g] = (s1, [])"
    using deploy_run [OF assms(2,3), of en bo ck s g] by (simp add: s1_def a_def)
  have new: "?arc < length (managers a)" "managers a ! ?arc = new_managed en n ?ttl (ctx_now x)" "cached a n = Some ?arc"
    by (simp_all add: a_def pm_insert_def pm_spawn_def)
  obtain m fs where m: "run (managed_step en bo ck) (managers a ! ?arc) (is_checked p ready t1 t2 t3 t4) = (m, fs)"
    by fastforce
  from turns_run [OF new(1) m] daemons_run [of en bo ck s1 ?arc "is_checked p ready t1 t2 t3 t4"] obtain gs where
    r2: "run (server_step en bo ck) s1 (comes_online ?arc p ready t1 t2 t3 t4)
      = (s1\<lparr>acm_of := a\<lparr>managers := (managers a)[?arc := m]\<rparr>\<rparr>, gs)"
    by (fastforce simp: s1_def comes_online_def is_checked_def)
  have "lock_queue s ?arc = []"
    using fresh_queue [OF run_orderly [OF assms(1)] run_serving [OF assms(1)]] by simp
  with m new is_checked_run [OF assms(4-6), of ck n ?ttl "ctx_now x" ready t1 t2 t3 t4]
  have "online en n ?ttl (ctx_now x) p ?arc (s1\<lparr>acm_of := a\<lparr>managers := (managers a)[?arc := m]\<rparr>\<rparr>)"
    by (auto simp: online_def s1_def)
  moreover have "run (server_step en bo ck) s ([Request (Post_Deploy tag name ttl) x, Resume (length (tasks s)) g]
      @ comes_online ?arc p ready t1 t2 t3 t4) = (s1\<lparr>acm_of := a\<lparr>managers := (managers a)[?arc := m]\<rparr>\<rparr>, gs)"
    by (simp only: run_append r1 r2 prod.case append_Nil)
  ultimately show ?thesis by (intro exI conjI) (assumption | simp add: s1_def)+
qed


section \<open>Evaluation\<close>

definition deployed :: "(nat, nat) server" where
  "deployed = \<lparr>acm_of = \<lparr>managers = [mp0], cached = [''conn-1'' \<mapsto> 0], cleaners = [(0, ''conn-1'')]\<rparr>,
     tasks = [(Post_Deploy ''t'' ''Oracle v1'' None, Answered (Deployed (Ok up_pod)))], lock_queue = (\<lambda>_. [])\<rparr>"

lemma half_second_grants: "\<forall>t. fst (bo_next (half_second 30000) t (bo_new (half_second 30000) t)) \<noteq> None"
  by (simp add: half_second_first)

lemma deploys_run: "run conn_step server_new deploys = (deployed, [])"
  using deploy_run [of quiet "''t''" "''Oracle v1''" None up_pod "''conn-1''" quarter_hour "half_second 30000" wide_clock server_new some_gc]
    quiet_deploy [of "image_reference (ctx_vars quiet) ''t''" DEFAULT_TTL] up_pod_name
  by (simp add: deployed_def deploys_def server_new_def acm_new_def pm_spawn_def pm_insert_def quiet_def del: run.simps(2))

definition goes_online :: "server_input list" where
  "goes_online = deploys @ comes_online 0 up_pod [] 900 1400 1500 1600"

lemma goes_online_run:
  obtains s fs where "run conn_step server_new goes_online = (s, fs)"
    "tasks s = [(Post_Deploy ''t'' ''Oracle v1'' None, Answered (Deployed (Ok up_pod)))]"
    "online quarter_hour ''conn-1'' DEFAULT_TTL 0 up_pod 0 s"
proof -
  have "server_check_new (parse_endpoint quarter_hour) up_pod = Ok ''http://10-0-0-9.ocf.pod:8080''"
    by (simp add: server_check_new_def up_pod_address quarter_hour_def)
  from online_run [of quarter_hour "half_second 30000" wide_clock "[]" server_new "[]" quiet "''t''" "''Oracle v1''" None,
      OF _ _ up_pod_name up_pod_running this half_second_grants, of some_gc "[]" 900 1400 1500 1600]
    quiet_deploy [of "image_reference (ctx_vars quiet) ''t''" DEFAULT_TTL] that
  show ?thesis by (auto simp: goes_online_def deploys_def server_new_def acm_new_def quiet_def simp del: run.simps(2))
qed

lemma leasing_ticket:
  "ticket_new wide_clock ''conn-1'' DEFAULT_TTL (utc_now some_gc) (instant_now some_gc) = Done leasing"
  using leasing_issue(1) [of "PodEvent None"] by (simp add: issue_def gc_new_def)

theorem deploy_registers_witness:
  "\<exists>s'. run conn_step server_new [Request (Post_Deploy ''t'' ''Oracle v1'' None) quiet, Resume 0 some_gc] = (s', [])
     \<and> task_at s' 0 = Answered (Deployed (Ok up_pod)) \<and> pm_get (acm_of s') ''conn-1'' = Ok 0"
  using deploy_registers [where x = quiet and tag = "''t''" and name = "''Oracle v1''" and ttl = None and r = "Ok up_pod"
      and s = "server_new :: (nat, nat) server" and i = some_gc and en = quarter_hour and bo = "half_second 30000" and ck = wide_clock]
    quiet_deploy up_pod_name
  by (auto simp: server_new_def acm_new_def simp del: run.simps(2))



theorem cache_cleanup_race_witness:
  "\<exists>s :: (nat, nat) server. cached (acm_of (fst (run conn_step s [Resume 0 some_gc, Cleaner 0]))) ''conn-1'' = None
     \<and> cached (acm_of (fst (run conn_step s [Cleaner 0, Resume 0 some_gc]))) ''conn-1'' \<noteq> None"
proof -
  define m where "m = mp0\<lparr>manager := pm0\<lparr>watcher := (watcher pm0)\<lparr>ew_phase := EwReturned\<rparr>,
    collector := (collector pm0)\<lparr>gc_phase := GcStopped\<rparr>, upper := handle_new\<lparr>shim := ShimDone\<rparr>\<rparr>\<rparr>"
  define s :: "(nat, nat) server" where "s = \<lparr>acm_of = \<lparr>managers = [m], cached = (\<lambda>_. None), cleaners = [(0, ''conn-1'')]\<rparr>,
    tasks = [(Post_Deploy ''t'' ''Oracle v1'' None, Inserting up_pod ''conn-1'' 0)], lock_queue = (\<lambda>_. [])\<rparr>"
  obtain s' es where r: "run conn_step s ([Cleaner 0, Resume 0 some_gc] @ []) = (s', es)" by fastforce
  then have "length (managers (acm_of s')) = 1"
    by (auto simp: s_def server_step_def pm_cleanup_def resume_def become_def pm_insert_def split: if_splits)
  then have "\<forall>j. named (acm_of s') j ''conn-1'' \<longrightarrow> j < length (managers (acm_of s))" by (simp add: named_def s_def)
  moreover have "joined m" by (simp add: m_def joined_def)
  then have race: "0 < length (tasks s)" "task_at s 0 = Inserting up_pod ''conn-1'' 0" "0 < length (managers (acm_of s))"
    "joined (managers (acm_of s) ! 0)" "map_of (cleaners (acm_of s)) 0 = Some ''conn-1''"
    "\<forall>c \<in> set (cleaners (acm_of s)). snd c = ''conn-1'' \<longrightarrow> fst c = 0"
    by (simp_all add: s_def)
  ultimately have "cached (acm_of s') ''conn-1'' \<noteq> None"
    using r cache_cleanup_race [OF race, of quarter_hour "half_second 30000" wide_clock some_gc] by blast
  moreover have "s' = fst (run conn_step s [Cleaner 0, Resume 0 some_gc])" using r by (simp del: run.simps(2))
  ultimately show ?thesis
    using cache_cleanup_race [OF race, of quarter_hour "half_second 30000" wide_clock some_gc] by blast
qed

end
