(* ===== verification/Request_Progress.thy ===== *)
theory Request_Progress
  imports Service
begin

text \<open>
  No request of the connector manager is left behind: once the pod of a manager is over, turns of
  its coroutines and of its requests answer all of them. The first in the queue of the mutex can
  always go on, since its wait meets the shim at the barrier or finds its end, and a refresh finds
  the collector gone.
\<close>

section \<open>The handle in its place\<close>

abbreviation handle_of :: "('b, 'c) acm \<Rightarrow> nat \<Rightarrow> handle" where
  "handle_of a arc \<equiv> upper (manager (managers a ! arc))"

lemma sys_step_meeting: "meeting (upper s) \<Longrightarrow> sys_step en ck s i = (s', es) \<Longrightarrow> meeting (upper s')"
  by (cases i) (auto simp: sys_step_def turn_defs meeting_step
      split: prod.splits option.splits gc_event.splits handle_input.splits if_splits)

lemma managed_meeting:
  assumes "run (managed_step en bo ck) (new_managed en pod ttl now) is = (m, es)"
  shows "meeting (upper (manager m))"
proof (rule run_keeps [where P = "\<lambda>m. meeting (upper (manager m))", OF assms])
  show "meeting (upper (manager (new_managed en pod ttl now)))"
    by (simp add: new_managed_def new_podmanager_def meeting_new)
next
  fix m i m' es
  assume "meeting (upper (manager m))" and "managed_step en bo ck m i = (m', es)"
  then show "meeting (upper (manager m'))"
    using run_keeps [where P = "\<lambda>s. meeting (upper s)", OF manager_step] sys_step_meeting by metis
qed

text \<open>A turn of the handle, seen from the pod managers.\<close>

lemma handle_turn_acm:
  assumes "arc < length (managers a)" and "\<forall>x now. h \<noteq> Inbound x now"
  shows "acm_step en bo ck a (Turn arc (OnOthers (OnHandle h))) =
    (a\<lparr>managers := (managers a)[arc := (managers a ! arc)\<lparr>manager := (manager (managers a ! arc))
         \<lparr>upper := fst (handle_step (handle_of a arc) h)\<rparr>\<rparr>]\<rparr>,
     map (\<lambda>e. (arc, ByManager (ByHandle e))) (snd (handle_step (handle_of a arc) h)))"
  using assms
  by (cases h) (auto simp: managed_step_def sys_step_def handle_turn_def comp_def split: prod.splits)

definition same_rest :: "nat \<Rightarrow> ('b, 'c) acm \<Rightarrow> ('b, 'c) acm \<Rightarrow> bool" where
  "same_rest arc a a' \<longleftrightarrow> length (managers a') = length (managers a)
     \<and> watcher (manager (managers a' ! arc)) = watcher (manager (managers a ! arc))
     \<and> collector (manager (managers a' ! arc)) = collector (manager (managers a ! arc))
     \<and> (\<forall>j. j \<noteq> arc \<longrightarrow> managers a' ! j = managers a ! j)"

lemma handle_run_acm:
  assumes "arc < length (managers a)" and "\<forall>x now. Inbound x now \<notin> set hs"
    and "run handle_step (handle_of a arc) hs = (h', hes)"
    and "run (acm_step en bo ck) a (map (Turn arc) (map (\<lambda>h. OnOthers (OnHandle h)) hs)) = (a', es)"
  shows "handle_of a' arc = h' \<and> es = map (\<lambda>e. (arc, ByManager (ByHandle e))) hes \<and> same_rest arc a a'"
  using assms
proof (induction hs arbitrary: a es hes)
  case (Cons h hs)
  from Cons.prems(3) obtain h1 fs gs where 1: "handle_step (handle_of a arc) h = (h1, fs)"
    "run handle_step h1 hs = (h', gs)" "hes = fs @ gs" by (auto split: prod.splits)
  define b where "b = a\<lparr>managers := (managers a)[arc := (managers a ! arc)\<lparr>manager := (manager (managers a ! arc))
         \<lparr>upper := h1\<rparr>\<rparr>]\<rparr>"
  have "acm_step en bo ck a (Turn arc (OnOthers (OnHandle h))) = (b, map (\<lambda>e. (arc, ByManager (ByHandle e))) fs)"
    by (subst handle_turn_acm) (use Cons.prems(1,2) 1(1) in \<open>auto simp: b_def\<close>)
  with Cons.prems(4) obtain es' where
    2: "run (acm_step en bo ck) b (map (Turn arc) (map (\<lambda>h. OnOthers (OnHandle h)) hs)) = (a', es')"
      "es = map (\<lambda>e. (arc, ByManager (ByHandle e))) fs @ es'"
    by (auto simp del: acm_step.simps split: prod.splits)
  have b: "arc < length (managers b)" "handle_of b arc = h1" "same_rest arc a b"
    using Cons.prems(1) by (simp_all add: b_def same_rest_def)
  with Cons.IH [of b gs es'] Cons.prems(2) 1(2) 2(1) have
    "handle_of a' arc = h'" "es' = map (\<lambda>e. (arc, ByManager (ByHandle e))) gs" "same_rest arc b a'" by auto
  with b(3) 1(3) 2(2) show ?case by (simp add: same_rest_def)
qed (simp add: same_rest_def)

lemma pm_wait_handle:
  assumes "arc < length (managers a)" and "pm_wait en bo ck called arc a = (a', es, r)"
    and "run handle_step (handle_of a arc) ((if called then [] else [WaitCalled]) @ [WaitResumes, WaitReceives]) = (h', hes)"
  shows "handle_of a' arc = h'" and "same_rest arc a a'"
    and "r = (case hes of [] \<Rightarrow> None | Returned x # _ \<Rightarrow> Some x)"
proof -
  from assms(2) have "run (acm_step en bo ck) a (map (Turn arc) (wait_polls called)) = (a', es)"
    and r: "r = returned (map snd es)" by (auto simp: pm_wait_def split: prod.splits)
  from handle_run_acm [OF assms(1) _ assms(3)] this(1)
  have "handle_of a' arc = h' \<and> es = map (\<lambda>e. (arc, ByManager (ByHandle e))) hes \<and> same_rest arc a a'"
    by (auto simp: wait_polls_def)
  with r show "handle_of a' arc = h'" "same_rest arc a a'" "r = (case hes of [] \<Rightarrow> None | Returned x # _ \<Rightarrow> Some x)"
    by (auto split: list.splits handle_effect.splits)
qed

section \<open>A waiting task has called its handle\<close>

definition waits :: "('b, 'c) acm \<Rightarrow> nat \<Rightarrow> bool" where
  "waits a arc \<longleftrightarrow> arc < length (managers a) \<and> waiter (handle_of a arc) \<noteq> WaitIdle"

lemma handle_waiter_own: "handle_step h i = (h', es) \<Longrightarrow> i \<noteq> WaitCalled \<Longrightarrow> i \<noteq> WaitResumes \<Longrightarrow> i \<noteq> WaitReceives
    \<Longrightarrow> waiter h' = waiter h"
  by (cases i) (auto simp: machine_simps split: handle_splits)

lemma sys_step_waiter:
  assumes "sys_step en ck s i = (s', es)" and "\<forall>h. i = OnHandle h \<longrightarrow> h \<noteq> WaitCalled \<and> h \<noteq> WaitResumes \<and> h \<noteq> WaitReceives"
  shows "waiter (upper s') = waiter (upper s)"
  using assms
  by (cases i) (auto simp: sys_step_def turn_defs handle_waiter_own
      split: prod.splits option.splits gc_event.splits handle_input.splits if_splits)

lemma managed_step_waiter:
  assumes "managed_step en bo ck m i = (m', es)" and "\<not> by_request i \<or> (\<exists>j. i = OnOthers (OnCollector j))"
  shows "waiter (upper (manager m')) = waiter (upper (manager m))"
proof (rule run_keeps [where P = "\<lambda>s. waiter (upper s) = waiter (upper (manager m))", OF manager_step [OF assms(1)]])
  fix s j s' fs
  assume w: "waiter (upper s) = waiter (upper (manager m))" and j: "j \<in> set (sys_inputs m i)" and "sys_step en ck s j = (s', fs)"
  moreover from j assms(2) have "\<forall>h. j = OnHandle h \<longrightarrow> h \<noteq> WaitCalled \<and> h \<noteq> WaitResumes \<and> h \<noteq> WaitReceives"
    by (auto simp: sys_inputs_def split: managed_input.splits sys_input.splits ew_phase.splits option.splits)
  ultimately show "waiter (upper s') = waiter (upper (manager m))" using sys_step_waiter by metis
qed simp

lemma waits_step:
  assumes "waits a arc" and "acm_step en bo ck a i = (a', es)"
    and "\<forall>j. i = Turn arc j \<longrightarrow> \<not> by_request j \<or> (\<exists>k. j = OnOthers (OnCollector k))"
  shows "waits a' arc"
  using assms
  by (cases i) (auto simp: waits_def pm_spawn_def pm_insert_def pm_cleanup_def nth_append nth_list_update
      dest: managed_step_waiter split: prod.splits option.splits if_splits)

lemma waits_elsewhere:
  assumes "waits a arc" and "run (acm_step en bo ck) a (map (Turn j) is) = (a', es)" and "j \<noteq> arc"
  shows "waits a' arc"
  by (rule run_keeps [where P = "\<lambda>a. waits a arc", OF assms(2,1)]) (use assms(3) in \<open>auto intro: waits_step simp del: acm_step.simps\<close>)

lemma pm_wait_waits:
  assumes "pm_wait en bo ck called arc a = (a', es, None)" and "arc < length (managers a)" and "called \<longrightarrow> waits a arc"
  shows "waits a' arc"
proof -
  obtain h' hes where h: "run handle_step (handle_of a arc) ((if called then [] else [WaitCalled]) @ [WaitResumes, WaitReceives]) = (h', hes)"
    by fastforce
  note facts = pm_wait_handle [OF assms(2,1) h]
  from facts(3) have "hes = []" by (auto split: list.splits handle_effect.splits)
  with h wait_goes_on [of "handle_of a arc" called h'] assms(3) have "waiter h' \<noteq> WaitIdle" by (simp add: waits_def)
  with facts assms(2) show ?thesis by (simp add: waits_def same_rest_def)
qed

definition engaged :: "('b, 'c) server \<Rightarrow> server_effect list \<Rightarrow> bool" where
  "engaged s es \<longleftrightarrow> orderly s es \<and> serving s es
     \<and> (\<forall>t < length (tasks s). \<forall>arc. task_at s t = Waiting arc \<longrightarrow> waits (acm_of s) arc)"

lemma waiting_only:
  assumes "orderly s es" and "t < length (tasks s)" and "holds_lock s arc t \<or> inside (task_at s t) \<and> lock_of (task_at s t) = Some arc"
    and "u < length (tasks s)" and "task_at s u = Waiting arc"
  shows "u = t"
proof -
  from assms have "disciplined s" by (simp add: orderly_def)
  with assms inside_holds [of s] have "holds_lock s arc t" "holds_lock s arc u" by auto
  then show ?thesis by (auto simp: holds_lock_def split: list.splits)
qed

lemma wait_polled_engaged:
  assumes "engaged s es" and "t < length (tasks s)" and "named (acm_of s) arc n"
    and "holds_lock s arc t \<or> inside (task_at s t) \<and> lock_of (task_at s t) = Some arc"
    and "called \<longrightarrow> task_at s t = Waiting arc"
    and "wait_polled en bo ck called t arc s = (s', es')" and "u < length (tasks s')" and "task_at s' u = Waiting j"
  shows "waits (acm_of s') j"
proof -
  obtain a fs r where p: "pm_wait en bo ck called arc (acm_of s) = (a, fs, r)" by (metis prod.collapse)
  with assms(6) have s': "acm_of s' = a" "length (tasks s') = length (tasks s)"
    "\<forall>u. u \<noteq> t \<longrightarrow> tasks s' ! u = tasks s ! u" "task_at s' t = Waiting j \<Longrightarrow> j = arc \<and> r = None"
    using assms(2) by (auto simp: wait_polled_def become_def finish_def unlock_def split: option.splits result.splits)
  show ?thesis
  proof (cases "u = t")
    case True
    with assms(8) s' p have "j = arc" "pm_wait en bo ck called arc (acm_of s) = (a, fs, None)" by auto
    with pm_wait_waits [OF this(2)] assms(1,2,3,5) s'(1) show ?thesis by (auto simp: named_def engaged_def)
  next
    case False
    with assms(7,8) s' have u: "u < length (tasks s)" "task_at s u = Waiting j" by auto
    with False assms(1,2,4) waiting_only have "j \<noteq> arc" by (metis engaged_def)
    moreover have "waits (acm_of s) j" using assms(1) u by (simp add: engaged_def)
    moreover have "run (acm_step en bo ck) (acm_of s) (map (Turn arc) (wait_polls called)) = (a, fs)"
      using p by (auto simp: pm_wait_def split: prod.splits)
    ultimately show ?thesis using waits_elsewhere s'(1) by metis
  qed
qed

lemma refresh_polled_engaged:
  assumes "engaged s es" and "t < length (tasks s)"
    and "refresh_polled en bo ck i t arc ans s = (s', es')" and "u < length (tasks s')" and "task_at s' u = Waiting j"
  shows "waits (acm_of s') j"
proof (cases "pm_refresh en bo ck i arc (acm_of s)")
  case (Some x)
  then obtain a fs r where p: "pm_refresh en bo ck i arc (acm_of s) = Some (a, fs, r)" by (cases x) auto
  then obtain k where "acm_step en bo ck (acm_of s) (Turn arc (OnOthers (OnCollector k))) = (a, fs)"
    by (auto simp: pm_refresh_def simp del: acm_step.simps split: if_splits prod.splits)
  from waits_step [OF _ this] have "waits (acm_of s) j \<Longrightarrow> waits a j" by auto
  moreover have "u < length (tasks s) \<and> task_at s u = Waiting j" "acm_of s' = a"
    using assms(2-5) p by (auto simp: refresh_polled_def finish_def unlock_def become_def nth_list_update split: if_splits)
  ultimately show ?thesis using assms(1) by (auto simp: engaged_def)
qed (use assms in \<open>auto simp: refresh_polled_def engaged_def\<close>)

lemma resume_engaged:
  assumes "engaged s es" and "resume en bo ck i t s = (s', es')" and "u < length (tasks s')" and "task_at s' u = Waiting j"
  shows "waits (acm_of s') j"
proof (cases "t < length (tasks s)")
  case True
  have "serving s es" using assms(1) by (simp add: engaged_def)
  note ok = task_ok_at [OF this True]
  have same: "waits (acm_of s) j" if "tasks s' = tasks s" using that assms by (auto simp: engaged_def)
  show ?thesis
  proof (cases "task_at s t")
    case (Inserting pod n arc)
    with assms True have "waits (acm_of s) j" "acm_of s' = pm_insert n arc (acm_of s)"
      by (auto simp: resume_def become_def engaged_def nth_list_update split: if_splits)
    then show ?thesis by (simp add: waits_def pm_insert_def)
  next
    case (WaitLocking arc)
    show ?thesis
    proof (cases "holds_lock s arc t")
      case True
      from ok WaitLocking obtain n where "named (acm_of s) arc n" by auto
      with True WaitLocking assms \<open>t < length (tasks s)\<close> show ?thesis
        using wait_polled_engaged [OF assms(1) \<open>t < length (tasks s)\<close>, of arc n False en bo ck s' es' u j]
        by (simp add: resume_def)
    qed (use WaitLocking assms same True in \<open>simp add: resume_def\<close>)
  next
    case (Waiting arc)
    from ok Waiting obtain n where "named (acm_of s) arc n" by auto
    with Waiting assms True show ?thesis
      using wait_polled_engaged [OF assms(1) True, of arc n True en bo ck s' es' u j] by (simp add: resume_def)
  next
    case (RefreshLocking arc)
    with assms True show ?thesis
      by (auto simp: resume_def become_def engaged_def nth_list_update split: if_splits)
  qed (use assms True same in \<open>auto simp: resume_def dest: refresh_polled_engaged\<close>)
qed (use assms in \<open>auto simp: resume_def engaged_def\<close>)

lemma accept_engaged:
  assumes "engaged s es" and "accept en x req s = (s', es')" and "u < length (tasks s')" and "task_at s' u = Waiting j"
  shows "waits (acm_of s') j"
proof -
  obtain k where "tasks s' = tasks s @ [(req, k)]" "\<forall>arc. k \<noteq> Waiting arc"
    using assms(2) by (cases req) (auto simp: acm_wait_def acm_refresh_def acm_deploy_def start_def ask_lock_def Let_def
        split: prod.splits result.splits outcome.splits)
  with assms have "waits (acm_of s) j" by (auto simp: engaged_def nth_append less_Suc_eq split: if_splits)
  moreover have "acm_of s' = acm_of s \<or> (\<exists>n ttl now. acm_of s' = pm_spawn en n ttl now (acm_of s))"
    using accept_acm [OF assms(2)] by blast
  ultimately show ?thesis by (auto simp: waits_def pm_spawn_def nth_append)
qed

interpretation engagement: traced_daemon "server_step en bo ck" "\<lambda>_. False" engaged
proof unfold_locales
  fix s es i s' es'
  assume s: "engaged s es" and st: "server_step en bo ck s i = (s', es')"
  have "waits (acm_of s') j" if "u < length (tasks s')" "task_at s' u = Waiting j" for u j
  proof (cases i)
    case (Daemon arc k)
    have "waits (acm_of s) j" using s st Daemon that
      by (auto simp: server_step_def engaged_def simp del: acm_step.simps split: prod.splits if_splits)
    with waits_step [OF this] st Daemon show ?thesis
      by (auto simp: server_step_def simp del: acm_step.simps split: prod.splits if_splits)
  next
    case (Cleaner arc)
    with s st that have "waits (acm_of s) j" by (auto simp: server_step_def engaged_def)
    with waits_step [OF this, of en _ _ "Cleanup arc"] st Cleaner show ?thesis by (auto simp: server_step_def)
  qed (use s st that in \<open>auto simp: server_step_def intro: accept_engaged resume_engaged\<close>)
  moreover have "orderly s' (es @ es')" "serving s' (es @ es')"
    using s mutex.inv_step_any [OF _ st] service.inv_step_any [OF _ st] by (auto simp: engaged_def)
  ultimately show "engaged s' (es @ es')" by (simp add: engaged_def)
qed

lemma server_new_engaged: "engaged server_new []"
  using server_new_orderly server_new_serving by (simp add: engaged_def) (simp add: server_new_def)

lemma run_engaged: "run (server_step en bo ck) server_new is = (s, es) \<Longrightarrow> engaged s es"
  using engagement.run_inv [OF server_new_engaged] by simp

section \<open>When the pod is over\<close>

text \<open>The watcher and the collector of a pod manager have ended; what is left are its clients.\<close>

definition closed :: "nat \<Rightarrow> ('b, 'c) acm \<Rightarrow> bool" where
  "closed arc a \<longleftrightarrow> arc < length (managers a) \<and> watcher_gone (manager (managers a ! arc))
     \<and> collector_gone (manager (managers a ! arc)) \<and> meeting (handle_of a arc)"

lemma sys_step_gone:
  assumes "watcher_gone s" and "collector_gone s" and "sys_step en ck s i = (s', es)"
  shows "watcher_gone s' \<and> collector_gone s'"
  using assms
  by (cases i) (auto simp: sys_step_def turn_defs ew.halted_step gc.halted_step
      split: prod.splits option.splits gc_event.splits handle_input.splits if_splits)

lemma closed_step:
  assumes "closed arc a" and "acm_step en bo ck a i = (a', es)"
  shows "closed arc a'"
proof -
  let ?P = "\<lambda>s. watcher_gone s \<and> collector_gone s \<and> meeting (upper s)"
  have step: "?P s'" if "?P s" and "sys_step en ck s j = (s', fs)" for s j s' fs
    using that(1) sys_step_gone [OF _ _ that(2)] sys_step_meeting [OF _ that(2)] by simp
  have "?P (manager m')" if "?P (manager m)" and "managed_step en bo ck m j = (m', fs)" for m j m' fs
    by (rule run_keeps [where P = ?P, OF manager_step [OF that(2)] that(1)]) (rule step)
  note keep = this
  show ?thesis
  proof (cases i)
    case (Turn j k)
    obtain m fs where m: "managed_step en bo ck (managers a ! j) k = (m, fs)" by fastforce
    with Turn assms keep [OF _ m] show ?thesis
      by (cases "j = arc") (auto simp: closed_def split: if_splits)
  qed (use assms in \<open>auto simp: closed_def pm_spawn_def pm_insert_def pm_cleanup_def nth_append
        split: option.splits if_splits\<close>)
qed

lemma closed_server:
  assumes "closed arc (acm_of s)" and "run (server_step en bo ck) s is = (s', es)"
  shows "closed arc (acm_of s')"
proof -
  from server_traces [OF assms(2)] obtain js where "run (acm_step en bo ck) (acm_of s) js = (acm_of s', acm_did es)"
    by (auto simp: traces_def)
  from run_keeps [where P = "closed arc", OF this assms(1)] closed_step show ?thesis by blast
qed

lemma answered_stays:
  assumes "t < length (tasks s) \<and> task_at s t = Answered ans" and "server_step en bo ck s i = (s', es)"
  shows "t < length (tasks s') \<and> task_at s' t = Answered ans"
proof (cases i)
  case (Request req x)
  with assms show ?thesis
    by (cases req) (auto simp: server_step_def acm_wait_def acm_refresh_def start_def ask_lock_def nth_append
        split: prod.splits result.splits)
next
  case (Resume u g)
  with assms show ?thesis
    by (cases "u = t") (auto simp: server_step_def resume_def wait_polled_def refresh_polled_def become_def finish_def
        unlock_def split: prod.splits result.splits option.splits task.splits if_splits)
qed (use assms in \<open>auto simp: server_step_def simp del: acm_step.simps split: prod.splits if_splits\<close>)

text \<open>Runs that only resume requests and the coroutines of one pod manager.\<close>

fun local_to :: "nat \<Rightarrow> server_input \<Rightarrow> bool" where
  "local_to arc (Resume _ _) = True"
| "local_to arc (Daemon j _) = (j = arc)"
| "local_to arc _ = False"

definition reaches ::
  "'b ew_env \<Rightarrow> 'c backoff_ops \<Rightarrow> clock \<Rightarrow> nat \<Rightarrow> ('b, 'c) server \<Rightarrow> ('b, 'c) server \<Rightarrow> bool" where
  "reaches en bo ck arc s s' \<longleftrightarrow>
     (\<exists>is es. run (server_step en bo ck) s is = (s', es) \<and> (\<forall>i \<in> set is. local_to arc i))"

lemma reaches_refl: "reaches en bo ck arc s s"
  unfolding reaches_def by (intro exI [where x = "[]"]) simp

lemma reaches_trans:
  assumes "reaches en bo ck arc s t" and "reaches en bo ck arc t u"
  shows "reaches en bo ck arc s u"
proof -
  from assms obtain "is" es js fs where "run (server_step en bo ck) s is = (t, es)" "\<forall>i \<in> set is. local_to arc i"
    "run (server_step en bo ck) t js = (u, fs)" "\<forall>i \<in> set js. local_to arc i"
    by (auto simp: reaches_def)
  then show ?thesis unfolding reaches_def by (intro exI [where x = "is @ js"]) (auto simp: run_append)
qed

lemma reaches_step: "server_step en bo ck s i = (s', es) \<Longrightarrow> local_to arc i \<Longrightarrow> reaches en bo ck arc s s'"
  unfolding reaches_def by (intro exI [where x = "[i]"] exI [where x = es]) simp

lemma local_tasks:
  assumes "reaches en bo ck arc s s'"
  shows "length (tasks s') = length (tasks s)"
proof -
  from assms obtain "is" es where r: "run (server_step en bo ck) s is = (s', es)" and l: "\<forall>i \<in> set is. local_to arc i"
    by (auto simp: reaches_def)
  have "length (tasks u') = length (tasks u)" if "local_to arc i" "server_step en bo ck u i = (u', fs)" for u i u' fs
    using that by (cases i) (auto simp: server_step_def resume_def wait_polled_def refresh_polled_def become_def
        finish_def unlock_def simp del: acm_step.simps
        split: prod.splits result.splits option.splits task.splits if_splits)
  with l show ?thesis by (intro run_keeps [where P = "\<lambda>u. length (tasks u) = length (tasks s)", OF r]) auto
qed

text \<open>The first in the queue gets further: its refresh is refused, its wait ends.\<close>

definition served :: "nat \<Rightarrow> nat \<Rightarrow> ('b, 'c) server \<Rightarrow> ('b, 'c) server \<Rightarrow> bool" where
  "served arc t s s' \<longleftrightarrow> lock_queue s' arc = tl (lock_queue s arc) \<and> (\<exists>ans. task_at s' t = Answered ans)"

definition got_pod :: "nat \<Rightarrow> nat \<Rightarrow> ('b, 'c) server \<Rightarrow> ('b, 'c) server \<Rightarrow> bool" where
  "got_pod arc t s s' \<longleftrightarrow> lock_queue s' = lock_queue s \<and> t < length (tasks s') \<and> (\<exists>p. task_at s' t = WaitRefreshing arc p)"

lemma refresh_served:
  assumes "closed arc (acm_of s)" and "t < length (tasks s)"
    and "task_at s t = Refreshing arc \<or> (\<exists>p. task_at s t = WaitRefreshing arc p)"
  shows "\<exists>s'. reaches en bo ck arc s s' \<and> served arc t s s'"
proof -
  fix g :: gc_input
  obtain s' es where st: "server_step en bo ck s (Resume t g) = (s', es)" by fastforce
  from assms(1) have "gc_phase (collector (manager (managers (acm_of s) ! arc))) \<noteq> GcWaiting" by (auto simp: closed_def)
  then have "\<exists>a fs r. pm_refresh en bo ck g arc (acm_of s) = Some (a, fs, r)"
    by (simp add: pm_refresh_def del: acm_step.simps split: prod.split)
  then obtain a fs r where "pm_refresh en bo ck g arc (acm_of s) = Some (a, fs, r)" by blast
  with st assms(2,3) have "served arc t s s'"
    by (auto simp: served_def server_step_def resume_def refresh_polled_def finish_def unlock_def become_def)
  with reaches_step [OF st] show ?thesis by auto
qed

lemma wait_polled_reaches:
  assumes "wait_polled en bo ck called t arc s = (s', es)" and "t < length (tasks s)"
  shows "served arc t s s' \<or> got_pod arc t s s'
    \<or> lock_queue s' = lock_queue s \<and> t < length (tasks s') \<and> task_at s' t = Waiting arc
       \<and> snd (snd (pm_wait en bo ck called arc (acm_of s))) = None"
  using assms
  by (auto simp: wait_polled_def served_def got_pod_def finish_def unlock_def become_def
      split: prod.splits option.splits result.splits)

lemma inbound_acm:
  assumes "closed arc a" and "acm_step en bo ck a (Turn arc (OnOthers (OnHandle (Inbound None now)))) = (a', es)"
  shows "\<exists>x. handle_of a' arc = fst (handle_step (handle_of a arc) (Inbound x now))"
  using assms
  by (auto simp: closed_def managed_step_def sys_step_def handle_recv_def handle_turn_def recv_def handle_step_def
      split: prod.splits list.splits if_splits)

lemma wait_served:
  assumes "closed arc (acm_of s)" and "t < length (tasks s)" and "task_at s t = Waiting arc" and "waits (acm_of s) arc"
  shows "\<exists>s'. reaches en bo ck arc s s' \<and> (served arc t s s' \<or> got_pod arc t s s')"
proof -
  fix g :: gc_input
  let ?d = "\<lambda>h. Daemon arc (OnOthers (OnHandle h))"
  obtain a1 fs1 where a1: "acm_step en bo ck (acm_of s) (Turn arc (OnOthers (OnHandle (Inbound None 0)))) = (a1, fs1)"
    by fastforce
  from closed_step [OF assms(1) a1] have c1: "closed arc a1" .
  obtain a2 fs2 where a2: "acm_step en bo ck a1 (Turn arc (OnOthers (OnHandle ShimResumes))) = (a2, fs2)" by fastforce
  from closed_step [OF c1 a2] have c2: "closed arc a2" .
  define s2 where "s2 = s\<lparr>acm_of := a2\<rparr>"
  have r2: "run (server_step en bo ck) s [?d (Inbound None 0), ?d ShimResumes] = (s2, map Did fs1 @ map Did fs2)"
    using a1 a2 by (simp add: server_step_def s2_def del: acm_step.simps)
  obtain x where x: "handle_of a1 arc = fst (handle_step (handle_of (acm_of s) arc) (Inbound x 0))"
    using inbound_acm [OF assms(1) a1] by blast
  have "arc < length (managers a1)" using c1 by (simp add: closed_def)
  from handle_turn_acm [OF this, of ShimResumes] a2
  have "handle_of a2 arc = fst (handle_step (handle_of a1 arc) ShimResumes)"
    using c1 by (auto simp: closed_def simp del: acm_step.simps)
  with x wait_ends [of "handle_of (acm_of s) arc" x 0] assms(1,4)
  have ends: "snd (run handle_step (handle_of a2 arc) [WaitResumes, WaitReceives]) \<noteq> []"
    by (auto simp: closed_def waits_def handle_step_def split: prod.splits)
  obtain s' es where st: "server_step en bo ck s2 (Resume t g) = (s', es)" by fastforce
  then have w: "wait_polled en bo ck True t arc s2 = (s', es)"
    using assms(2,3) by (simp add: server_step_def resume_def s2_def)
  obtain a3 fs3 r where p: "pm_wait en bo ck True arc a2 = (a3, fs3, r)" by (metis prod.collapse)
  obtain h' hes where h: "run handle_step (handle_of a2 arc) [WaitResumes, WaitReceives] = (h', hes)" by fastforce
  have "arc < length (managers a2)" using c2 by (simp add: closed_def)
  from pm_wait_handle(3) [OF this p] h ends have "r \<noteq> None"
    by (auto split: list.splits handle_effect.splits)
  with wait_polled_reaches [OF w] assms(2) p have "served arc t s2 s' \<or> got_pod arc t s2 s'"
    by (auto simp: s2_def)
  then have "served arc t s s' \<or> got_pod arc t s s'" by (simp add: served_def got_pod_def s2_def)
  moreover have "reaches en bo ck arc s s2"
    unfolding reaches_def using r2 by (intro exI [where x = "[?d (Inbound None 0), ?d ShimResumes]"]) auto
  ultimately show ?thesis using reaches_step [OF st] reaches_trans by fastforce
qed

lemma reaches_closed: "closed arc (acm_of s) \<Longrightarrow> reaches en bo ck arc s s' \<Longrightarrow> closed arc (acm_of s')"
  using closed_server by (auto simp: reaches_def)

lemma reaches_engaged: "engaged s es \<Longrightarrow> reaches en bo ck arc s s' \<Longrightarrow> \<exists>es'. engaged s' es'"
  using engagement.run_inv by (fastforce simp: reaches_def)

lemma reaches_answered:
  assumes "reaches en bo ck arc s s'" and "t < length (tasks s) \<and> task_at s t = Answered ans"
  shows "t < length (tasks s') \<and> task_at s' t = Answered ans"
proof -
  from assms(1) obtain "is" es where "run (server_step en bo ck) s is = (s', es)" by (auto simp: reaches_def)
  from run_keeps [where P = "\<lambda>s. t < length (tasks s) \<and> task_at s t = Answered ans", OF this assms(2)] answered_stays
  show ?thesis by blast
qed

lemma got_pod_served:
  assumes "closed arc (acm_of s)" and "reaches en bo ck arc s u" and "got_pod arc t s u"
  shows "\<exists>s'. reaches en bo ck arc s s' \<and> served arc t s s'"
proof -
  from assms(3) have u: "t < length (tasks u)" "\<exists>p. task_at u t = WaitRefreshing arc p" "lock_queue u = lock_queue s"
    by (auto simp: got_pod_def)
  from refresh_served [OF reaches_closed [OF assms(1,2)] u(1)] u(2) obtain s' where
    "reaches en bo ck arc u s'" "served arc t u s'" by blast
  with u(3) reaches_trans [OF assms(2)] show ?thesis by (auto simp: served_def)
qed

lemma waiting_served:
  assumes "engaged s es" and "closed arc (acm_of s)" and "t < length (tasks s)" and "task_at s t = Waiting arc"
  shows "\<exists>s'. reaches en bo ck arc s s' \<and> served arc t s s'"
proof -
  have "waits (acm_of s) arc" using assms(1,3,4) by (simp add: engaged_def)
  from wait_served [OF assms(2-4) this] got_pod_served [OF assms(2)] show ?thesis by blast
qed

lemma head_served:
  assumes "engaged s es" and "closed arc (acm_of s)" and "lock_queue s arc = t # q"
  shows "\<exists>s'. reaches en bo ck arc s s' \<and> served arc t s s'"
proof -
  fix g :: gc_input
  from assms(1,3) have t: "t < length (tasks s)" "lock_of (task_at s t) = Some arc"
    by (auto simp: engaged_def orderly_def disciplined_def) (metis list.set_intros(1))+
  have head: "holds_lock s arc t" using assms(3) by (simp add: holds_lock_def)
  obtain s1 es1 where st: "server_step en bo ck s (Resume t g) = (s1, es1)" by fastforce
  have r1: "reaches en bo ck arc s s1" using reaches_step [OF st] by simp
  show ?thesis
  proof (cases "task_at s t")
    case (WaitLocking j)
    with t head st have "wait_polled en bo ck False t arc s = (s1, es1)" by (simp add: server_step_def resume_def)
    from wait_polled_reaches [OF this t(1)] consider "served arc t s s1" | "got_pod arc t s s1"
      | "lock_queue s1 = lock_queue s" "t < length (tasks s1)" "task_at s1 t = Waiting arc" by blast
    then show ?thesis
    proof cases
      case 3
      from waiting_served [OF engagement.inv_step_any [OF assms(1) st] reaches_closed [OF assms(2) r1] 3(2,3)]
      obtain s' where "reaches en bo ck arc s1 s'" "served arc t s1 s'" by blast
      with 3(1) reaches_trans [OF r1] show ?thesis by (auto simp: served_def)
    qed (use r1 got_pod_served [OF assms(2) r1] in auto)
  next
    case (RefreshLocking j)
    with t head st have s1: "s1 = become t (Refreshing arc) s" by (simp add: server_step_def resume_def)
    with t have "t < length (tasks s1)" "task_at s1 t = Refreshing arc" "lock_queue s1 = lock_queue s"
      by (simp_all add: become_def)
    moreover from this refresh_served [OF reaches_closed [OF assms(2) r1]] obtain s' where
      "reaches en bo ck arc s1 s'" "served arc t s1 s'" by blast
    ultimately show ?thesis using reaches_trans [OF r1] by (auto simp: served_def)
  next
    case (Waiting j)
    with t waiting_served [OF assms(1,2) t(1)] show ?thesis by simp
  qed (use t refresh_served [OF assms(2) t(1)] in auto)
qed

lemma queue_served:
  assumes "engaged s es" and "closed arc (acm_of s)" and "lock_queue s arc = q"
  shows "\<exists>s'. reaches en bo ck arc s s' \<and> lock_queue s' arc = [] \<and> (\<forall>t \<in> set q. \<exists>ans. task_at s' t = Answered ans)"
  using assms
proof (induction q arbitrary: s es)
  case Nil
  then show ?case using reaches_refl by (intro exI [where x = s]) simp
next
  case (Cons t q)
  from head_served [OF Cons.prems] obtain u where u: "reaches en bo ck arc s u" "served arc t s u" by blast
  from u(2) Cons.prems(3) obtain ans where "lock_queue u arc = q" "task_at u t = Answered ans" by (auto simp: served_def)
  moreover have "t < length (tasks s)"
    using Cons.prems(1,3) by (auto simp: engaged_def orderly_def disciplined_def) (metis list.set_intros(1))
  moreover have "length (tasks u) = length (tasks s)"
    using u(1) local_tasks by blast
  moreover obtain es' where "engaged u es'" using reaches_engaged [OF Cons.prems(1) u(1)] by blast
  moreover have "closed arc (acm_of u)" using reaches_closed [OF Cons.prems(2) u(1)] .
  ultimately obtain s' where "reaches en bo ck arc u s'" "lock_queue s' arc = []"
    "\<forall>t \<in> set q. \<exists>ans. task_at s' t = Answered ans" "task_at s' t = Answered ans"
    using Cons.IH [of u es'] reaches_answered by metis
  with reaches_trans [OF u(1)] show ?case by auto
qed

text \<open>With its watcher gone, the coroutines of a manager bring the collector to its end as well.\<close>

lemma managed_collector_stops:
  assumes "run (managed_step en bo ck) (new_managed en pod ttl now) is = (m, es)" and "watcher_gone (manager m)"
    and "gc_event i = PodEvent x" and "gc_event j = PodEvent y"
  shows "collector_gone (manager (fst (run (managed_step en bo ck) m [OnOthers (OnCollector i), OnOthers (OnCollector j)])))"
  using pm_collector_stops [OF managed_wired(1) [OF assms(1)] assms(2-4), of en ck]
  by (simp add: managed_step_def split: prod.splits)

lemma daemons_reach:
  assumes "run (acm_step en bo ck) (acm_of s) (map (Turn arc) is) = (a, fs)" and "\<forall>i \<in> set is. \<not> by_request i"
  shows "reaches en bo ck arc s (s\<lparr>acm_of := a\<rparr>)"
  using daemons_run [OF assms] unfolding reaches_def by (intro exI [where x = "map (Daemon arc) is"]) auto

lemma reaches_close:
  assumes "run (server_step en bo ck) server_new is = (s, es)" and "arc < length (managers (acm_of s))"
    and "watcher_gone (manager (managers (acm_of s) ! arc))"
  shows "\<exists>a. reaches en bo ck arc s (s\<lparr>acm_of := a\<rparr>) \<and> closed arc a"
proof -
  fix g :: gc_input
  let ?i = "OnOthers (OnCollector (g\<lparr>gc_event := PodEvent None\<rparr>))"
  from server_part [OF assms(1,2)] obtain pod ttl now js where
    r: "run (managed_step en bo ck) (new_managed en pod ttl now) js = (managers (acm_of s) ! arc, effects_of arc (acm_did es))"
    by metis
  obtain m fs where m: "run (managed_step en bo ck) (managers (acm_of s) ! arc) [?i, ?i] = (m, fs)"
    by (metis surj_pair)
  from managed_collector_stops [OF r assms(3), of "g\<lparr>gc_event := PodEvent None\<rparr>" None "g\<lparr>gc_event := PodEvent None\<rparr>" None] m
  have "collector_gone (manager m)" by simp
  moreover have "watcher_gone (manager m)" using managed_gone [OF m] assms(3) by simp
  moreover have "meeting (upper (manager m))"
    using managed_meeting [of en bo ck pod ttl now "js @ [?i, ?i]" m] r m by (simp add: run_append del: run.simps)
  ultimately have "closed arc (acm_of s\<lparr>managers := (managers (acm_of s))[arc := m]\<rparr>)"
    using assms(2) by (simp add: closed_def)
  moreover obtain hs where "run (acm_step en bo ck) (acm_of s) (map (Turn arc) [?i, ?i])
      = (acm_of s\<lparr>managers := (managers (acm_of s))[arc := m]\<rparr>, hs)"
    using turns_run [OF assms(2) m] by blast
  ultimately show ?thesis using daemons_reach [of en bo ck s arc "[?i, ?i]"] by fastforce
qed

text \<open>
  C16: no request is left behind. Once the event watcher of a pod has returned or panicked, a few
  turns of the coroutines of that pod manager and of its requests answer every request that has
  asked for it, in whatever state these are: no call of \<open>wait\<close> or \<open>refresh\<close> blocks the queue for ever.
\<close>

theorem requests_answered:
  assumes "run (server_step en bo ck) server_new is = (s, es)" and "arc < length (managers (acm_of s))"
    and "watcher_gone (manager (managers (acm_of s) ! arc))"
  shows "\<exists>js s' fs. run (server_step en bo ck) s js = (s', fs) \<and> (\<forall>i \<in> set js. local_to arc i)
    \<and> lock_queue s' arc = [] \<and> (\<forall>t \<in> set (lock_queue s arc). \<exists>ans. task_at s' t = Answered ans)"
proof -
  from reaches_close [OF assms] obtain a where a: "reaches en bo ck arc s (s\<lparr>acm_of := a\<rparr>)" "closed arc a" by blast
  from reaches_engaged [OF run_engaged [OF assms(1)] a(1)] obtain es' where "engaged (s\<lparr>acm_of := a\<rparr>) es'" by blast
  from queue_served [OF this] a(2) obtain s' where
    "reaches en bo ck arc (s\<lparr>acm_of := a\<rparr>) s'" "lock_queue s' arc = []"
    "\<forall>t \<in> set (lock_queue s arc). \<exists>ans. task_at s' t = Answered ans" by fastforce
  with reaches_trans [OF a(1)] show ?thesis unfolding reaches_def by blast
qed

section \<open>Evaluation\<close>

theorem requests_answered_witness:
  "\<exists>s js s' fs. lock_queue s 0 = [1, 2] \<and> run conn_step s js = (s', fs) \<and> lock_queue s' 0 = []
     \<and> (\<exists>ans. task_at s' 1 = Answered ans) \<and> (\<exists>ans. task_at s' 2 = Answered ans)"
proof -
  let ?is = "deploys @ [Request (Get_Wait ''conn-1'') quiet, Request (Post_Refresh ''conn-1'') quiet,
    Daemon 0 (StreamItem (Ok (Some (Deleted up_pod))) 1450 [])]"
  obtain s es where r: "run conn_step server_new ?is = (s, es)" by fastforce
  with run_after [OF deploys_run] have "s = fst (run conn_step deployed [Request (Get_Wait ''conn-1'') quiet,
      Request (Post_Refresh ''conn-1'') quiet, Daemon 0 (StreamItem (Ok (Some (Deleted up_pod))) 1450 [])])"
    by (metis fst_conv)
  then have "lock_queue s 0 = [1, 2]" "0 < length (managers (acm_of s))" "watcher_gone (manager (managers (acm_of s) ! 0))"
    by (simp_all add: deployed_def server_step_def acm_wait_def acm_refresh_def pm_get_def start_def ask_lock_def managed_eval)
  note s = this
  from requests_answered [OF r s(2,3)] obtain js s' fs where
    s': "run conn_step s js = (s', fs)" "lock_queue s' 0 = []" "\<forall>t \<in> set (lock_queue s 0). \<exists>ans. task_at s' t = Answered ans"
    by blast
  from s'(3) s(1) have "\<exists>ans. task_at s' 1 = Answered ans" "\<exists>ans. task_at s' 2 = Answered ans" by simp_all
  with s(1) s'(1,2) show ?thesis by blast
qed

end
