(* ===== verification/Wind_Down.thy ===== *)
theory Wind_Down
  imports Request_Progress
begin

text \<open>
  The comment on the cleanup coroutine (podmanager/mod.rs) asks that an idle connector manager winds
  down to no pod managers at all. Here is shown that it can always do so on its own, without any
  request, once its event watchers have ended; the one exception is an entry that was inserted after
  its cleanup.
\<close>

section \<open>The cleanup coroutines\<close>

definition cleaners_ok :: "('b, 'c) acm \<Rightarrow> bool" where
  "cleaners_ok a \<longleftrightarrow> distinct (map fst (cleaners a)) \<and> (\<forall>arc n. (arc, n) \<in> set (cleaners a) \<longrightarrow> arc < length (managers a))"

lemma cleaners_ok_step: "cleaners_ok a \<Longrightarrow> acm_step en bo ck a i = (a', es) \<Longrightarrow> cleaners_ok a'"
  by (cases i) (fastforce simp: cleaners_ok_def pm_spawn_def pm_insert_def pm_cleanup_def distinct_map_filter less_SucI
      split: option.splits prod.splits if_splits)+

lemma run_cleaners:
  assumes "run (server_step en bo ck) server_new is = (s, es)"
  shows "cleaners_ok (acm_of s)"
proof -
  from server_traces [OF assms] obtain js where "run (acm_step en bo ck) acm_new js = (acm_of s, acm_did es)"
    by (auto simp: traces_def server_new_def)
  then show ?thesis
    by (rule run_keeps [where P = cleaners_ok]) (simp add: cleaners_ok_def acm_new_def, rule cleaners_ok_step)
qed

section \<open>One manager\<close>

text \<open>The patience of the shim ends as well, whatever it waits for.\<close>

lemma shim_ends:
  assumes "watcher_gone s"
  shows "\<exists>t t'. shim_gone (fst (run (sys_step en ck) s [OnHandle (Inbound None t), OnHandle (PatienceElapsed t')]))"
proof (cases "shim (upper s)")
  case ShimRecv
  with assms have "shim_gone (fst (run (sys_step en ck) s [OnHandle (Inbound None 0), OnHandle (PatienceElapsed PATIENCE)]))"
    by (auto simp: sys_step_def turn_defs recv_def machine_simps split: list.splits)
  then show ?thesis by blast
next
  case (ShimWaiting r d)
  then have "shim_gone (fst (run (sys_step en ck) s [OnHandle (Inbound None 0), OnHandle (PatienceElapsed d)]))"
    by (simp add: sys_step_def turn_defs machine_simps)
  then show ?thesis by blast
next
  case ShimDone
  then have "shim_gone (fst (run (sys_step en ck) s [OnHandle (Inbound None 0), OnHandle (PatienceElapsed 0)]))"
    by (simp add: sys_step_def turn_defs machine_simps)
  then show ?thesis by blast
qed

lemma managed_joins:
  assumes "run (managed_step en bo ck) (new_managed en pod ttl now) is = (m, es)" and "watcher_gone (manager m)"
  shows "\<exists>js m' fs. run (managed_step en bo ck) m js = (m', fs) \<and> joined m' \<and> (\<forall>j \<in> set js. \<not> by_request j)"
proof -
  fix g :: gc_input
  let ?i = "OnOthers (OnCollector (g\<lparr>gc_event := PodEvent None\<rparr>))"
  obtain m1 fs1 where m1: "run (managed_step en bo ck) m [?i, ?i] = (m1, fs1)" by (metis surj_pair)
  from managed_collector_stops [OF assms, of "g\<lparr>gc_event := PodEvent None\<rparr>" None "g\<lparr>gc_event := PodEvent None\<rparr>" None] m1
  have gone: "collector_gone (manager m1)" "watcher_gone (manager m1)"
    using managed_gone [OF m1 assms(2)] assms(2) by simp_all
  from shim_ends [OF gone(2), of en ck] obtain t t' where
    "shim_gone (fst (run (sys_step en ck) (manager m1) [OnHandle (Inbound None t), OnHandle (PatienceElapsed t')]))" by blast
  moreover obtain m2 fs2 where
    m2: "run (managed_step en bo ck) m1 [OnOthers (OnHandle (Inbound None t)), OnOthers (OnHandle (PatienceElapsed t'))] = (m2, fs2)"
    by (metis surj_pair)
  ultimately have "shim_gone (manager m2)" by (auto simp: managed_step_def split: prod.splits)
  moreover have "watcher_gone (manager m2) \<and> collector_gone (manager m2)"
  proof -
    from manager_run [OF m2] obtain ks where "run (sys_step en ck) (manager m1) ks = (manager m2, manager_did fs2)" by blast
    from run_keeps [where P = "\<lambda>s. watcher_gone s \<and> collector_gone s", OF this] gone sys_step_gone show ?thesis by blast
  qed
  moreover have "run (managed_step en bo ck) m ([?i, ?i] @ [OnOthers (OnHandle (Inbound None t)), OnOthers (OnHandle (PatienceElapsed t'))])
      = (m2, fs1 @ fs2)"
    unfolding run_append m1 m2 prod.case by simp
  ultimately show ?thesis by (fastforce simp: joined_def)
qed

section \<open>All of them\<close>

definition own_doing :: "server_input \<Rightarrow> bool" where
  "own_doing i \<longleftrightarrow> (\<forall>req x. i \<noteq> Request req x) \<and> (\<forall>t g. i \<noteq> Resume t g)"

lemma manager_cleaned:
  assumes "run (server_step en bo ck) server_new is = (s, es)" and "cleaners (acm_of s) = (arc, n) # cs"
    and "watcher_gone (manager (managers (acm_of s) ! arc))"
  shows "\<exists>js m s' fs. run (server_step en bo ck) s js = (s', fs) \<and> (\<forall>i \<in> set js. own_doing i) \<and> joined m
    \<and> acm_of s' = \<lparr>managers = (managers (acm_of s))[arc := m], cached = (cached (acm_of s))(n := None), cleaners = cs\<rparr>"
proof -
  from run_cleaners [OF assms(1)] assms(2) have arc: "arc < length (managers (acm_of s))"
    and cs: "filter (\<lambda>c. fst c \<noteq> arc) cs = cs"
    by (auto simp: cleaners_ok_def filter_id_conv)
  from server_part [OF assms(1) arc] obtain pod ttl now ks where
    "run (managed_step en bo ck) (new_managed en pod ttl now) ks = (managers (acm_of s) ! arc, effects_of arc (acm_did es))"
    by metis
  from managed_joins [OF this assms(3)] obtain js m fs where
    m: "run (managed_step en bo ck) (managers (acm_of s) ! arc) js = (m, fs)" "joined m" and js: "\<forall>j \<in> set js. \<not> by_request j"
    by blast
  let ?a = "(acm_of s)\<lparr>managers := (managers (acm_of s))[arc := m]\<rparr>"
  from turns_run [OF arc m(1)] daemons_run [OF _ js] obtain gs where
    r: "run (server_step en bo ck) s (map (Daemon arc) js) = (s\<lparr>acm_of := ?a\<rparr>, gs)" by metis
  have "server_step en bo ck (s\<lparr>acm_of := ?a\<rparr>) (Cleaner arc) = (s\<lparr>acm_of := pm_cleanup arc ?a\<rparr>, [])"
    by (simp add: server_step_def)
  with r have "run (server_step en bo ck) s (map (Daemon arc) js @ [Cleaner arc]) = (s\<lparr>acm_of := pm_cleanup arc ?a\<rparr>, gs)"
    by (simp add: run_append)
  moreover have "pm_cleanup arc ?a
      = \<lparr>managers = (managers (acm_of s))[arc := m], cached = (cached (acm_of s))(n := None), cleaners = cs\<rparr>"
    using assms(2) arc m(2) cs by (simp add: pm_cleanup_def)
  moreover have "\<forall>i \<in> set (map (Daemon arc) js @ [Cleaner arc]). own_doing i" by (auto simp: own_doing_def)
  ultimately show ?thesis using m(2) by fastforce
qed

lemma all_cleaned:
  assumes "run (server_step en bo ck) server_new is = (s, es)"
    and "\<forall>m \<in> set (managers (acm_of s)). watcher_gone (manager m)"
    and "dom (cached (acm_of s)) \<subseteq> snd ` set (cleaners (acm_of s))"
  shows "\<exists>js s' fs. run (server_step en bo ck) s js = (s', fs) \<and> (\<forall>i \<in> set js. own_doing i)
    \<and> cached (acm_of s') = (\<lambda>_. None) \<and> cleaners (acm_of s') = []"
  using assms
proof (induction "cleaners (acm_of s)" arbitrary: s "is" es)
  case Nil
  then show ?case by (intro exI [where x = "[]"]) auto
next
  case (Cons c cs)
  obtain arc n where c: "c = (arc, n)" by fastforce
  with Cons.hyps(2) have cl: "cleaners (acm_of s) = (arc, n) # cs" by simp
  with run_cleaners [OF Cons.prems(1)] have "arc < length (managers (acm_of s))" by (auto simp: cleaners_ok_def)
  with Cons.prems(2) have "watcher_gone (manager (managers (acm_of s) ! arc))" by simp
  from manager_cleaned [OF Cons.prems(1) cl this] obtain js m t fs where
    t: "run (server_step en bo ck) s js = (t, fs)" "\<forall>i \<in> set js. own_doing i" "joined m"
    "acm_of t = \<lparr>managers = (managers (acm_of s))[arc := m], cached = (cached (acm_of s))(n := None), cleaners = cs\<rparr>"
    by blast
  from t(1) Cons.prems(1) have "run (server_step en bo ck) server_new (is @ js) = (t, es @ fs)" by (simp add: run_append)
  moreover have "\<forall>m \<in> set (managers (acm_of t)). watcher_gone (manager m)"
    using Cons.prems(2) t(3,4) by (auto simp: joined_def dest!: subsetD [OF set_update_subset_insert])
  moreover have "dom (cached (acm_of t)) \<subseteq> snd ` set (cleaners (acm_of t))"
    using Cons.prems(3) cl t(4) by auto
  ultimately obtain ks s' gs where "run (server_step en bo ck) t ks = (s', gs)" "\<forall>i \<in> set ks. own_doing i"
    "cached (acm_of s') = (\<lambda>_. None)" "cleaners (acm_of s') = []"
    using Cons.hyps(1) [of t] t(4) by fastforce
  with t(1,2) show ?case by (intro exI [where x = "js @ ks"] exI [where x = s'] exI [where x = "fs @ gs"]) (auto simp: run_append)
qed

text \<open>
  C7: an idle connector manager winds down to no pod managers. When the event watchers of all pods
  have returned or panicked and no entry was inserted after its cleanup, the coroutines left over end
  one after the other, on their own: without any request and without any task being resumed the cache
  becomes empty and no cleanup is left waiting.
\<close>

theorem service_winds_down:
  assumes "run (server_step en bo ck) server_new is = (s, es)"
    and "\<forall>m \<in> set (managers (acm_of s)). watcher_gone (manager m)"
    and "\<forall>n. \<not> leaked n (acm_of s)"
  shows "\<exists>js s' fs. run (server_step en bo ck) s js = (s', fs) \<and> (\<forall>i \<in> set js. own_doing i)
    \<and> cached (acm_of s') = (\<lambda>_. None) \<and> cleaners (acm_of s') = []"
proof -
  have "dom (cached (acm_of s)) \<subseteq> snd ` set (cleaners (acm_of s))"
    using assms(3) unfolding leaked_def by blast
  from all_cleaned [OF assms(1,2) this] show ?thesis .
qed

section \<open>Evaluation\<close>

theorem service_winds_down_witness:
  "\<exists>s :: (nat, nat) server. \<exists>js s' fs. cached (acm_of s) ''conn-1'' = Some 0 \<and> run conn_step s js = (s', fs)
     \<and> cached (acm_of s') ''conn-1'' = None"
proof -
  let ?d = "Daemon 0 (StreamItem (Ok (Some (Deleted up_pod))) 1450 [])"
  obtain s es where r: "run conn_step server_new (deploys @ [?d]) = (s, es)" by fastforce
  with run_after [OF deploys_run] have "s = fst (run conn_step deployed [?d])" by (metis fst_conv)
  then have s: "\<forall>m \<in> set (managers (acm_of s)). watcher_gone (manager m)" "\<forall>n. \<not> leaked n (acm_of s)"
    "cached (acm_of s) ''conn-1'' = Some 0"
    by (simp_all add: deployed_def server_step_def managed_eval leaked_def)
  from service_winds_down [OF r s(1,2)] s(3) show ?thesis by fastforce
qed

end
