(* ===== verification/Monitor.thy ===== *)
theory Monitor
  imports Service
begin

text \<open>
  How a law of one pod manager becomes a law of the service: the interface \<open>monitor\<close> and what follows
  from it for the pod managers, all of them together, and the interleaved requests.
\<close>

lemma named_server_run:
  assumes "named (acm_of s) arc n" and "run (server_step en bo ck) s is = (s', es)"
  shows "named (acm_of s') arc n"
proof -
  from server_traces [OF assms(2)] obtain js where "run (acm_step en bo ck) (acm_of s) js = (acm_of s', acm_did es)"
    by (auto simp: traces_def)
  with named_run [OF assms(1)] show ?thesis by blast
qed

lemma server_wired:
  assumes "run (server_step en bo ck) server_new is = (s, es)" and "arc < length (managers (acm_of s))"
  obtains name where "wired name (manager (managers (acm_of s) ! arc)) (manager_did (effects_of arc (acm_did es)))"
  using server_part [OF assms] managed_wired(1) by metis

text \<open>
  A monitor is a property of a pod manager and of what it has done that every step keeps, as long as
  the clock is read at allowed moments only; it holds in every run of the service.
\<close>

locale monitor =
  fixes en :: "'b ew_env" and ck :: clock and allowed :: "nat \<Rightarrow> bool"
    and inv :: "'b system \<Rightarrow> sys_effect list \<Rightarrow> bool"
  assumes keeps: "inv s es \<Longrightarrow> sys_step en ck s i = (s', es')
    \<Longrightarrow> (\<And>j. i = OnCollector j \<Longrightarrow> allowed (instant_now j)) \<Longrightarrow> inv s' (es @ es')"
begin

lemma sys_run:
  assumes "run (sys_step en ck) s is = (s', es')" and "inv s es"
    and "\<And>j. OnCollector j \<in> set is \<Longrightarrow> allowed (instant_now j)"
  shows "inv s' (es @ es')"
  using assms
proof (induction "is" arbitrary: s es es')
  case (Cons i "is")
  then obtain t fs gs where "sys_step en ck s i = (t, fs)" "run (sys_step en ck) t is = (s', gs)" "es' = fs @ gs"
    by (auto split: prod.splits)
  with Cons.IH [of t gs "es @ fs"] Cons.prems keeps [of s es i t fs] show ?case by auto
qed simp

lemma managed_run:
  assumes "managed_step en bo ck m i = (m', es')" and "inv (manager m) es"
    and "\<And>u. u \<in> managed_readings i \<Longrightarrow> allowed u"
  shows "inv (manager m') (es @ manager_did es')"
proof (rule sys_run [OF manager_step [OF assms(1)] assms(2)])
  fix j
  assume "OnCollector j \<in> set (sys_inputs m i)"
  then have "i = OnOthers (OnCollector j)"
    by (auto simp: sys_inputs_def split: managed_input.splits ew_phase.splits option.splits sys_input.splits)
  with assms(3) show "allowed (instant_now j)" by simp
qed

lemma acm_turn:
  assumes "acm_step en bo ck a i = (a', es')" and "arc < length (managers a)"
    and "inv (manager (managers a ! arc)) es" and "\<And>u. u \<in> turn_readings i \<Longrightarrow> allowed u"
  shows "inv (manager (managers a' ! arc)) (es @ manager_did (effects_of arc es'))"
  using assms managed_run [of _ "managers a ! arc" _ _ _ es]
  by (cases i) (auto simp: pm_spawn_def pm_insert_def pm_cleanup_def nth_append nth_list_update
      split: prod.splits option.splits if_splits)

lemma acm_run:
  assumes "run (acm_step en bo ck) a is = (a', es')" and "arc < length (managers a)"
    and "inv (manager (managers a ! arc)) es" and "\<And>u. u \<in> (\<Union>i \<in> set is. turn_readings i) \<Longrightarrow> allowed u"
  shows "inv (manager (managers a' ! arc)) (es @ manager_did (effects_of arc es'))"
  using assms
proof (induction "is" arbitrary: a es es')
  case (Cons i "is")
  then obtain b fs gs where b: "acm_step en bo ck a i = (b, fs)" "run (acm_step en bo ck) b is = (a', gs)" "es' = fs @ gs"
    by (auto simp del: acm_step.simps split: prod.splits)
  from acm_length [OF b(1), of "Suc arc"] Cons.prems(2) have "arc < length (managers b)" by simp
  with acm_turn [OF b(1) Cons.prems(2,3)] Cons.prems(4)
    Cons.IH [OF b(2), of "es @ manager_did (effects_of arc fs)"] b(3) show ?case by simp
qed simp

lemma server_run:
  assumes "run (server_step en bo ck) s is = (s', es')" and "arc < length (managers (acm_of s))"
    and "inv (manager (managers (acm_of s) ! arc)) es" and "\<And>u. u \<in> (\<Union>i \<in> set is. readings i) \<Longrightarrow> allowed u"
  shows "inv (manager (managers (acm_of s') ! arc)) (es @ manager_did (effects_of arc (acm_did es')))"
proof -
  from server_traces [OF assms(1)] obtain js where js: "run (acm_step en bo ck) (acm_of s) js = (acm_of s', acm_did es')"
    "(\<Union>j \<in> set js. turn_readings j) \<subseteq> (\<Union>i \<in> set is. readings i)"
    by (auto simp: traces_def)
  from acm_run [OF js(1) assms(2,3)] js(2) assms(4) show ?thesis by blast
qed

end

end
