(* ===== verification/Lease.thy ===== *)
theory Lease
  imports Monitor
begin

text \<open>
  What a ticket is worth to the client that holds it. The lease is kept by the garbage collector of
  one pod manager; here its laws are carried through the pod manager, the other pods and the
  interleaved requests to the answers of \<open>wait\<close> and \<open>refresh\<close>.
\<close>

section \<open>Two monitors of the collector\<close>

text \<open>Nothing but a received signal or its own timer and requests moves the collector.\<close>

lemma collector_moves:
  assumes "sys_step en ck s i = (s', es)"
  shows "collector s' = collector s \<and> collector_did es = []
    \<or> (\<exists>j j'. i = OnCollector j \<and> instant_now j' = instant_now j
        \<and> gc_step ck (collector s) j' = (collector s', collector_did es)
        \<and> (gc_event j' = PodEvent None \<longrightarrow> watcher_gone s \<and> gc_channel s = []))"
proof (cases i)
  case (OnCollector j)
  show ?thesis
  proof (cases "\<exists>x. gc_event j = PodEvent x")
    case False
    with assms OnCollector show ?thesis
      by (intro disjI2 exI [where x = j]) (auto simp: sys_step_def turn_defs split: gc_event.splits prod.splits)
  next
    case True
    then have st: "collector_recv ck s j = (s', es)" using assms OnCollector by (auto simp: sys_step_def)
    show ?thesis
    proof (cases "collector_gone s \<or> recv (watcher_gone s) (gc_channel s) = None")
      case False
      then obtain x q where x: "recv (watcher_gone s) (gc_channel s) = Some (x, q)" by auto
      with False st OnCollector show ?thesis
        by (intro disjI2 exI [where x = j] exI [where x = "j\<lparr>gc_event := PodEvent x\<rparr>"])
          (auto simp: collector_recv_def collector_turn_def recv_def split: prod.splits list.splits if_splits)
    qed (use st in \<open>auto simp: collector_recv_def split: if_splits\<close>)
  qed
qed (use assms in \<open>auto simp: sys_step_def turn_defs split: handle_input.splits prod.splits option.splits if_splits\<close>)

text \<open>A counting collector never finds its watcher gone without a word.\<close>

lemma counting_watched:
  assumes "wired name s es" and "gc_phase (collector s) = Counting tk"
  shows "\<not> (watcher_gone s \<and> gc_channel s = [])"
proof
  assume "watcher_gone s \<and> gc_channel s = []"
  with assms obtain p where "signalled es = [GcRunning p]" by (auto simp: wired_def)
  with assms(1) said_alone \<open>watcher_gone s \<and> gc_channel s = []\<close> show False
    by (fastforce simp: wired_def ew_protocol_def)
qed

definition lease_kept :: "string \<Rightarrow> sys_effect list \<Rightarrow> 64 word \<Rightarrow> nat \<Rightarrow> 'b system \<Rightarrow> sys_effect list \<Rightarrow> bool" where
  "lease_kept name fs ttl u s es \<longleftrightarrow> wired name s (fs @ es) \<and> leased ttl u (collector s)
     \<and> (\<forall>n. ByCollector (GcDelete n) \<notin> set es)"

interpretation lease: monitor en ck "\<lambda>t. clock_law ck \<and> u \<le> t + unat ttl * 1000000000 \<and> t < u" "lease_kept name fs ttl u"
  for en :: "'b ew_env" and ck u ttl name fs
proof unfold_locales
  fix s s' :: "'b system" and es es' i
  assume inv: "lease_kept name fs ttl u s es" and st: "sys_step en ck s i = (s', es')"
    and now: "\<And>j. i = OnCollector j \<Longrightarrow> clock_law ck \<and> u \<le> instant_now j + unat ttl * 1000000000 \<and> instant_now j < u"
  have "wired name s' (fs @ es @ es')"
    using wiring.inv_step_any [OF _ st, of name "fs @ es"] inv by (simp add: lease_kept_def)
  moreover have "leased ttl u (collector s') \<and> GcDelete n \<notin> set (collector_did es')" for n
    using collector_moves [OF st]
  proof
    assume "\<exists>j j'. i = OnCollector j \<and> instant_now j' = instant_now j
        \<and> gc_step ck (collector s) j' = (collector s', collector_did es')
        \<and> (gc_event j' = PodEvent None \<longrightarrow> watcher_gone s \<and> gc_channel s = [])"
    then obtain j j' where j: "i = OnCollector j" "instant_now j' = instant_now j"
      and g: "gc_step ck (collector s) j' = (collector s', collector_did es')"
      and w: "gc_event j' = PodEvent None \<longrightarrow> watcher_gone s \<and> gc_channel s = []"
      by auto
    show ?thesis
    proof (cases "gc_event j' = PodEvent None")
      case False
      with leased_step [OF _ _ g] now [OF j(1)] j(2) inv show ?thesis by (auto simp: lease_kept_def)
    next
      case True
      with w inv counting_watched have "gc_halted (gc_phase (collector s))"
        by (cases "gc_phase (collector s)") (auto simp: lease_kept_def leased_def)
      with g inv gc.halted_step show ?thesis by (auto simp: lease_kept_def)
    qed
  qed (use inv in \<open>auto simp: lease_kept_def\<close>)
  ultimately show "lease_kept name fs ttl u s' (es @ es')"
    using inv by (auto simp: lease_kept_def did_in)
qed

text \<open>While no other ticket is handed out, the collector counts down to the one it handed out last.\<close>

definition counts_down :: "keep_alive_ticket \<Rightarrow> 'b system \<Rightarrow> sys_effect list \<Rightarrow> bool" where
  "counts_down tk s es \<longleftrightarrow> (\<forall>tk' b. ByCollector (SendTicket tk' b) \<notin> set es)
     \<longrightarrow> gc_phase (collector s) = Counting tk \<or> collector_gone s"

lemma counting_step:
  assumes "gc_step ck d i = (d', es)" and "gc_phase d = Counting tk \<or> gc_halted (gc_phase d)"
    and "\<forall>tk' b. SendTicket tk' b \<notin> set es"
  shows "gc_phase d' = Counting tk \<or> gc_halted (gc_phase d')"
  using assms by (auto simp: machine_simps split: gc_splits)

interpretation countdown: monitor en ck "\<lambda>_. True" "counts_down tk"
  for en :: "'b ew_env" and ck tk
proof unfold_locales
  fix s s' :: "'b system" and es es' i
  assume inv: "counts_down tk s es" and st: "sys_step en ck s i = (s', es')"
  have "gc_phase (collector s') = Counting tk \<or> collector_gone s'"
    if quiet: "\<forall>tk' b. ByCollector (SendTicket tk' b) \<notin> set (es @ es')"
  proof -
    from quiet have "\<forall>tk' b. SendTicket tk' b \<notin> set (collector_did es')" by (simp add: did_in)
    moreover from quiet inv have "gc_phase (collector s) = Counting tk \<or> collector_gone s" by (simp add: counts_down_def)
    ultimately show ?thesis using collector_moves [OF st] counting_step by metis
  qed
  then show "counts_down tk s' (es @ es')" by (simp add: counts_down_def)
qed

section \<open>The ticket in an answer\<close>

fun ticket_in :: "task \<Rightarrow> keep_alive_ticket option" where
  "ticket_in (Answered (Waited (Ok pt))) = Some (pod_ticket_ticket pt)"
| "ticket_in (Answered (Refreshed (Ok tk))) = Some tk"
| "ticket_in _ = None"

abbreviation collector_at :: "('b, 'c) server \<Rightarrow> nat \<Rightarrow> gc_daemon" where
  "collector_at s arc \<equiv> collector (manager (managers (acm_of s) ! arc))"

text \<open>A task that gets a ticket got it from the collector of the manager it had locked.\<close>

lemma refresh_polled_ticket:
  assumes "refresh_polled en bo ck i t arc ans s = (s', es)" and "t < length (tasks s)"
    and "arc < length (managers (acm_of s))" and "ticket_in (task_at s' t) = Some tk"
    and "\<And>r. ticket_in (Answered (ans r)) = Some tk \<Longrightarrow> r = Ok tk" and "ticket_in (task_at s t) = None"
  obtains d gs where "gc_refresh ck (collector_at s arc) i = Some (d, gs, Ok tk)" "collector_at s' arc = d"
    "arc < length (managers (acm_of s'))"
    "manager (managers (acm_of s') ! arc) = (manager (managers (acm_of s) ! arc))\<lparr>collector := d\<rparr>"
    "acm_did es = map (\<lambda>e. (arc, ByManager (ByCollector e))) gs"
proof -
  from assms obtain d gs r where g: "gc_refresh ck (collector_at s arc) i = Some (d, gs, r)"
    by (auto simp: refresh_polled_def pm_refresh_collector split: option.splits)
  with assms(1-4) have "ticket_in (Answered (ans r)) = Some tk"
    by (auto simp: refresh_polled_def pm_refresh_collector finish_def unlock_def become_def)
  with assms(5) have "r = Ok tk" by blast
  with g assms(1-3) show thesis
    by (intro that [of d gs]) (auto simp: refresh_polled_def pm_refresh_collector List.map_filter_def comp_def)
qed

lemma wait_polled_no_ticket:
  assumes "wait_polled en bo ck called t arc s = (s', es)" and "t < length (tasks s)"
  shows "ticket_in (task_at s' t) = None"
  using assms by (auto simp: wait_polled_def finish_def unlock_def become_def split: prod.splits option.splits result.splits)

definition grants ::
  "clock \<Rightarrow> ('b, 'c) server \<Rightarrow> nat \<Rightarrow> gc_input \<Rightarrow> ('b, 'c) server \<Rightarrow> server_effect list \<Rightarrow> nat \<Rightarrow> keep_alive_ticket \<Rightarrow> bool" where
  "grants ck s t i s' es arc tk \<longleftrightarrow> lock_of (task_at s t) = Some arc \<and> inside (task_at s t)
     \<and> named (acm_of s) arc (ticket tk) \<and> fst (tasks s ! t) \<in> {Get_Wait (ticket tk), Post_Refresh (ticket tk)}
     \<and> arc < length (managers (acm_of s'))
     \<and> (\<exists>d gs. gc_refresh ck (collector_at s arc) i = Some (d, gs, Ok tk) \<and> collector_at s' arc = d)"

lemma grantsI:
  assumes "serving s es" and "t < length (tasks s)" and "refresh_polled en bo ck i t arc ans s = (s', es')"
    and "ticket_in (task_at s' t) = Some tk" and "\<And>r. ticket_in (Answered (ans r)) = Some tk \<Longrightarrow> r = Ok tk"
    and "lock_of (task_at s t) = Some arc" and "inside (task_at s t)"
    and "named (acm_of s) arc n" and "fst (tasks s ! t) \<in> {Get_Wait n, Post_Refresh n}"
  shows "grants ck s t i s' es' arc tk"
proof -
  have "arc < length (managers (acm_of s))" using assms(8) by (simp add: named_def)
  moreover have "ticket_in (task_at s t) = None" using assms(7) by (cases "task_at s t") auto
  ultimately obtain d gs where d: "gc_refresh ck (collector_at s arc) i = Some (d, gs, Ok tk)" "collector_at s' arc = d"
    "arc < length (managers (acm_of s'))"
    using refresh_polled_ticket [OF assms(3,2) _ assms(4,5)] by metis
  from gc_refresh_ticket [OF d(1)] assms(8) have "n = ticket tk" by (simp add: named_def)
  with d assms(6-9) show ?thesis by (auto simp: grants_def)
qed

lemma ticket_granted:
  assumes "serving s es" and "t < length (tasks s)" and "server_step en bo ck s (Resume t i) = (s', es')"
    and "ticket_in (task_at s t) = None" and "ticket_in (task_at s' t) = Some tk"
  obtains arc where "grants ck s t i s' es' arc tk"
proof -
  note ok = task_ok_at [OF assms(1,2)]
  from assms(3) have r: "resume en bo ck i t s = (s', es')" by (simp add: server_step_def)
  show thesis
  proof (cases "task_at s t")
    case (WaitRefreshing arc p)
    with ok obtain n where n: "named (acm_of s) arc n" "fst (tasks s ! t) \<in> {Get_Wait n, Post_Refresh n}" by auto
    from WaitRefreshing r assms(2) have rp: "refresh_polled en bo ck i t arc (pod_ticketed p) s = (s', es')"
      by (simp add: resume_def)
    have "ticket_in (Answered (pod_ticketed p v)) = Some tk \<Longrightarrow> v = Ok tk" for v by (cases v) (auto simp: pod_ticketed_def)
    from that [OF grantsI [OF assms(1,2) rp assms(5) this _ _ n]] WaitRefreshing show thesis by simp
  next
    case (Refreshing arc)
    with ok obtain n where n: "named (acm_of s) arc n" "fst (tasks s ! t) \<in> {Get_Wait n, Post_Refresh n}" by auto
    from Refreshing r assms(2) have rp: "refresh_polled en bo ck i t arc Refreshed s = (s', es')"
      by (simp add: resume_def)
    have "ticket_in (Answered (Refreshed v)) = Some tk \<Longrightarrow> v = Ok tk" for v by (cases v) auto
    from that [OF grantsI [OF assms(1,2) rp assms(5) this _ _ n]] Refreshing show thesis by simp
  qed (use r assms(2,4,5) in \<open>auto simp: resume_def become_def dest: wait_polled_no_ticket split: if_splits\<close>)
qed

text \<open>The state after the grant is leased until the deadline, and counts down to it.\<close>

lemma granted_leased:
  assumes "clock_law ck" and "grants ck s t i s' es' arc tk"
  shows "leased (gc_ttl (collector_at s arc)) (instant_now i + unat (gc_ttl (collector_at s arc)) * 1000000000) (collector_at s' arc)"
    and "execution_date tk = (utc_now i + sint (gc_ttl (collector_at s arc)) * nanos) div nanos"
    and "execution_instant tk = instant_now i + unat (gc_ttl (collector_at s arc)) * 1000000000"
    and "gc_phase (collector_at s' arc) = Counting tk \<or> gc_halted (gc_phase (collector_at s' arc))"
proof -
  from assms(2) obtain d gs where d: "gc_refresh ck (collector_at s arc) i = Some (d, gs, Ok tk)" "collector_at s' arc = d"
    by (auto simp: grants_def)
  note refreshed = gc_refresh_OkD [OF d(1)]
  note issued = issue_deadline [OF assms(1) refreshed(1)]
  show "execution_date tk = (utc_now i + sint (gc_ttl (collector_at s arc)) * nanos) div nanos"
    using issued(2) by (simp add: timestamp_def)
  show "execution_instant tk = instant_now i + unat (gc_ttl (collector_at s arc)) * 1000000000" by (fact issued(1))
  show ph: "gc_phase (collector_at s' arc) = Counting tk \<or> gc_halted (gc_phase (collector_at s' arc))"
    using refreshed(4) d(2) by simp
  then show "leased (gc_ttl (collector_at s arc)) (instant_now i + unat (gc_ttl (collector_at s arc)) * 1000000000) (collector_at s' arc)"
    using refreshed(3) issued(1) d(2) by (auto simp: leased_def split: gc_phase.splits)
qed

lemma daemon_collector:
  assumes "arc < length (managers (acm_of s))" and "gc_event j = ExecutionDateReached"
  shows "acm_did (snd (server_step en bo ck s (Daemon arc (OnOthers (OnCollector j)))))
    = map (\<lambda>e. (arc, ByManager (ByCollector e))) (snd (gc_step ck (collector_at s arc) j))"
  using assms
  by (simp add: server_step_def managed_step_def sys_step_def collector_turn_def List.map_filter_def comp_def
      split: prod.splits)

section \<open>What a ticket is worth\<close>

lemma granted:
  assumes "run (server_step en bo ck) server_new is = (s, es)" and "t < length (tasks s)"
    and "lock_of (task_at s t) = Some arc" and "server_step en bo ck s (Resume t i) = (s1, es1)"
    and "ticket_in (task_at s1 t) = Some tk"
  shows "grants ck s t i s1 es1 arc tk" and "arc < length (managers (acm_of s1))"
proof -
  have "ticket_in (task_at s t) = None" using assms(3) by (cases "task_at s t") auto
  from ticket_granted [OF run_serving [OF assms(1)] assms(2,4) this assms(5)] obtain arc' where
    "grants ck s t i s1 es1 arc' tk" .
  moreover from this assms(3) have "arc' = arc" by (simp add: grants_def)
  ultimately show "grants ck s t i s1 es1 arc tk" "arc < length (managers (acm_of s1))" by (simp_all add: grants_def)
qed



section \<open>Evaluation\<close>

definition fetched :: "server_input list" where
  "fetched = goes_online @ fetches 0 1 ''conn-1'' quiet some_gc 2000 @ [Daemon 0 (OnOthers (OnCollector some_gc))]"

lemma session_collector:
  assumes "online en n ttl now p arc s" and "ticket_new ck n ttl (utc_now g) (instant_now g) = Done tk" and "patch_answer g = Ok ()"
  shows "collector_at (fst (run (server_step en bo ck) s (fetches arc (length (tasks s)) n x g t5
      @ refreshes arc (length (tasks s)) g))) arc = (gc_new n ttl)\<lparr>gc_phase := Counting tk\<rparr>"
  using assms(1) by (rule onlineE) (use assms(2,3) in \<open>simp add: fetches_def refreshes_def server_eval\<close>)

lemma fetched_run:
  obtains s es s1 es1 where "run conn_step server_new fetched = (s, es)" "1 < length (tasks s)"
    "lock_of (task_at s 1) = Some 0" "conn_step s (Resume 1 some_gc) = (s1, es1)"
    "ticket_in (task_at s1 1) = Some leasing" "gc_ttl (collector_at s 0) = DEFAULT_TTL"
    "gc_phase (collector_at s1 0) = Counting leasing"
proof -
  from goes_online_run obtain s0 fs where r: "run conn_step server_new goes_online = (s0, fs)"
    "tasks s0 = [(Post_Deploy ''t'' ''Oracle v1'' None, Answered (Deployed (Ok up_pod)))]"
    "online quarter_hour ''conn-1'' DEFAULT_TTL 0 up_pod 0 s0" by blast
  let ?f = "fetches 0 1 ''conn-1'' quiet some_gc 2000" and ?d = "Daemon 0 (OnOthers (OnCollector some_gc))"
  obtain s es where s: "run conn_step server_new fetched = (s, es)" by fastforce
  obtain s1 es1 where s1: "conn_step s (Resume 1 some_gc) = (s1, es1)" by fastforce
  have "s = fst (run conn_step s0 (?f @ [?d]))"
    using s run_after [OF r(1), of "?f @ [?d]"] by (simp add: fetched_def)
  moreover obtain u gs where u: "run conn_step s0 ?f = (u, gs)" by fastforce
  ultimately have su: "s = fst (conn_step u ?d)" using run_after [OF u, of "[?d]"] by (simp split: prod.splits)
  then have "tasks s = tasks u" by (auto simp: server_step_def split: prod.splits)
  with fetches_run [OF r(3), of "half_second 30000" wide_clock quiet some_gc 2000] r(2) u
  have t: "1 < length (tasks s)" "lock_of (task_at s 1) = Some 0" by simp_all
  have e: "s1 = fst (run conn_step s0 (?f @ refreshes 0 1 some_gc))"
    using run_after [OF u, of "refreshes 0 1 some_gc"] su s1 by (simp add: refreshes_def gc_at_def split: prod.splits)
  with session_run [OF r(3) leasing_ticket, of "half_second 30000" quiet 2000] r(2)
  have tk: "ticket_in (task_at s1 1) = Some leasing" by (simp add: gc_at_def)
  from e session_collector [OF r(3) leasing_ticket, of "half_second 30000" quiet 2000] r(2)
  have c: "collector_at s1 0 = (gc_new ''conn-1'' DEFAULT_TTL)\<lparr>gc_phase := Counting leasing\<rparr>" by (simp add: gc_at_def)
  from granted(1) [OF s t s1 tk] obtain d gs where
    "gc_refresh wide_clock (collector_at s 0) some_gc = Some (d, gs, Ok leasing)" "collector_at s1 0 = d"
    by (auto simp: grants_def)
  with gc_refresh_OkD(3) [OF this(1)] c have "gc_ttl (collector_at s 0) = DEFAULT_TTL" by simp
  moreover from c have "gc_phase (collector_at s1 0) = Counting leasing" by simp
  ultimately show ?thesis using s t s1 tk that by blast
qed



end
