(* ===== verification/Channels.thy ===== *)
theory Channels
  imports Monitor
begin

text \<open>
  The model of a pod manager gives its channels no bound; the code gives the channel to the collector
  a hundred places and the one to the handle a single one, and a sender waits for a free place. Here
  is shown how far the channels ever fill, so that leaving the bounds out is justified.
\<close>

section \<open>The fill level\<close>

definition metered :: "string \<Rightarrow> 'b system \<Rightarrow> sys_effect list \<Rightarrow> bool" where
  "metered name s es \<longleftrightarrow> wired name s es \<and> length (gc_channel s) \<le> length (signalled es)
     \<and> length (result_channel s) + (if shim (upper s) = ShimRecv then 0 else 1)
       \<le> length (client_results (watcher_did es)) + (if watcher_gone s \<and> result_channel s = [] then 1 else 0)"

lemma sent_at_most:
  "length (List.map_filter sent_gc es) \<le> length (gc_signals es)"
  "length (List.map_filter sent_result es) \<le> length (client_results es)"
proof -
  have "sent_gc e = Some x \<Longrightarrow> gc_signal e = Some x" "sent_result e = Some r \<Longrightarrow> client_result e = Some r" for e x r
    by (auto elim!: sent_gc.elims sent_result.elims)
  then show "length (List.map_filter sent_gc es) \<le> length (gc_signals es)"
    "length (List.map_filter sent_result es) \<le> length (client_results es)"
    by (induction es) (fastforce simp: List.map_filter_simps split: option.splits)+
qed

lemma shim_leaves_once:
  assumes "handle_step h i = (h', es)"
  shows "shim h' = ShimRecv \<longleftrightarrow> shim h = ShimRecv \<and> (\<forall>x now. i \<noteq> Inbound x now)"
  using assms by (cases i) (auto simp: machine_simps split: handle_splits)

lemma metered_step:
  assumes "metered name s es" and "sys_step en ck s i = (s', es')"
  shows "metered name s' (es @ es')"
proof -
  have w: "wired name s' (es @ es')" using wiring.inv_step_any [OF _ assms(2)] assms(1) by (simp add: metered_def)
  show ?thesis
  proof (cases i)
    case (OnWatcher ev now)
    define j where "j = \<lparr>ew_event = ev, ew_now = now, gc_open = \<not> collector_gone s, upstream_open = \<not> shim_gone s\<rparr>"
    obtain d fs where st: "ew_step en (watcher s) j = (d, fs)" by fastforce
    with assms(2) OnWatcher have s': "s' = s\<lparr>watcher := d, gc_channel := gc_channel s @ List.map_filter sent_gc fs,
        result_channel := result_channel s @ List.map_filter sent_result fs\<rparr>" "es' = map ByWatcher fs"
      by (auto simp: sys_step_def watcher_turn_def j_def)
    show ?thesis
    proof (cases "watcher_gone s")
      case True
      from ew.halted_step [OF True] st have "d = watcher s" "fs = []" by auto
      with s' assms(1) w show ?thesis by (simp add: metered_def)
    next
      case False
      with s' w sent_at_most [of fs] assms(1) show ?thesis by (auto simp: metered_def)
    qed
  next
    case (OnCollector j)
    with assms(2) have "watcher s' = watcher s" "upper s' = upper s" "result_channel s' = result_channel s"
      "length (gc_channel s') \<le> length (gc_channel s)" "watcher_did es' = []"
      by (auto simp: sys_step_def turn_defs recv_def split: gc_event.splits prod.splits option.splits list.splits if_splits)
    with assms(1) w show ?thesis by (auto simp: metered_def)
  next
    case (OnHandle j)
    then have keep: "watcher s' = watcher s" "gc_channel s' = gc_channel s" "watcher_did es' = []"
      using assms(2) by (auto simp: sys_step_def turn_defs split: handle_input.splits prod.splits option.splits if_splits)
    have "length (result_channel s') + (if shim (upper s') = ShimRecv then 0 else 1)
        \<le> length (result_channel s) + (if shim (upper s) = ShimRecv then 0 else 1)
          + (if watcher_gone s \<and> result_channel s = [] \<and> shim (upper s) = ShimRecv then 1 else 0)
      \<and> (result_channel s = [] \<longrightarrow> result_channel s' = [])"
      using assms(2) OnHandle
      by (cases j) (auto simp: sys_step_def handle_recv_def handle_turn_def recv_def dest: shim_leaves_once
          split: prod.splits option.splits list.splits if_splits)
    with assms(1) w keep show ?thesis by (auto simp: metered_def split: if_splits)
  qed
qed

interpretation meter: monitor en ck "\<lambda>_. True" "metered name"
  for en :: "'b ew_env" and ck name
  by unfold_locales (rule metered_step)

lemma new_podmanager_metered: "metered name (new_podmanager en name ttl now) []"
  by (simp add: metered_def new_podmanager_wired) (simp add: new_podmanager_def handle_new_def)

lemma server_metered:
  assumes "run (server_step en bo ck) server_new is = (s, es)" and "arc < length (managers (acm_of s))"
  obtains name where "metered name (manager (managers (acm_of s) ! arc)) (manager_did (effects_of arc (acm_did es)))"
proof -
  from server_part [OF assms] obtain pod ttl now js where
    "run (managed_step en bo ck) (new_managed en pod ttl now) js = (managers (acm_of s) ! arc, effects_of arc (acm_did es))"
    by metis
  from manager_run [OF this] obtain ks where
    "run (sys_step en ck) (new_podmanager en pod ttl now) ks
       = (manager (managers (acm_of s) ! arc), manager_did (effects_of arc (acm_did es)))"
    by (auto simp: new_managed_def)
  from meter.sys_run [OF this new_podmanager_metered] show thesis by (auto intro: that)
qed

section \<open>The bounds are never felt\<close>

lemma said_lengths:
  assumes "ew_said name ph g r k"
  shows "length g \<le> 2" and "length r \<le> 2" and "\<not> ew_halted ph \<Longrightarrow> length r \<le> 1"
  using assms by (auto elim: ew_said.cases)

text \<open>
  C20: no coroutine of a pod manager waits for a place in a channel. Of the hundred places of the
  channel to the collector at most two are ever used. The one place of the channel to the handle is
  free whenever the watcher has a verdict to send, except that its second verdict may come before the
  shim has been polled to take the first; once the shim has taken it the channel holds one at most.
\<close>

theorem channels_never_full:
  assumes "run (server_step en bo ck) server_new is = (s, es)" and "arc < length (managers (acm_of s))"
    and "m = manager (managers (acm_of s) ! arc)"
  shows "length (gc_channel m) \<le> 2
    \<and> (shim (upper m) \<noteq> ShimRecv \<longrightarrow> length (result_channel m) \<le> 1)
    \<and> (\<not> watcher_gone m \<longrightarrow> length (result_channel m) \<le> 1 \<and> (shim (upper m) \<noteq> ShimRecv \<longrightarrow> result_channel m = []))"
proof -
  from server_metered [OF assms(1,2)] obtain name where
    m: "metered name m (manager_did (effects_of arc (acm_did es)))" using assms(3) by metis
  let ?es = "manager_did (effects_of arc (acm_did es))"
  from m have "ew_said name (ew_phase (watcher m)) (signalled ?es) (client_results (watcher_did ?es)) (killed_pods (watcher_did ?es))"
    by (simp add: metered_def wired_def ew_protocol_def)
  note said = said_lengths [OF this]
  from m have fill: "length (gc_channel m) \<le> length (signalled ?es)"
    "length (result_channel m) + (if shim (upper m) = ShimRecv then 0 else 1)
       \<le> length (client_results (watcher_did ?es)) + (if watcher_gone m \<and> result_channel m = [] then 1 else 0)"
    by (simp_all add: metered_def)
  have "length (result_channel m) \<le> 1" if "shim (upper m) \<noteq> ShimRecv"
    using fill(2) said(2) that by (cases "result_channel m = []") simp_all
  moreover have "length (result_channel m) \<le> 1" if "\<not> watcher_gone m"
    using fill(2) said(3) that by simp
  moreover have "length (result_channel m) < 1" if "\<not> watcher_gone m" "shim (upper m) \<noteq> ShimRecv"
    using fill(2) said(3) that by (cases "result_channel m") simp_all
  moreover have "length (gc_channel m) \<le> 2" using fill(1) said(1) by simp
  ultimately show ?thesis by simp
qed

section \<open>Evaluation\<close>

theorem channels_never_full_witness:
  "\<exists>s es m. run conn_step server_new goes_online = (s, es) \<and> m = manager (managers (acm_of s) ! 0)
     \<and> result_channel m = [Ok up_pod] \<and> shim (upper m) = ShimRecv \<and> length (gc_channel m) \<le> 2"
proof -
  from goes_online_run obtain s fs where r: "run conn_step server_new goes_online = (s, fs)"
    "online quarter_hour ''conn-1'' DEFAULT_TTL 0 up_pod 0 s" by blast
  from r(2) have a: "0 < length (managers (acm_of s))" "result_channel (manager (managers (acm_of s) ! 0)) = [Ok up_pod]"
    "shim (upper (manager (managers (acm_of s) ! 0))) = ShimRecv"
    by (auto elim!: onlineE simp: new_podmanager_def handle_new_def)
  from channels_never_full [OF r(1) a(1) refl] r(1) a(2,3) show ?thesis by blast
qed

end
