(* ===== verification/Adoption.thy ===== *)
theory Adoption
  imports K8s
begin

text \<open>
  Model of acm podmanager/adoption.rs: the search for pods whose connector manager is gone. It
  lists the pods and the managers of the cluster and is not called by the service yet.
\<close>

section \<open>Orphans\<close>

text \<open>The pods whose servicer is not among the running managers, by name; they are only logged.\<close>

fun orphan_names :: "string list \<Rightarrow> pod list \<Rightarrow> string list outcome" where
  "orphan_names acms [] = Done []"
| "orphan_names acms (p # ps) =
     outcome_bind (unwrap ''labels'' (labels (metadata p))) (\<lambda>ls.
     outcome_bind (unwrap ''servicer'' (map_of ls ''servicer'')) (\<lambda>s.
       if s \<in> set acms then orphan_names acms ps
       else outcome_bind (resource_name p) (\<lambda>n.
              outcome_bind (orphan_names acms ps) (\<lambda>ns. Done (n # ns)))))"

fun all_names :: "pod list \<Rightarrow> string list outcome" where
  "all_names [] = Done []"
| "all_names (p # ps) =
     outcome_bind (resource_name p) (\<lambda>n. outcome_bind (all_names ps) (\<lambda>ns. Done (n # ns)))"

definition find_orphans ::
  "(pod list, kube_error) result \<Rightarrow> (pod list, kube_error) result \<Rightarrow> string list outcome" where
  "find_orphans pods acms =
     (case pods of
        Err _ \<Rightarrow> Panic ''list''
      | Ok ps \<Rightarrow>
          (case acms of
             Err _ \<Rightarrow> Panic ''list''
           | Ok as \<Rightarrow> outcome_bind (all_names as) (\<lambda>ns. orphan_names ns ps)))"

lemma orphan_names_filter:
  assumes "\<forall>p \<in> set ps. meta_name (metadata p) \<noteq> None
    \<and> (\<exists>ls. labels (metadata p) = Some ls \<and> map_of ls ''servicer'' \<noteq> None)"
  shows "orphan_names acms ps = Done (map (\<lambda>p. the (meta_name (metadata p)))
    (filter (\<lambda>p. the (map_of (the (labels (metadata p))) ''servicer'') \<notin> set acms) ps))"
  using assms by (induction ps) (auto simp: resource_name_def)

lemma all_names_map:
  assumes "\<forall>p \<in> set ps. meta_name (metadata p) \<noteq> None"
  shows "all_names ps = Done (map (\<lambda>p. the (meta_name (metadata p))) ps)"
  using assms by (induction ps) (auto simp: resource_name_def)

text \<open>
  The search for orphans names, in the order of the listing, exactly the pods whose servicer
  label names no running manager.
\<close>

lemma find_orphans_spec:
  assumes "\<forall>p \<in> set as. meta_name (metadata p) \<noteq> None"
    and "\<forall>p \<in> set ps. meta_name (metadata p) \<noteq> None
      \<and> (\<exists>ls. labels (metadata p) = Some ls \<and> map_of ls ''servicer'' \<noteq> None)"
  shows "find_orphans (Ok ps) (Ok as) = Done (map (\<lambda>p. the (meta_name (metadata p)))
    (filter (\<lambda>p. \<forall>m \<in> set as. meta_name (metadata m) \<noteq> map_of (the (labels (metadata p))) ''servicer'') ps))"
proof -
  have "the (map_of (the (labels (metadata p))) ''servicer'') \<notin> set (map (\<lambda>m. the (meta_name (metadata m))) as)
    \<longleftrightarrow> (\<forall>m \<in> set as. meta_name (metadata m) \<noteq> map_of (the (labels (metadata p))) ''servicer'')"
    if "p \<in> set ps" for p
    using that assms by force
  then show ?thesis
    unfolding find_orphans_def by (simp add: all_names_map [OF assms(1)] orphan_names_filter [OF assms(2)] cong: filter_cong)
qed

end
