(* ===== verification/Utf8.thy ===== *)
theory Utf8
  imports Prelude
begin

text \<open>
  The UTF-8 decoder that the command runner (library/os process.rs) applies to the output of a
  command: \<open>String::from_utf8\<close> with its error and \<open>String::from_utf8_lossy\<close>, on bytes. The encoder
  of Unicode scalar values is the reference it is measured against.
\<close>

section \<open>Decoding\<close>

datatype scan = Complete | Bad | Ended

text \<open>How many continuation bytes follow a leading byte, and the range of the first of them.\<close>

definition utf8_lead :: "nat \<Rightarrow> (nat \<times> nat \<times> nat) option" where
  "utf8_lead b =
     (if b < 0x80 then Some (0, 0x80, 0xBF)
      else if 0xC2 \<le> b \<and> b \<le> 0xDF then Some (1, 0x80, 0xBF)
      else if b = 0xE0 then Some (2, 0xA0, 0xBF)
      else if b = 0xED then Some (2, 0x80, 0x9F)
      else if 0xE1 \<le> b \<and> b \<le> 0xEF then Some (2, 0x80, 0xBF)
      else if b = 0xF0 then Some (3, 0x90, 0xBF)
      else if 0xF1 \<le> b \<and> b \<le> 0xF3 then Some (3, 0x80, 0xBF)
      else if b = 0xF4 then Some (3, 0x80, 0x8F)
      else None)"

fun scan_conts :: "nat \<Rightarrow> nat \<Rightarrow> nat \<Rightarrow> string \<Rightarrow> nat \<times> scan" where
  "scan_conts 0 lo hi s = (0, Complete)"
| "scan_conts (Suc n) lo hi [] = (0, Ended)"
| "scan_conts (Suc n) lo hi (c # cs) =
     (if lo \<le> byte c \<and> byte c \<le> hi
      then (case scan_conts n 0x80 0xBF cs of (k, r) \<Rightarrow> (Suc k, r)) else (0, Bad))"

definition utf8_head :: "char \<Rightarrow> string \<Rightarrow> nat \<times> scan" where
  "utf8_head b bs =
     (case utf8_lead (byte b) of
        None \<Rightarrow> (1, Bad)
      | Some (n, lo, hi) \<Rightarrow> (case scan_conts n lo hi bs of (k, r) \<Rightarrow> (Suc k, r)))"

lemma utf8_head_pos: "utf8_head b bs = (n, r) \<Longrightarrow> 0 < n"
  by (auto simp: utf8_head_def split: option.splits prod.splits)

text \<open>\<open>from_utf8\<close>: where the first error is, and how many bytes it spans unless the text ended.\<close>

function utf8_error :: "nat \<Rightarrow> string \<Rightarrow> (nat \<times> nat option) option" where
  "utf8_error i [] = None"
| "utf8_error i (b # bs) =
     (case utf8_head b bs of
        (n, Complete) \<Rightarrow> utf8_error (i + n) (drop n (b # bs))
      | (n, Bad) \<Rightarrow> Some (i, Some n)
      | (n, Ended) \<Rightarrow> Some (i, None))"
  by pat_completeness auto
termination
  by (relation "measure (\<lambda>(i, s). length s)") (auto dest!: sym [THEN utf8_head_pos])

function from_utf8_lossy :: "string \<Rightarrow> string" where
  "from_utf8_lossy [] = []"
| "from_utf8_lossy (b # bs) =
     (case utf8_head b bs of
        (n, r) \<Rightarrow> (if r = Complete then take n (b # bs) else [CHR 0xEF, CHR 0xBF, CHR 0xBD])
                  @ from_utf8_lossy (drop n (b # bs)))"
  by pat_completeness auto
termination
  by (relation "measure length") (auto dest!: sym [THEN utf8_head_pos])

definition valid_utf8 :: "string \<Rightarrow> bool" where
  "valid_utf8 s \<longleftrightarrow> utf8_error 0 s = None"

definition utf8_error_display :: "nat \<times> nat option \<Rightarrow> string" where
  "utf8_error_display e =
     (case e of
        (i, Some n) \<Rightarrow> ''invalid utf-8 sequence of '' @ show_nat n @ '' bytes from index '' @ show_nat i
      | (i, None) \<Rightarrow> ''incomplete utf-8 byte sequence from index '' @ show_nat i)"

section \<open>Encoding\<close>

text \<open>A Unicode scalar value is a code point that is not a surrogate.\<close>

definition scalar :: "nat \<Rightarrow> bool" where
  "scalar cp \<longleftrightarrow> cp < 0xD800 \<or> 0xE000 \<le> cp \<and> cp < 0x110000"

definition cont_byte :: "nat \<Rightarrow> char" where
  "cont_byte x = char_of (0x80 + x mod 64)"

definition utf8_encode :: "nat \<Rightarrow> string" where
  "utf8_encode cp =
     (if cp < 0x80 then [char_of cp]
      else if cp < 0x800 then [char_of (0xC0 + cp div 64), cont_byte cp]
      else if cp < 0x10000 then [char_of (0xE0 + cp div 4096), cont_byte (cp div 64), cont_byte cp]
      else [char_of (0xF0 + cp div 262144), cont_byte (cp div 4096), cont_byte (cp div 64), cont_byte cp])"

definition utf8_text :: "nat list \<Rightarrow> string" where
  "utf8_text cps = concat (map utf8_encode cps)"

text \<open>The encoder on the base-64 digits of its argument.\<close>

lemma digits64:
  fixes a b :: nat
  assumes "b < 64"
  shows "(a * 64 + b) div 64 = a" "(a * 64 + b) mod 64 = b"
  using assms by simp_all

lemma div_powers: "n div 4096 = n div 64 div 64" "n div 262144 = n div 64 div 64 div (64::nat)"
  by (simp_all add: div_mult2_eq [symmetric])

lemma encode2:
  assumes "b < 64" and "2 \<le> a" and "a < 32"
  shows "utf8_encode (a * 64 + b) = [char_of (0xC0 + a), char_of (0x80 + b)]"
  using assms by (simp add: utf8_encode_def cont_byte_def digits64)

lemma encode3:
  assumes "b < 64" and "c < 64" and "a < 16" and "a = 0 \<longrightarrow> 32 \<le> b"
  shows "utf8_encode ((a * 64 + b) * 64 + c) = [char_of (0xE0 + a), char_of (0x80 + b), char_of (0x80 + c)]"
proof -
  define q where "q = a * 64 + b"
  have "0x20 \<le> q" "q < 0x400" using assms by (cases "a = 0"; simp add: q_def)+
  then have "0x800 \<le> q * 64 + c" "q * 64 + c < 0x10000" using assms(2) by simp_all
  moreover have "q div 64 = a" "q mod 64 = b" unfolding q_def by (simp_all only: digits64 assms(1))
  ultimately have "utf8_encode (q * 64 + c) = [char_of (0xE0 + a), char_of (0x80 + b), char_of (0x80 + c)]"
    by (simp only: utf8_encode_def cont_byte_def div_powers digits64 assms(2) if_False not_less) simp
  then show ?thesis by (simp only: q_def)
qed

lemma encode4:
  assumes "b < 64" and "c < 64" and "d < 64" and "a = 0 \<longrightarrow> 16 \<le> b"
  shows "utf8_encode (((a * 64 + b) * 64 + c) * 64 + d)
    = [char_of (0xF0 + a), char_of (0x80 + b), char_of (0x80 + c), char_of (0x80 + d)]"
proof -
  define q r where "q = a * 64 + b" and "r = q * 64 + c"
  have "0x10 \<le> q" using assms by (cases "a = 0"; simp add: q_def)
  then have "0x10000 \<le> r * 64 + d" by (simp add: r_def)
  moreover have "q div 64 = a" "q mod 64 = b" unfolding q_def by (simp_all only: digits64 assms(1))
  moreover have "r div 64 = q" "r mod 64 = c" unfolding r_def by (simp_all only: digits64 assms(2))
  ultimately have "utf8_encode (r * 64 + d) = [char_of (0xF0 + a), char_of (0x80 + b), char_of (0x80 + c), char_of (0x80 + d)]"
    by (simp only: utf8_encode_def cont_byte_def div_powers digits64 assms(3) if_False not_less) simp
  then show ?thesis by (simp only: q_def r_def)
qed

lemmas encodes = encode2 encode3 encode4

section \<open>The decoder against the encoder\<close>

abbreviation continues :: "char \<Rightarrow> bool" where
  "continues c \<equiv> 0x80 \<le> byte c \<and> byte c \<le> 0xBF"

lemma scan_complete:
  "scan_conts 1 lo hi s = (k, Complete) \<longleftrightarrow> k = 1 \<and> (\<exists>c r. s = c # r \<and> lo \<le> byte c \<and> byte c \<le> hi)"
  "scan_conts 2 lo hi s = (k, Complete) \<longleftrightarrow>
     k = 2 \<and> (\<exists>c d r. s = c # d # r \<and> lo \<le> byte c \<and> byte c \<le> hi \<and> continues d)"
  "scan_conts 3 lo hi s = (k, Complete) \<longleftrightarrow>
     k = 3 \<and> (\<exists>c d e r. s = c # d # e # r \<and> lo \<le> byte c \<and> byte c \<le> hi \<and> continues d \<and> continues e)"
  by (cases s; cases "tl s"; cases "tl (tl s)"; auto simp: numeral_2_eq_2 numeral_3_eq_3)+

text \<open>The shape of a complete sequence.\<close>

inductive well_formed :: "char \<Rightarrow> string \<Rightarrow> nat \<Rightarrow> bool" where
  one: "byte b < 0x80 \<Longrightarrow> well_formed b bs 1"
| two: "0xC2 \<le> byte b \<Longrightarrow> byte b \<le> 0xDF \<Longrightarrow> continues c \<Longrightarrow> well_formed b (c # bs) 2"
| three: "0xE0 \<le> byte b \<Longrightarrow> byte b \<le> 0xEF \<Longrightarrow> byte b = 0xE0 \<longrightarrow> 0xA0 \<le> byte c \<Longrightarrow> byte b = 0xED \<longrightarrow> byte c \<le> 0x9F
    \<Longrightarrow> continues c \<Longrightarrow> continues d \<Longrightarrow> well_formed b (c # d # bs) 3"
| four: "0xF0 \<le> byte b \<Longrightarrow> byte b \<le> 0xF4 \<Longrightarrow> byte b = 0xF0 \<longrightarrow> 0x90 \<le> byte c \<Longrightarrow> byte b = 0xF4 \<longrightarrow> byte c \<le> 0x8F
    \<Longrightarrow> continues c \<Longrightarrow> continues d \<Longrightarrow> continues e \<Longrightarrow> well_formed b (c # d # e # bs) 4"

lemma utf8_head_iff: "utf8_head b bs = (n, Complete) \<longleftrightarrow> well_formed b bs n"
proof
  assume "utf8_head b bs = (n, Complete)"
  then show "well_formed b bs n"
    by (auto simp: utf8_head_def utf8_lead_def scan_complete [unfolded One_nat_def] split: if_splits prod.splits
        intro: well_formed.intros [unfolded One_nat_def] well_formed.two [unfolded numeral_2_eq_2])
next
  assume "well_formed b bs n"
  then show "utf8_head b bs = (n, Complete)"
    by cases (auto simp: utf8_head_def utf8_lead_def numeral_2_eq_2 numeral_3_eq_3 split: if_splits)
qed

text \<open>What the decoder takes for complete is the encoding of a scalar value, and conversely.\<close>

lemma cont_digit: "continues c \<Longrightarrow> byte c - 0x80 < 64 \<and> char_of (0x80 + (byte c - 0x80)) = c"
  by auto

lemma well_formed_encodes:
  assumes "well_formed b bs n"
  shows "\<exists>cp. scalar cp \<and> take n (b # bs) = utf8_encode cp"
  using assms
proof cases
  case one
  then show ?thesis by (intro exI [where x = "byte b"]) (simp add: scalar_def utf8_encode_def)
next
  case (two c r)
  let ?x = "byte b - 0xC0" and ?y = "byte c - 0x80"
  from two have "utf8_encode (?x * 64 + ?y) = [b, c]" by (subst encode2) auto
  moreover from two have "scalar (?x * 64 + ?y)" unfolding scalar_def by linarith
  ultimately show ?thesis using two by (intro exI [where x = "?x * 64 + ?y"]) simp
next
  case (three c d r)
  let ?x = "byte b - 0xE0" and ?y = "byte c - 0x80" and ?z = "byte d - 0x80"
  from three have "utf8_encode ((?x * 64 + ?y) * 64 + ?z) = [b, c, d]" by (subst encode3) auto
  moreover have "scalar ((?x * 64 + ?y) * 64 + ?z)"
    using three by (cases "byte b < 0xED"; cases "byte b = 0xED") (auto simp: scalar_def)
  ultimately show ?thesis using three by (intro exI [where x = "(?x * 64 + ?y) * 64 + ?z"]) simp
next
  case (four c d e r)
  let ?x = "byte b - 0xF0" and ?y = "byte c - 0x80" and ?z = "byte d - 0x80" and ?u = "byte e - 0x80"
  from four have "utf8_encode (((?x * 64 + ?y) * 64 + ?z) * 64 + ?u) = [b, c, d, e]" by (subst encode4) auto
  moreover have "scalar (((?x * 64 + ?y) * 64 + ?z) * 64 + ?u)"
    using four by (cases "byte b = 0xF0"; cases "byte b = 0xF4") (auto simp: scalar_def)
  ultimately show ?thesis using four by (intro exI [where x = "((?x * 64 + ?y) * 64 + ?z) * 64 + ?u"]) simp
qed

lemma in_digits64: obtains a b :: nat where "n = a * 64 + b" "b < 64"
  by (rule that [of "n div 64" "n mod 64"]) simp_all

lemma encode_well_formed:
  assumes "scalar cp"
  shows "\<exists>b bs. utf8_encode cp = b # bs \<and> (\<forall>rest. well_formed b (bs @ rest) (length (utf8_encode cp)))"
proof -
  obtain r d where r: "cp = r * 64 + d" "d < 64" by (rule in_digits64)
  obtain q c where q: "r = q * 64 + c" "c < 64" by (rule in_digits64)
  obtain a b where a: "q = a * 64 + b" "b < 64" by (rule in_digits64)
  consider "cp < 0x80" | "0x80 \<le> cp" "cp < 0x800" | "0x800 \<le> cp" "cp < 0x10000" | "0x10000 \<le> cp" by linarith
  then show ?thesis
  proof cases
    case 1
    then show ?thesis by (simp add: utf8_encode_def one [unfolded One_nat_def])
  next
    case 2
    with r have "2 \<le> r" "r < 32" by simp_all
    with r encode2 [of d r] show ?thesis by (simp add: two [unfolded numeral_2_eq_2])
  next
    case 3
    with r q have q': "q < 16" "q = 0 \<longrightarrow> 32 \<le> c" by simp_all
    from 3 r q assms have "q = 13 \<longrightarrow> c \<le> 31" by (auto simp: scalar_def)
    with q' q r have "well_formed (char_of (0xE0 + q)) (char_of (0x80 + c) # char_of (0x80 + d) # rest) 3" for rest
      by (simp add: three)
    with q' q r encode3 [of c d q] show ?thesis by (simp add: numeral_3_eq_3)
  next
    case 4
    with r q a assms have a': "a \<le> 4" "a = 0 \<longrightarrow> 16 \<le> b" "a = 4 \<longrightarrow> b \<le> 15" by (auto simp: scalar_def)
    with a q r have "well_formed (char_of (0xF0 + a)) (char_of (0x80 + b) # char_of (0x80 + c) # char_of (0x80 + d) # rest) 4"
      for rest by (simp add: four)
    moreover have "length (utf8_encode cp) = 4" using a' a q r encode4 [of b c d a] by simp
    ultimately show ?thesis using a' a q r encode4 [of b c d a] by (simp del: One_nat_def list.size)
  qed
qed

lemma utf8_error_encode: "scalar cp \<Longrightarrow> utf8_error i (utf8_encode cp @ s) = utf8_error (i + length (utf8_encode cp)) s"
  using encode_well_formed [of cp] by (force simp: utf8_head_iff [symmetric])

lemma utf8_error_text: "list_all scalar cps \<Longrightarrow> utf8_error i (utf8_text cps) = None"
  by (induction cps arbitrary: i) (auto simp: utf8_text_def utf8_error_encode)

lemma utf8_text_append: "utf8_text (xs @ ys) = utf8_text xs @ utf8_text ys"
  by (simp add: utf8_text_def)

lemma utf8_error_None:
  "utf8_error i s = None \<Longrightarrow> (\<exists>cps. list_all scalar cps \<and> s = utf8_text cps) \<and> from_utf8_lossy s = s"
proof (induction i s rule: utf8_error.induct)
  case (1 i)
  then show ?case by (auto simp: utf8_text_def intro: exI [where x = "[]"])
next
  case (2 i b bs)
  then obtain n where n: "utf8_head b bs = (n, Complete)" by (auto split: prod.splits scan.splits)
  with 2 obtain cps where cps: "list_all scalar cps" "drop n (b # bs) = utf8_text cps"
    "from_utf8_lossy (drop n (b # bs)) = drop n (b # bs)" by fastforce
  from n well_formed_encodes [of b bs n] obtain cp where "scalar cp" "take n (b # bs) = utf8_encode cp"
    unfolding utf8_head_iff by blast
  with cps append_take_drop_id [of n "b # bs"] have "b # bs = utf8_text (cp # cps)" "list_all scalar (cp # cps)"
    by (simp_all add: utf8_text_def)
  moreover have "from_utf8_lossy (b # bs) = b # bs"
    using n cps(3) append_take_drop_id [of n "b # bs"] by simp
  ultimately show ?case by metis
qed

lemma replacement: "[CHR 0xEF, CHR 0xBF, CHR 0xBD] = utf8_encode 0xFFFD"
  by (simp add: utf8_encode_def cont_byte_def char_of_def bit_0)

lemma lossy_text: "\<exists>cps. list_all scalar cps \<and> from_utf8_lossy s = utf8_text cps"
proof (induction s rule: from_utf8_lossy.induct)
  case 1
  then show ?case by (auto simp: utf8_text_def intro: exI [where x = "[]"])
next
  case (2 b bs)
  obtain n r where nr: "utf8_head b bs = (n, r)" by fastforce
  with 2 obtain cps where cps: "list_all scalar cps" "from_utf8_lossy (drop n (b # bs)) = utf8_text cps" by metis
  have "\<exists>cp. scalar cp \<and> (if r = Complete then take n (b # bs) else [CHR 0xEF, CHR 0xBF, CHR 0xBD]) = utf8_encode cp"
  proof (cases "r = Complete")
    case True
    with nr well_formed_encodes [of b bs n] show ?thesis by (simp add: utf8_head_iff)
  next
    case False
    then show ?thesis using replacement by (intro exI [where x = "0xFFFD"]) (simp add: scalar_def)
  qed
  then obtain cp where cp: "scalar cp"
    "(if r = Complete then take n (b # bs) else [CHR 0xEF, CHR 0xBF, CHR 0xBD]) = utf8_encode cp" by blast
  have "from_utf8_lossy (b # bs) = utf8_encode cp @ utf8_text cps" using nr cps(2) cp(2) by simp
  with cp(1) cps(1) show ?case by (intro exI [where x = "cp # cps"]) (simp add: utf8_text_def)
qed


end
