(* ===== verification/Os_Process.thy ===== *)
theory Os_Process
  imports Error_Types Utf8
begin

text \<open>
  Model of library/os/src/process.rs and of aim env/mod.rs: running a command and what its errors
  say about it, and the configuration taken from the environment with its secrets. The operating
  system is the argument \<open>sh\<close>, which answers an argument vector and an optional standard
  input.
\<close>

section \<open>Secrets and arguments\<close>

text \<open>An argument prints itself into the command's description; a \<open>Secret\<close> prints as redacted.\<close>

datatype cmd_arg = Text string | Secret string

text \<open>\<open>From<String>\<close>, \<open>From<&String>\<close> and \<open>From<&str>\<close> for \<open>Secret\<close>.\<close>

definition secret_from :: "string \<Rightarrow> cmd_arg" where
  [simp]: "secret_from s = Secret s"

text \<open>The text itself: \<open>raw_secret\<close>, and \<open>as_ref\<close>, which is what the command gets to see.\<close>

fun raw_secret :: "cmd_arg \<Rightarrow> string" where
  "raw_secret (Text s) = s"
| "raw_secret (Secret s) = s"

fun arg_display :: "cmd_arg \<Rightarrow> string" where
  "arg_display (Text s) = s"
| "arg_display (Secret _) = ''<REDACTED>''"

definition debug_string :: "cmd_arg list \<Rightarrow> string" where
  "debug_string args = join '' '' (map arg_display args)"

section \<open>Running a command\<close>

datatype spawned =
    Spawn_Err string
  | Write_Err string
  | Wait_Err string
  | Exit bool string string

type_synonym 'w shell = "string list \<Rightarrow> string option \<Rightarrow> 'w \<Rightarrow> spawned \<times> 'w"

fun exec_result :: "string \<Rightarrow> spawned \<Rightarrow> string acm_result outcome" where
  "exec_result command (Spawn_Err e) = Done (Err (E_Process (FailedToSpawn command e)))"
| "exec_result command (Write_Err e) = Panic e"
| "exec_result command (Wait_Err e) = Done (Err (E_Process (FailedToRun command e)))"
| "exec_result command (Exit ok out err) =
     (if ok then
        (case utf8_error 0 out of
           None \<Rightarrow> Done (Ok (trim_end out))
         | Some e \<Rightarrow> Done (Err (E_Process
             (InvalidUTF8 command (from_utf8_lossy out) (utf8_error_display e)))))
      else
        (case utf8_error 0 err of
           None \<Rightarrow> Done (Err (E_Process (CommandFailed command err)))
         | Some e \<Rightarrow> Done (Err (E_Process
             (InvalidUTF8Stderr command (from_utf8_lossy err) (utf8_error_display e))))))"

definition exec :: "'w shell \<Rightarrow> string option \<Rightarrow> cmd_arg list \<Rightarrow> 'w \<Rightarrow> string acm_result outcome \<times> 'w" where
  "exec sh stdin args w =
     (case sh (map raw_secret args) stdin w of (r, w') \<Rightarrow> (exec_result (debug_string args) r, w'))"

abbreviation cmd :: "'w shell \<Rightarrow> cmd_arg list \<Rightarrow> 'w \<Rightarrow> string acm_result outcome \<times> 'w" where
  "cmd sh args w \<equiv> exec sh None args w"

section \<open>The environment\<close>

type_synonym env = "string \<Rightarrow> string option"

definition var_or :: "env \<Rightarrow> string \<Rightarrow> string \<Rightarrow> string" where
  "var_or e name fallback = (case e name of None \<Rightarrow> fallback | Some v \<Rightarrow> v)"

definition registry :: "env \<Rightarrow> string" where
  "registry e = var_or e ''REGISTRY'' ''registry.kube-system''"

definition repository :: "env \<Rightarrow> string" where
  "repository e = var_or e ''REPOSITORY'' ''ocf''"

definition implementation :: "env \<Rightarrow> string" where
  "implementation e = var_or e ''IMPLEMENTATION'' ''Minikube''"

text \<open>\<open>map_empty_to_error\<close>: an empty variable counts as missing.\<close>

definition map_empty_to_error :: "string \<Rightarrow> string option" where
  "map_empty_to_error v = (if v = [] then None else Some v)"

definition mandatory :: "env \<Rightarrow> string \<Rightarrow> string outcome" where
  "mandatory e name =
     (case Option.bind (e name) map_empty_to_error of
        None \<Rightarrow> Panic (''The '' @ name @ '' environment variable is mandatory when using the ECR implementation'')
      | Some v \<Rightarrow> Done v)"

definition aws_region :: "env \<Rightarrow> string outcome" where
  "aws_region e = mandatory e ''AWS_REGION''"

definition aws_access_key_id :: "env \<Rightarrow> string outcome" where
  "aws_access_key_id e = mandatory e ''AWS_ACCESS_KEY_ID''"

definition aws_secret_access_key :: "env \<Rightarrow> cmd_arg outcome" where
  "aws_secret_access_key e = outcome_bind (mandatory e ''AWS_SECRET_ACCESS_KEY'') (\<lambda>s. Done (secret_from s))"

definition aws_username :: "env \<Rightarrow> string outcome" where
  "aws_username e = mandatory e ''AWS_USERNAME''"

section \<open>Output\<close>

text \<open>Cutting a text between two of its characters leaves the characters before the cut.\<close>

lemma cut_starts_char:
  assumes "r = [] \<or> \<not> is_cont (hd r)"
  shows "takeWhile is_cont (concat (take m (chars r))) = []"
  using assms by (cases r; cases m) auto

lemma chars_take: "chars (concat (take n (chars s))) = take n (chars s)"
proof (induction s arbitrary: n rule: chars.induct)
  case (2 b bs)
  show ?case
  proof (cases n)
    case (Suc m)
    define u r where "u = takeWhile is_cont bs" and "r = dropWhile is_cont bs"
    let ?t = "concat (take m (chars r))"
    have "r = [] \<or> \<not> is_cont (hd r)" unfolding r_def by (meson hd_dropWhile)
    then have t: "takeWhile is_cont ?t = []" by (rule cut_starts_char)
    then have "dropWhile is_cont ?t = ?t" by (metis append_Nil takeWhile_dropWhile_id)
    moreover have "\<forall>x \<in> set u. is_cont x" by (auto simp: u_def dest: set_takeWhileD)
    ultimately have "takeWhile is_cont (u @ ?t) = u" "dropWhile is_cont (u @ ?t) = ?t"
      using t by (auto simp: takeWhile_append dropWhile_append)
    with 2 [of m] Suc show ?thesis by (simp add: u_def r_def)
  qed simp
qed simp

lemma trim_end_chars: "chars (trim_end s) = rev (dropWhile is_whitespace (rev (chars s)))"
proof -
  have "rev (dropWhile is_whitespace (rev (chars s))) = take (length (dropWhile is_whitespace (rev (chars s)))) (chars s)"
    by (metis dropWhile_eq_drop length_drop length_rev rev_drop rev_rev_ident)
  then show ?thesis unfolding trim_end_def by (metis chars_take)
qed

lemma trim_end_last: "trim_end s = [] \<or> \<not> is_whitespace (last (chars (trim_end s)))"
proof (cases "dropWhile is_whitespace (rev (chars s))")
  case Nil
  then have "trim_end s = []" unfolding trim_end_def by (simp only: Nil) simp
  then show ?thesis ..
next
  case (Cons c cs)
  with trim_end_chars [of s] have "last (chars (trim_end s)) = c" by simp
  with Cons show ?thesis by (auto simp: dropWhile_eq_Cons_conv)
qed

text \<open>
  A command succeeds exactly when it was run, exited successfully and printed UTF-8; its result
  is what it printed without trailing white space, of which no character is left.
\<close>

lemma exec_Ok_iff:
  "fst (exec sh stdin args w) = Done (Ok out) \<longleftrightarrow>
     (\<exists>txt err. fst (sh (map raw_secret args) stdin w) = Exit True txt err \<and> valid_utf8 txt
        \<and> out = trim_end txt \<and> (out = [] \<or> \<not> is_whitespace (last (chars out))))"
proof -
  have "exec_result c r = Done (Ok out) \<longleftrightarrow>
      (\<exists>txt err. r = Exit True txt err \<and> valid_utf8 txt \<and> out = trim_end txt)" for c r
    by (cases r) (auto simp: valid_utf8_def split: option.splits)
  then show ?thesis
    using trim_end_last by (auto simp: exec_def split: prod.splits)
qed



end
