(* ===== verification/Containerd.thy ===== *)
theory Containerd
  imports Os_Process Backoff Names
begin

text \<open>
  Model of aim registry/containerd: an uploaded image is imported into a fresh containerd
  namespace, retagged and pushed. The steps of the workflow own what they created: when a step is
  left, on whatever way, the images it held and finally the namespace are dropped, which starts a
  coroutine that removes them from containerd. A step returns its result and the cleanups it has
  started, in order. \<open>ctr\<close> and \<open>aws\<close> are run through the shell \<open>sh\<close>.
\<close>

section \<open>Configuration\<close>

datatype registry_kind = Ecr | Minikube

text \<open>\<open>Implementation::which\<close>; \<open>lower\<close> is \<open>str::to_lowercase\<close>.\<close>

definition which :: "(string \<Rightarrow> string) \<Rightarrow> env \<Rightarrow> registry_kind outcome" where
  "which lower e =
     (let i = lower (implementation e) in
      if i = ''ecr'' then Done Ecr else if i = ''minikube'' then Done Minikube
      else Panic (''the IMPLEMENTATION environment variable was set to '' @ implementation e
        @ ''. It can be one of either ECR or Minikube (case insensitive)''))"

section \<open>Images\<close>

record image =
  tag :: string
  digest :: string

record tmp_image =
  reference :: string
  tmp_tag :: string
  tmp_digest :: string
  namespace_of :: string

definition image_from :: "tmp_image \<Rightarrow> image" where
  "image_from i = \<lparr>tag = tmp_tag i, digest = tmp_digest i\<rparr>"

definition ctr :: "'w shell \<Rightarrow> cmd_arg list \<Rightarrow> 'w \<Rightarrow> string acm_result outcome \<times> 'w" where
  [simp]: "ctr sh args w = cmd sh (Text ''ctr'' # args) w"

text \<open>The macros \<open>aws!\<close> and \<open>ecr!\<close>.\<close>

definition aws :: "'w shell \<Rightarrow> cmd_arg list \<Rightarrow> 'w \<Rightarrow> string acm_result outcome \<times> 'w" where
  [simp]: "aws sh args w = cmd sh (Text ''aws'' # args) w"

definition ecr :: "'w shell \<Rightarrow> cmd_arg list \<Rightarrow> 'w \<Rightarrow> string acm_result outcome \<times> 'w" where
  [simp]: "ecr sh args w = cmd sh (Text ''aws'' # Text ''ecr'' # args) w"

section \<open>Cleanup\<close>

datatype cleanup = Remove_Image string string | Remove_Namespace string

fun cleanup_args :: "cleanup \<Rightarrow> cmd_arg list" where
  "cleanup_args (Remove_Image ns ref) = [Text ''-n'', Text ns, Text ''images'', Text ''remove'', Text ref]"
| "cleanup_args (Remove_Namespace ns) = [Text ''namespace'', Text ''remove'', Text ns]"

definition drop_image :: "tmp_image \<Rightarrow> cleanup list" where
  "drop_image i = [Remove_Image (namespace_of i) (reference i)]"

definition drop_namespace :: "string \<Rightarrow> cleanup list" where
  "drop_namespace ns = [Remove_Namespace ns]"

text \<open>The coroutine a drop starts: try, and pause and try again until the backoff gives up.\<close>

datatype drop_phase = Removing | Removed | Orphaned

record 'b drop_task =
  drop_backoff :: 'b
  drop_phase :: drop_phase

datatype drop_effect = DropPause nat

definition drop_step ::
  "'b backoff_ops \<Rightarrow> 'b drop_task \<Rightarrow> bool \<times> nat \<Rightarrow> 'b drop_task \<times> drop_effect list" where
  "drop_step bo d i =
     (case i of (ok, now) \<Rightarrow>
        if drop_phase d \<noteq> Removing then (d, [])
        else (case bo_next bo now (drop_backoff d) of
                (pause, b) \<Rightarrow>
                  if ok then (d\<lparr>drop_backoff := b, drop_phase := Removed\<rparr>, [])
                  else (case pause of
                          Some t \<Rightarrow> (d\<lparr>drop_backoff := b\<rparr>, [DropPause t])
                        | None \<Rightarrow> (d\<lparr>drop_backoff := b, drop_phase := Orphaned\<rparr>, []))))"

interpretation drop: daemon "drop_step bo" "\<lambda>d. drop_phase d \<noteq> Removing"
  for bo :: "'b backoff_ops"
  by unfold_locales (auto simp: drop_step_def split: prod.splits)

text \<open>
  The cleanup coroutine ends: an attempt after the time the backoff allows is its last, whether
  it succeeds or orphans what it was to remove.
\<close>

lemma drop_step_since:
  "elapsed_law bo since \<Longrightarrow> since (drop_backoff (fst (drop_step bo d i))) = since (drop_backoff d)"
  by (cases "bo_next bo (snd i) (drop_backoff d)")
    (auto simp: drop_step_def elapsed_law_def split: prod.splits option.splits; metis snd_conv)

lemma drop_step_last:
  assumes "gives_up_law bo since limit" and "since (drop_backoff d) + limit < now"
  shows "drop_phase (fst (drop_step bo d (ok, now))) \<noteq> Removing"
proof -
  have "fst (bo_next bo now (drop_backoff d)) = None" using assms by (simp add: gives_up_law_def)
  then show ?thesis by (auto simp: drop_step_def split: prod.splits)
qed

lemma drop_ends:
  assumes "elapsed_law bo since" and "gives_up_law bo since limit"
    and "(ok, now) \<in> set is" and "since (drop_backoff d) + limit < now"
  shows "drop_phase (fst (run (drop_step bo) d is)) \<noteq> Removing"
  using assms(3,4)
proof (induction "is" arbitrary: d)
  case (Cons i "is")
  let ?d = "fst (drop_step bo d i)"
  have run: "fst (run (drop_step bo) d (i # is)) = fst (run (drop_step bo) ?d is)" by (simp split: prod.splits)
  show ?case
  proof (cases "i = (ok, now)")
    case True
    with drop_step_last [OF assms(2) Cons.prems(2), of ok] have "drop_phase ?d \<noteq> Removing" by simp
    with drop.run_halted [OF this] run show ?thesis by simp
  next
    case False
    with Cons drop_step_since [OF assms(1), of d i] run show ?thesis by simp
  qed
qed simp

section \<open>The workflow\<close>

abbreviation newline :: char where
  "newline \<equiv> CHR 0x0A"

definition extract_image_metadata_from_str :: "string \<Rightarrow> string \<Rightarrow> (string \<times> string \<times> string) acm_result" where
  "extract_image_metadata_from_str ns images_ls =
     (case split_on newline images_ls of
        [_, data] \<Rightarrow>
          (case split_on (CHR '' '') data of
             ref # _ # dig # _ \<Rightarrow>
               (case rsplit_once (CHR '':'') ref of
                  Some (_, t) \<Rightarrow> Ok (ref, t, dig)
                | None \<Rightarrow> Err (E_Import (UnexpectedImageReferenceFormat ref)))
           | _ \<Rightarrow> Err (E_Import (UnexpectedContainerdImageRow images_ls)))
      | [header] \<Rightarrow> Err (E_Import (CtrImageLs_NoData ns header))
      | _ \<Rightarrow> Err (E_Import (UnexpectedContainerdImageLsFormat images_ls)))"

definition extract_image_metadata :: "'w shell \<Rightarrow> string \<Rightarrow> 'w \<Rightarrow> tmp_image acm_result outcome \<times> 'w" where
  "extract_image_metadata sh ns w =
     (case ctr sh [Text ''-n'', Text ns, Text ''images'', Text ''ls''] w of
        (r, w') \<Rightarrow>
          (outcome_bind r (\<lambda>r. Done (and_then r (\<lambda>out.
             and_then (extract_image_metadata_from_str ns out) (\<lambda>(ref, t, dig).
               Ok \<lparr>reference = ref, tmp_tag = t, tmp_digest = dig, namespace_of = ns\<rparr>)))), w'))"

text \<open>\<open>Import::import\<close>; an upload that is not in a file, or whose path is not text, panics.\<close>

definition import_step :: "'w shell \<Rightarrow> string \<Rightarrow> string option \<Rightarrow> 'w \<Rightarrow> tmp_image acm_result outcome \<times> 'w" where
  "import_step sh ns tmp w =
     (case tmp of
        None \<Rightarrow> (Panic ''TempFile::path'', w)
      | Some path \<Rightarrow>
          (case ctr sh [Text ''-n'', Text ns, Text ''images'', Text ''import'', Text ''--no-unpack'', Text path] w of
             (Done (Ok _), w') \<Rightarrow> extract_image_metadata sh ns w'
           | (Done (Err e), w') \<Rightarrow> (Done (Err e), w')
           | (Panic m, w') \<Rightarrow> (Panic m, w')))"

record draws =
  namespace_uuid :: string
  tag_uuid :: string
  tag_letter :: char
  unicode_letter :: "string \<Rightarrow> bool"

text \<open>\<open>Namespace::new\<close>: a fresh UUID; \<open>WorkFlow::new_workflow\<close> hands the namespace to the import.\<close>

definition namespace_new :: "draws \<Rightarrow> string" where
  [simp]: "namespace_new dr = namespace_uuid dr"

record workflow_import =
  import_namespace :: string

definition new_workflow :: "string \<Rightarrow> workflow_import" where
  [simp]: "new_workflow ns = \<lparr>import_namespace = ns\<rparr>"

definition retag_step ::
  "'w shell \<Rightarrow> env \<Rightarrow> draws \<Rightarrow> tmp_image \<Rightarrow> 'w \<Rightarrow> tmp_image acm_result outcome \<times> cleanup list \<times> 'w" where
  "retag_step sh e dr i w =
     (case rfc1035_label (unicode_letter dr) (tag_uuid dr) (tag_letter dr) of
        Panic m \<Rightarrow> (Panic m, drop_image i, w)
      | Done new_tag \<Rightarrow>
          (let new_reference = registry e @ ''/'' @ repository e @ '':'' @ new_tag in
           case ctr sh [Text ''-n'', Text (namespace_of i), Text ''images'', Text ''tag'',
                        Text (reference i), Text new_reference] w of
             (r, w') \<Rightarrow>
               (outcome_bind r (\<lambda>r. Done (and_then r (\<lambda>_.
                  Ok \<lparr>reference = new_reference, tmp_tag = new_tag, tmp_digest = tmp_digest i,
                      namespace_of = namespace_of i\<rparr>))), drop_image i, w')))"

definition get_password ::
  "'w shell \<Rightarrow> (acm_error \<Rightarrow> string) \<Rightarrow> 'w \<Rightarrow> cmd_arg acm_result outcome \<times> 'w" where
  "get_password sh debug w =
     (case ecr sh [Text ''get-login-password''] w of
        (r, w') \<Rightarrow>
          (outcome_bind r (\<lambda>r. Done (and_then (map_err (\<lambda>err.
             E_Ecr (GetPasswordError (string_error_display (string_error_from_box debug err)))) r)
             (\<lambda>p. Ok (secret_from p)))), w'))"

definition get_credentials ::
  "'w shell \<Rightarrow> (acm_error \<Rightarrow> string) \<Rightarrow> env \<Rightarrow> 'w \<Rightarrow> (string \<times> cmd_arg) acm_result outcome \<times> 'w" where
  "get_credentials sh debug e w =
     (case aws_username e of
        Panic m \<Rightarrow> (Panic m, w)
      | Done user \<Rightarrow>
          (case get_password sh debug w of
             (r, w') \<Rightarrow> (outcome_bind r (\<lambda>r. Done (and_then r (\<lambda>p. Ok (user, p)))), w')))"

definition push_to_ecr ::
  "'w shell \<Rightarrow> (acm_error \<Rightarrow> string) \<Rightarrow> env \<Rightarrow> tmp_image \<Rightarrow> 'w \<Rightarrow> string acm_result outcome \<times> 'w" where
  "push_to_ecr sh debug e i w =
     (case get_credentials sh debug e w of
        (Panic m, w') \<Rightarrow> (Panic m, w')
      | (Done (Err err), w') \<Rightarrow> (Done (Err err), w')
      | (Done (Ok (user, password)), w') \<Rightarrow>
          ctr sh [Text ''-n'', Text (namespace_of i), Text ''images'', Text ''push'', Text ''-u'',
                  secret_from (user @ '':'' @ raw_secret password), Text (reference i)] w')"

definition push_to_minikube :: "'w shell \<Rightarrow> tmp_image \<Rightarrow> 'w \<Rightarrow> string acm_result outcome \<times> 'w" where
  "push_to_minikube sh i w =
     ctr sh [Text ''-n'', Text (namespace_of i), Text ''images'', Text ''push'', Text ''--plain-http'',
             Text (reference i)] w"

definition push_step ::
  "'w shell \<Rightarrow> (acm_error \<Rightarrow> string) \<Rightarrow> (string \<Rightarrow> string) \<Rightarrow> env \<Rightarrow> tmp_image \<Rightarrow> 'w
   \<Rightarrow> image acm_result outcome \<times> cleanup list \<times> 'w" where
  "push_step sh debug lower e i w =
     (case (case which lower e of
              Panic m \<Rightarrow> (Panic m, w)
            | Done Ecr \<Rightarrow> push_to_ecr sh debug e i w
            | Done Minikube \<Rightarrow> push_to_minikube sh i w) of
        (r, w') \<Rightarrow> (outcome_bind r (\<lambda>r. Done (and_then r (\<lambda>_. Ok (image_from i)))), drop_image i, w'))"

fun and_drop :: "cleanup list \<Rightarrow> 'a \<times> cleanup list \<times> 'w \<Rightarrow> 'a \<times> cleanup list \<times> 'w" where
  "and_drop cs (r, ds, w) = (r, ds @ cs, w)"

definition import_image ::
  "'w shell \<Rightarrow> (acm_error \<Rightarrow> string) \<Rightarrow> (string \<Rightarrow> string) \<Rightarrow> env \<Rightarrow> draws \<Rightarrow> string option \<Rightarrow> 'w
   \<Rightarrow> image acm_result outcome \<times> cleanup list \<times> 'w" where
  "import_image sh debug lower e dr tmp w =
     (let ns = namespace_new dr in
      and_drop (drop_namespace ns)
        (case import_step sh (import_namespace (new_workflow ns)) tmp w of
           (Panic m, w1) \<Rightarrow> (Panic m, [], w1)
         | (Done (Err err), w1) \<Rightarrow> (Done (Err err), [], w1)
         | (Done (Ok i), w1) \<Rightarrow>
             (case retag_step sh e dr i w1 of
                (Panic m, cs, w2) \<Rightarrow> (Panic m, cs, w2)
              | (Done (Err err), cs, w2) \<Rightarrow> (Done (Err err), cs, w2)
              | (Done (Ok i'), cs, w2) \<Rightarrow>
                  (case push_step sh debug lower e i' w2 of (r, ds, w3) \<Rightarrow> (r, cs @ ds, w3)))))"

section \<open>The listing of containerd\<close>

text \<open>
  C23: the listing is understood exactly when it is a header and one row; the reference, its tag
  (what follows its last colon) and the digest are then the first column, its end and the third
  column, and any listing that is laid out so is understood.
\<close>

theorem extract_metadata_iff:
  "extract_image_metadata_from_str ns out = Ok (ref, t, dig) \<longleftrightarrow>
     (\<exists>header ty rest repo. out = header @ newline # join '' '' (ref # ty # dig # rest)
        \<and> newline \<notin> set header \<and> newline \<notin> set (join '' '' (ref # ty # dig # rest))
        \<and> (\<forall>col \<in> set (ref # ty # dig # rest). CHR '' '' \<notin> set col)
        \<and> ref = repo @ CHR '':'' # t \<and> CHR '':'' \<notin> set t)" (is "?l \<longleftrightarrow> ?r")
proof
  assume ?l
  then obtain header row ty rest repo where
    lines: "split_on newline out = [header, row]" and cols: "split_on (CHR '' '') row = ref # ty # dig # rest"
    and ref: "rsplit_once (CHR '':'') ref = Some (repo, t)"
    by (auto simp: extract_image_metadata_from_str_def split: list.splits option.splits)
  have "out = header @ newline # row" using join_split_on [of newline out] lines by simp
  moreover have "row = join '' '' (ref # ty # dig # rest)" using join_split_on [of "CHR '' ''" row] cols by simp
  moreover have "newline \<notin> set header" "newline \<notin> set row"
    using split_on_piece_free [of _ newline out] lines by auto
  moreover have "\<forall>col \<in> set (ref # ty # dig # rest). CHR '' '' \<notin> set col"
    using split_on_piece_free [of _ "CHR '' ''" row] cols by auto
  moreover have "ref = repo @ CHR '':'' # t \<and> CHR '':'' \<notin> set t" using ref by (rule rsplit_once_SomeD)
  ultimately show ?r by blast
next
  assume ?r
  then obtain header ty rest repo where
    h: "out = header @ newline # join '' '' (ref # ty # dig # rest)" "newline \<notin> set header"
      "newline \<notin> set (join '' '' (ref # ty # dig # rest))"
      "\<forall>col \<in> set (ref # ty # dig # rest). CHR '' '' \<notin> set col"
      "ref = repo @ CHR '':'' # t" "CHR '':'' \<notin> set t"
    by blast
  have "split_on newline (header @ newline # row) = [header, row]" if "newline \<notin> set row" for row
    using h(2) that by (simp add: split_on_append split_on_free)
  with h(1,3) have "split_on newline out = [header, join '' '' (ref # ty # dig # rest)]" by blast
  moreover from h(4) have "split_on (CHR '' '') (join '' '' (ref # ty # dig # rest)) = ref # ty # dig # rest"
    by (intro split_on_join) simp_all
  moreover from h(5,6) have "rsplit_once (CHR '':'') ref = Some (repo, t)" by (simp add: rsplit_once_append)
  ultimately show ?l by (simp add: extract_image_metadata_from_str_def)
qed

section \<open>What the workflow leaves behind\<close>

lemma retag_cleanups: "retag_step sh e dr i w = (r, cs, w') \<Longrightarrow> cs = drop_image i"
  by (auto simp: retag_step_def Let_def split: outcome.splits prod.splits)

lemma push_cleanups: "push_step sh debug lower e i w = (r, cs, w') \<Longrightarrow> cs = drop_image i"
  by (auto simp: push_step_def split: prod.splits)

lemma metadata_namespace:
  "extract_image_metadata sh ns w = (Done (Ok i), w') \<Longrightarrow> namespace_of i = ns"
  by (auto simp: extract_image_metadata_def split: prod.splits)

lemma import_step_namespace:
  "import_step sh ns tmp w = (Done (Ok i), w') \<Longrightarrow> namespace_of i = ns"
  by (auto simp: import_step_def dest: metadata_namespace
      split: option.splits prod.splits outcome.splits result.splits)

lemma retag_namespace:
  "retag_step sh e dr i w = (Done (Ok i'), cs, w') \<Longrightarrow> namespace_of i' = namespace_of i"
  by (auto simp: retag_step_def Let_def split: outcome.splits prod.splits)


text \<open>
  C36: an image that containerd has taken in but whose listing is not understood is left behind: only
  the namespace is scheduled for removal, and containerd refuses to remove one that has an image.
\<close>

theorem import_orphans_unread_image:
  assumes "ctr sh [Text ''-n'', Text (namespace_uuid dr), Text ''images'', Text ''import'', Text ''--no-unpack'', Text path] w
      = (Done (Ok txt), w1)"
    and "ctr sh [Text ''-n'', Text (namespace_uuid dr), Text ''images'', Text ''ls''] w1 = (Done (Ok out), w2)"
    and "extract_image_metadata_from_str (namespace_uuid dr) out = Err err"
  shows "import_image sh debug lower e dr (Some path) w
    = (Done (Err err), [Remove_Namespace (namespace_uuid dr)], w2)"
  using assms by (simp add: import_image_def import_step_def extract_image_metadata_def drop_namespace_def)

section \<open>What the workflow runs\<close>

text \<open>A shell that keeps a log of the commands it was given.\<close>

definition logged :: "'w shell \<Rightarrow> (string list list \<times> 'w) shell" where
  "logged sh argv stdin lw =
     (case sh argv stdin (snd lw) of (r, w') \<Rightarrow> (r, fst lw @ [argv], w'))"

lemma exec_logged:
  "exec (logged sh) stdin args (log, w)
     = (fst (exec sh stdin args w), log @ [map raw_secret args], snd (exec sh stdin args w))"
  by (simp add: exec_def logged_def split: prod.splits)

lemma import_step_logged:
  assumes "import_step (logged sh) ns (Some path) (log, w) = (Done (Ok i), log', w')"
  shows "log' = log @ [[''ctr'', ''-n'', ns, ''images'', ''import'', ''--no-unpack'', path],
                      [''ctr'', ''-n'', ns, ''images'', ''ls'']]"
  using assms
  by (auto simp: import_step_def extract_image_metadata_def exec_logged
      split: prod.splits outcome.splits result.splits)

lemma retag_step_logged:
  assumes "retag_step (logged sh) e dr i (log, w) = (Done (Ok i'), cs, log', w')"
  shows "rfc1035_label (unicode_letter dr) (tag_uuid dr) (tag_letter dr) = Done (tmp_tag i')"
    and "reference i' = registry e @ ''/'' @ repository e @ '':'' @ tmp_tag i'" and "tmp_digest i' = tmp_digest i"
    and "log' = log @ [[''ctr'', ''-n'', namespace_of i, ''images'', ''tag'', reference i, reference i']]"
  using assms by (auto simp: retag_step_def Let_def exec_logged split: outcome.splits prod.splits)

definition push_commands :: "registry_kind \<Rightarrow> string \<Rightarrow> string \<Rightarrow> string \<Rightarrow> string \<Rightarrow> string list list" where
  "push_commands imp ns user password ref =
     (case imp of
        Minikube \<Rightarrow> [[''ctr'', ''-n'', ns, ''images'', ''push'', ''--plain-http'', ref]]
      | Ecr \<Rightarrow> [[''aws'', ''ecr'', ''get-login-password''],
                 [''ctr'', ''-n'', ns, ''images'', ''push'', ''-u'', user @ '':'' @ password, ref]])"

lemma push_to_ecr_logged:
  assumes "push_to_ecr (logged sh) debug e i (log, w) = (Done (Ok out), log', w')"
  shows "\<exists>user password. log' = log @ push_commands Ecr (namespace_of i) user password (reference i)"
  using assms
  by (auto simp: push_to_ecr_def get_credentials_def get_password_def exec_logged push_commands_def
      split: outcome.splits prod.splits result.splits)

lemma push_step_logged:
  assumes "push_step (logged sh) debug lower e i (log, w) = (Done (Ok img), cs, log', w')"
  shows "img = image_from i \<and> (\<exists>imp user password. which lower e = Done imp
    \<and> log' = log @ push_commands imp (namespace_of i) user password (reference i))"
proof -
  from assms obtain imp where imp: "which lower e = Done imp"
    by (auto simp: push_step_def split: outcome.splits prod.splits)
  show ?thesis
  proof (cases imp)
    case Ecr
    with imp assms obtain out where "push_to_ecr (logged sh) debug e i (log, w) = (Done (Ok out), log', w')"
      by (auto simp: push_step_def split: prod.splits)
    with imp Ecr assms push_to_ecr_logged show ?thesis by (fastforce simp: push_step_def)
  next
    case Minikube
    with imp assms show ?thesis
      by (auto simp: push_step_def push_to_minikube_def exec_logged push_commands_def split: prod.splits)
  qed
qed

text \<open>
  A successful import ran exactly its pipeline: the upload is imported into its own namespace,
  listed, retagged from its old reference to the configured registry and repository with a
  fresh valid tag, and that reference is pushed. The answer is the new tag with the old digest.
\<close>

lemma import_pipeline:
  assumes "import_image (logged sh) debug lower e dr (Some path) ([], w) = (Done (Ok img), cs, log, w')"
    and "simple_uuid (tag_uuid dr)" and "is_lower (tag_letter dr)"
  shows "\<exists>old imp user password. which lower e = Done imp \<and> valid_rfc1035 (tag img)
    \<and> log = [[''ctr'', ''-n'', namespace_uuid dr, ''images'', ''import'', ''--no-unpack'', path],
             [''ctr'', ''-n'', namespace_uuid dr, ''images'', ''ls''],
             [''ctr'', ''-n'', namespace_uuid dr, ''images'', ''tag'', old,
               registry e @ ''/'' @ repository e @ '':'' @ tag img]]
           @ push_commands imp (namespace_uuid dr) user password
               (registry e @ ''/'' @ repository e @ '':'' @ tag img)"
proof -
  let ?ns = "namespace_uuid dr"
  from assms(1) obtain i i' log1 w1 log2 w2 cs2 cs3 where
    1: "import_step (logged sh) ?ns (Some path) ([], w) = (Done (Ok i), log1, w1)" and
    2: "retag_step (logged sh) e dr i (log1, w1) = (Done (Ok i'), cs2, log2, w2)" and
    3: "push_step (logged sh) debug lower e i' (log2, w2) = (Done (Ok img), cs3, log, w')"
    by (auto simp: import_image_def Let_def split: prod.splits outcome.splits result.splits)
  note r = retag_step_logged [OF 2] and p = push_step_logged [OF 3]
  have ns: "namespace_of i = ?ns" "namespace_of i' = ?ns"
    using import_step_namespace [OF 1] retag_namespace [OF 2] by simp_all
  from p have tag: "tag img = tmp_tag i'" by (simp add: image_from_def)
  with r(1) label_shape [OF assms(2,3), of "unicode_letter dr"] have "valid_rfc1035 (tag img)" by auto
  with p ns import_step_logged [OF 1] r(2,4) tag show ?thesis by auto
qed

section \<open>Evaluation\<close>

text \<open>A scripted operating system: the answers to the commands, one after the other.\<close>

fun scripted :: "spawned list shell" where
  "scripted argv stdin [] = (Spawn_Err ''done'', [])"
| "scripted argv stdin (r # rs) = (r, rs)"

definition listing :: string where
  "listing = ''REF TYPE DIGEST SIZE'' @ newline # ''docker.io/t:1 app sha256:7 1''"

lemma listing_text: "utf8_error 0 listing = None" "trim_end listing = listing"
  unfolding listing_def by (code_simp, code_simp)

lemma listing_read: "extract_image_metadata_from_str ns listing = Ok (''docker.io/t:1'', ''1'', ''sha256:7'')"
  by (simp add: extract_image_metadata_from_str_def listing_def rsplit_once_def)

theorem extract_metadata_iff_witness:
  "extract_image_metadata_from_str ''ns'' listing = Ok (''docker.io/t:1'', ''1'', ''sha256:7'')"
proof (subst extract_metadata_iff, intro exI conjI)
  show "listing = ''REF TYPE DIGEST SIZE'' @ newline # join '' '' (''docker.io/t:1'' # ''app'' # ''sha256:7'' # [''1''])"
    by (simp add: listing_def)
  show "''docker.io/t:1'' = ''docker.io/t'' @ CHR '':'' # ''1''" by simp
qed simp_all

lemma trim_end_Nil [simp]: "trim_end [] = []"
  by (simp add: trim_end_def)

abbreviation said :: "string \<Rightarrow> spawned" where
  "said txt \<equiv> Exit True txt []"

definition some_draws :: draws where
  "some_draws = \<lparr>namespace_uuid = ''ns'', tag_uuid = ''0b15278c2f95272de1abc8295775292f'',
     tag_letter = CHR ''s'', unicode_letter = (\<lambda>_. False)\<rparr>"

abbreviation local_import ::
  "'w shell \<Rightarrow> 'w \<Rightarrow> image acm_result outcome \<times> cleanup list \<times> 'w" where
  "local_import sh w \<equiv> import_image sh (\<lambda>_. []) (\<lambda>_. ''minikube'') (\<lambda>_. None) some_draws (Some ''/tmp/x'') w"

lemma some_label:
  "rfc1035_label (unicode_letter some_draws) (tag_uuid some_draws) (tag_letter some_draws)
     = Done ''sb15278c2f95272de1abc8295775292f''"
  unfolding some_draws_def by code_simp

lemmas import_eval =
  import_image_def import_step_def extract_image_metadata_def retag_step_def push_step_def push_to_minikube_def
  exec_def which_def listing_text listing_read some_label Let_def


theorem import_orphans_unread_image_witness:
  "local_import scripted [said [], said ''REF''] =
     (Done (Err (E_Import (CtrImageLs_NoData ''ns'' ''REF''))), [Remove_Namespace ''ns''], [])"
proof -
  have "utf8_error 0 ''REF'' = None" "trim_end ''REF'' = ''REF''" by (code_simp, code_simp)
  then show ?thesis
    using import_orphans_unread_image [of scripted some_draws "''/tmp/x''" "[said [], said ''REF'']" "[]" "[said ''REF'']"
        "''REF''" "[]" "E_Import (CtrImageLs_NoData ''ns'' ''REF'')" "\<lambda>_. []" "\<lambda>_. ''minikube''" "\<lambda>_. None"]
    by (simp add: exec_def some_draws_def extract_image_metadata_from_str_def)
qed

end
