(* ===== verification/Registry.thy ===== *)
theory Registry
  imports Containerd Response
begin

text \<open>
  Model of aim registry/mod.rs, registry/ecr, registry/minikube and of the endpoints of aim
  main.rs: the one-time configuration, the two registries behind the program and the choice
  between them. The AWS command line answers through the shell; JSON parsing (serde_json), the
  HTTP client, URLs and SHA-256 are outside the repository and arguments here. Decoding parsed
  JSON into a struct follows serde's derived \<open>Deserialize\<close>: every field once, under its name or
  its alias, unknown fields ignored.
\<close>

section \<open>Configuration, once\<close>

datatype once = Fresh | Configured | Poisoned

definition aws_configure :: "'w shell \<Rightarrow> string \<Rightarrow> cmd_arg \<Rightarrow> 'w \<Rightarrow> unit outcome \<times> 'w" where
  "aws_configure sh key v w =
     (case aws sh [Text ''configure'', Text ''set'', Text key, v] w of
        (Done (Ok _), w') \<Rightarrow> (Done (), w')
      | (Done (Err e), w') \<Rightarrow> (Panic (acm_display e), w')
      | (Panic m, w') \<Rightarrow> (Panic m, w'))"

fun outcome_then :: "unit outcome \<times> 'w \<Rightarrow> ('w \<Rightarrow> unit outcome \<times> 'w) \<Rightarrow> unit outcome \<times> 'w" where
  "outcome_then (Done _, w) k = k w"
| "outcome_then (Panic m, w) k = (Panic m, w)"

definition configure_body :: "(string \<Rightarrow> string) \<Rightarrow> env \<Rightarrow> 'w shell \<Rightarrow> 'w \<Rightarrow> unit outcome \<times> 'w" where
  "configure_body lower e sh w =
     (case which lower e of
        Panic m \<Rightarrow> (Panic m, w)
      | Done Minikube \<Rightarrow> (Done (), w)
      | Done Ecr \<Rightarrow>
          (case outcome_bind (aws_access_key_id e) (\<lambda>key_id.
                outcome_bind (aws_secret_access_key e) (\<lambda>access_key.
                outcome_bind (aws_region e) (\<lambda>region.
                outcome_bind (aws_username e) (\<lambda>_. Done (key_id, access_key, region))))) of
             Panic m \<Rightarrow> (Panic m, w)
           | Done (key_id, access_key, region) \<Rightarrow>
               outcome_then (aws_configure sh ''aws_access_key_id'' (Text key_id) w) (\<lambda>w.
               outcome_then (aws_configure sh ''aws_secret_access_key'' access_key w) (\<lambda>w.
                 aws_configure sh ''region'' (Text region) w))))"

text \<open>\<open>INIT.call_once\<close>: a panic inside poisons it for all later calls.\<close>

definition configure ::
  "(string \<Rightarrow> string) \<Rightarrow> env \<Rightarrow> 'w shell \<Rightarrow> once \<times> 'w \<Rightarrow> unit outcome \<times> once \<times> 'w" where
  "configure lower e sh ow =
     (case ow of
        (Configured, w) \<Rightarrow> (Done (), Configured, w)
      | (Poisoned, w) \<Rightarrow> (Panic ''Once instance has previously been poisoned'', Poisoned, w)
      | (Fresh, w) \<Rightarrow>
          (case configure_body lower e sh w of
             (Done _, w') \<Rightarrow> (Done (), Configured, w')
           | (Panic m, w') \<Rightarrow> (Panic m, Poisoned, w')))"

section \<open>JSON structures\<close>

record serde =
  parse_json :: "string \<Rightarrow> json option"
  serde_text :: "string \<Rightarrow> string"

definition serde_field :: "(string \<times> json) list \<Rightarrow> string list \<Rightarrow> json option" where
  "serde_field kvs names =
     (case filter (\<lambda>kv. fst kv \<in> set names) kvs of [(_, v)] \<Rightarrow> Some v | _ \<Rightarrow> None)"

fun serde_struct :: "string list list \<Rightarrow> json \<Rightarrow> json list option" where
  "serde_struct fs (JObj kvs) = those (map (serde_field kvs) fs)"
| "serde_struct fs (JArr xs) = (if length xs = length fs then Some xs else None)"
| "serde_struct fs _ = None"

fun serde_string :: "json \<Rightarrow> string option" where
  "serde_string (JStr s) = Some s"
| "serde_string _ = None"

fun serde_vec :: "(json \<Rightarrow> 'a option) \<Rightarrow> json \<Rightarrow> 'a list option" where
  "serde_vec f (JArr xs) = those (map f xs)"
| "serde_vec f _ = None"

definition from_str :: "serde \<Rightarrow> (json \<Rightarrow> 'a option) \<Rightarrow> string \<Rightarrow> ('a, string) result" where
  "from_str sd decode txt =
     (case Option.bind (parse_json sd txt) decode of None \<Rightarrow> Err (serde_text sd txt) | Some x \<Rightarrow> Ok x)"

section \<open>The Elastic Container Registry\<close>

record ecr_image =
  image_digest :: string
  image_tag :: string

definition ecr_image_display :: "env \<Rightarrow> ecr_image \<Rightarrow> string" where
  "ecr_image_display e i =
     registry e @ ''/'' @ repository e @ '':'' @ image_tag i @ '', '' @ image_digest i"

definition image_from_ecr :: "ecr_image \<Rightarrow> image" where
  "image_from_ecr i = \<lparr>tag = image_tag i, digest = image_digest i\<rparr>"

definition decode_ecr_image :: "json \<Rightarrow> ecr_image option" where
  "decode_ecr_image j =
     (case serde_struct [[''image_digest'', ''imageDigest''], [''image_tag'', ''imageTag'']] j of
        Some [d, t] \<Rightarrow>
          (case (serde_string d, serde_string t) of
             (Some d', Some t') \<Rightarrow> Some \<lparr>image_digest = d', image_tag = t'\<rparr>
           | _ \<Rightarrow> None)
      | _ \<Rightarrow> None)"

definition decode_list_images :: "json \<Rightarrow> ecr_image list option" where
  "decode_list_images j =
     (case serde_struct [[''image_ids'', ''imageIds'']] j of
        Some [v] \<Rightarrow> serde_vec decode_ecr_image v
      | _ \<Rightarrow> None)"

record ecr_failure =
  failure_image :: string
  failure_code :: string
  failure_reason :: string

definition decode_failure :: "json \<Rightarrow> ecr_failure option" where
  "decode_failure j =
     (case serde_struct [[''image_id'', ''imageId''], [''failure_code'', ''failureCode''],
                         [''failure_reason'', ''failureReason'']] j of
        Some [i, c, r] \<Rightarrow>
          (case (serde_struct [[''image_tag'', ''imageTag'']] i, serde_string c, serde_string r) of
             (Some [t], Some c', Some r') \<Rightarrow>
               map_option (\<lambda>t'. \<lparr>failure_image = t', failure_code = c', failure_reason = r'\<rparr>) (serde_string t)
           | _ \<Rightarrow> None)
      | _ \<Rightarrow> None)"

definition decode_uninstall :: "json \<Rightarrow> (ecr_image list \<times> ecr_failure list) option" where
  "decode_uninstall j =
     (case serde_struct [[''image_ids'', ''imageIds''], [''failures'']] j of
        Some [is, fs] \<Rightarrow>
          (case (serde_vec decode_ecr_image is, serde_vec decode_failure fs) of
             (Some is', Some fs') \<Rightarrow> Some (is', fs')
           | _ \<Rightarrow> None)
      | _ \<Rightarrow> None)"

definition failure_error :: "ecr_failure \<Rightarrow> ecr_error" where
  "failure_error f =
     EcrUninstallError (ecr_error_display (EcrUninstallFailure (failure_image f) (failure_code f) (failure_reason f)))"

fun uninstall_verdict :: "ecr_failure list \<Rightarrow> unit acm_result" where
  "uninstall_verdict [] = Ok ()"
| "uninstall_verdict (f # _) =
     (if failure_code f = ''ImageNotFound'' then Ok () else Err (E_Ecr (failure_error f)))"

definition ecr_uninstall :: "'w shell \<Rightarrow> serde \<Rightarrow> env \<Rightarrow> string \<Rightarrow> 'w \<Rightarrow> unit acm_result outcome \<times> 'w" where
  "ecr_uninstall sh sd e t w =
     (case ecr sh [Text ''batch-delete-image'', Text ''--repository-name'', Text (repository e),
                   Text ''--image-ids'', Text (''imageTag='' @ t)] w of
        (r, w') \<Rightarrow>
          (outcome_bind r (\<lambda>r. Done
             (and_then (map_err (\<lambda>err. E_Ecr (UninstallCommandError (acm_display err))) r) (\<lambda>txt.
              and_then (map_err (\<lambda>err. E_Ecr (EcrUninstallSerdeError err)) (from_str sd decode_uninstall txt))
                (\<lambda>(_, failures). uninstall_verdict failures)))), w'))"

definition ecr_list :: "'w shell \<Rightarrow> serde \<Rightarrow> env \<Rightarrow> 'w \<Rightarrow> image list acm_result outcome \<times> 'w" where
  "ecr_list sh sd e w =
     (case ecr sh [Text ''list-images'', Text ''--no-paginate'', Text ''--repository-name'', Text (repository e)] w of
        (r, w') \<Rightarrow>
          (outcome_bind r (\<lambda>r. Done (and_then r (\<lambda>txt.
             and_then (map_err (\<lambda>err. E_Ecr (EcrImageSerdeError err)) (from_str sd decode_list_images txt))
               (\<lambda>images. Ok (map image_from_ecr images))))), w'))"

definition ecr_get :: "'w shell \<Rightarrow> serde \<Rightarrow> env \<Rightarrow> string \<Rightarrow> 'w \<Rightarrow> image option acm_result outcome \<times> 'w" where
  "ecr_get sh sd e t w =
     (case ecr_list sh sd e w of
        (r, w') \<Rightarrow> (outcome_bind r (\<lambda>r. Done (and_then r (\<lambda>is. Ok (find (\<lambda>i. tag i = t) is)))), w'))"

section \<open>The Minikube registry\<close>

datatype reply = Net_Err string | Reply nat string

record 'w web =
  http_get :: "string \<Rightarrow> (string \<times> string) list \<Rightarrow> 'w \<Rightarrow> reply \<times> 'w"
  http_delete :: "string \<Rightarrow> 'w \<Rightarrow> reply \<times> 'w"
  url_ok :: "string \<Rightarrow> bool"
  sha256_hex :: "string \<Rightarrow> string"
  status_text :: "nat \<Rightarrow> string"

abbreviation manifest_type :: "(string \<times> string) list" where
  "manifest_type \<equiv> [(''Accept'', ''application/vnd.docker.distribution.manifest.v2+json'')]"

definition manifest_url :: "env \<Rightarrow> string \<Rightarrow> string" where
  "manifest_url e t = ''http://'' @ registry e @ ''/v2/'' @ repository e @ ''/manifests/'' @ t"

definition tags_url :: "env \<Rightarrow> string" where
  "tags_url e = ''http://'' @ registry e @ ''/v2/'' @ repository e @ ''/tags/list''"

text \<open>\<open>url.parse().unwrap()\<close> and \<open>send().await.unwrap()\<close>.\<close>

definition fetch ::
  "'w web \<Rightarrow> string \<Rightarrow> (string \<times> string) list \<Rightarrow> 'w \<Rightarrow> (nat \<times> string) outcome \<times> 'w" where
  "fetch web url headers w =
     (if url_ok web url then
        (case http_get web url headers w of
           (Net_Err m, w') \<Rightarrow> (Panic m, w')
         | (Reply st body, w') \<Rightarrow> (Done (st, body), w'))
      else (Panic ''Url::parse'', w))"

definition digest_of :: "'w web \<Rightarrow> string \<Rightarrow> string" where
  "digest_of web body = ''sha256:'' @ sha256_hex web body"

definition decode_tags :: "json \<Rightarrow> string list option" where
  "decode_tags j =
     (case serde_struct [[''name''], [''tags'']] j of
        Some [n, ts] \<Rightarrow> (case serde_string n of Some _ \<Rightarrow> serde_vec serde_string ts | None \<Rightarrow> None)
      | _ \<Rightarrow> None)"

fun fetch_images :: "'w web \<Rightarrow> env \<Rightarrow> string list \<Rightarrow> 'w \<Rightarrow> image list outcome \<times> 'w" where
  "fetch_images web e [] w = (Done [], w)"
| "fetch_images web e (t # ts) w =
     (case fetch web (manifest_url e t) manifest_type w of
        (Panic m, w1) \<Rightarrow> (Panic m, w1)
      | (Done (_, body), w1) \<Rightarrow>
          (case fetch_images web e ts w1 of
             (r, w2) \<Rightarrow> (outcome_bind r (\<lambda>is. Done (\<lparr>tag = t, digest = digest_of web body\<rparr> # is)), w2)))"

definition minikube_list :: "'w web \<Rightarrow> serde \<Rightarrow> env \<Rightarrow> 'w \<Rightarrow> image list acm_result outcome \<times> 'w" where
  "minikube_list web sd e w =
     (case fetch web (tags_url e) [] w of
        (Panic m, w1) \<Rightarrow> (Panic m, w1)
      | (Done (st, body), w1) \<Rightarrow>
          if st = 404 then (Done (Ok []), w1)
          else (case from_str sd decode_tags body of
                  Err m \<Rightarrow> (Panic m, w1)
                | Ok ts \<Rightarrow> (case fetch_images web e ts w1 of
                    (r, w2) \<Rightarrow> (outcome_bind r (\<lambda>is. Done (Ok is)), w2))))"

definition minikube_get :: "'w web \<Rightarrow> env \<Rightarrow> string \<Rightarrow> 'w \<Rightarrow> image option acm_result outcome \<times> 'w" where
  "minikube_get web e t w =
     (case fetch web (manifest_url e t) manifest_type w of
        (Panic m, w1) \<Rightarrow> (Panic m, w1)
      | (Done (st, body), w1) \<Rightarrow>
          if st = 404 then (Done (Ok None), w1)
          else (Done (Ok (Some \<lparr>tag = t, digest = digest_of web body\<rparr>)), w1))"

definition minikube_uninstall :: "'w web \<Rightarrow> serde \<Rightarrow> env \<Rightarrow> string \<Rightarrow> 'w \<Rightarrow> unit acm_result outcome \<times> 'w" where
  "minikube_uninstall web sd e t w =
     (case minikube_list web sd e w of
        (Panic m, w1) \<Rightarrow> (Panic m, w1)
      | (Done (Err err), w1) \<Rightarrow> (Done (Err err), w1)
      | (Done (Ok is), w1) \<Rightarrow>
          (case find (\<lambda>i. tag i = t) is of
             None \<Rightarrow> (Done (Ok ()), w1)
           | Some i \<Rightarrow>
               if url_ok web (manifest_url e (digest i)) then
                 (case http_delete web (manifest_url e (digest i)) w1 of
                    (Net_Err m, w2) \<Rightarrow> (Panic m, w2)
                  | (Reply st _, w2) \<Rightarrow>
                      (Done (if st = 202 \<or> st = 404 then Ok ()
                             else Err (E_Minikube (ImageDeleteError (status_text web st)))), w2))
               else (Panic ''Url::parse'', w1)))"

section \<open>The entry points\<close>

record 'w aim =
  shell_of :: "'w shell"
  web_of :: "'w web"
  serde_of :: serde
  lowercase :: "string \<Rightarrow> string"
  error_debug :: "acm_error \<Rightarrow> string"
  env_of :: env

text \<open>\<open>Implementation::configure()\<close> and then the registry that is configured.\<close>

definition dispatch ::
  "'w aim \<Rightarrow> ('w \<Rightarrow> 'a acm_result outcome \<times> 'w) \<Rightarrow> ('w \<Rightarrow> 'a acm_result outcome \<times> 'w)
   \<Rightarrow> once \<times> 'w \<Rightarrow> 'a acm_result outcome \<times> once \<times> 'w" where
  "dispatch a on_ecr on_minikube ow =
     (case configure (lowercase a) (env_of a) (shell_of a) ow of
        (Panic m, once, w) \<Rightarrow> (Panic m, once, w)
      | (Done _, once, w) \<Rightarrow>
          (case which (lowercase a) (env_of a) of
             Panic m \<Rightarrow> (Panic m, once, w)
           | Done imp \<Rightarrow>
               (case (case imp of Ecr \<Rightarrow> on_ecr w | Minikube \<Rightarrow> on_minikube w) of (r, w') \<Rightarrow> (r, once, w'))))"

definition aim_import ::
  "'w aim \<Rightarrow> draws \<Rightarrow> string option \<Rightarrow> once \<times> 'w \<Rightarrow> image acm_result outcome \<times> cleanup list \<times> once \<times> 'w" where
  "aim_import a dr tmp ow =
     (case configure (lowercase a) (env_of a) (shell_of a) ow of
        (Panic m, once, w) \<Rightarrow> (Panic m, [], once, w)
      | (Done _, once, w) \<Rightarrow>
          (case import_image (shell_of a) (error_debug a) (lowercase a) (env_of a) dr tmp w of
             (r, cs, w') \<Rightarrow> (r, cs, once, w')))"

definition aim_uninstall :: "'w aim \<Rightarrow> string \<Rightarrow> once \<times> 'w \<Rightarrow> unit acm_result outcome \<times> once \<times> 'w" where
  "aim_uninstall a t =
     dispatch a (ecr_uninstall (shell_of a) (serde_of a) (env_of a) t)
       (minikube_uninstall (web_of a) (serde_of a) (env_of a) t)"

definition aim_list :: "'w aim \<Rightarrow> once \<times> 'w \<Rightarrow> image list acm_result outcome \<times> once \<times> 'w" where
  "aim_list a =
     dispatch a (ecr_list (shell_of a) (serde_of a) (env_of a)) (minikube_list (web_of a) (serde_of a) (env_of a))"

definition aim_get :: "'w aim \<Rightarrow> string \<Rightarrow> once \<times> 'w \<Rightarrow> image acm_result outcome \<times> once \<times> 'w" where
  "aim_get a t ow =
     (case dispatch a (ecr_get (shell_of a) (serde_of a) (env_of a) t) (minikube_get (web_of a) (env_of a) t) ow of
        (r, ow') \<Rightarrow>
          (outcome_bind r (\<lambda>r. Done (and_then r (\<lambda>i.
             ok_or (E_Registry (TagNotFound t (registry (env_of a) @ ''/'' @ repository (env_of a)))) i))), ow'))"

definition kind_image :: "image \<Rightarrow> string" where
  "kind_image _ = ''Image''"

definition image_json :: "image \<Rightarrow> json" where
  "image_json i = JObj [(''tag'', JStr (tag i)), (''digest'', JStr (digest i))]"

section \<open>Configuration covers the environment\<close>



section \<open>Listing and looking up\<close>

text \<open>What a registry promises: looking a tag up finds what its listing shows.\<close>

locale tag_registry =
  fixes list :: "'w \<Rightarrow> image list acm_result outcome \<times> 'w"
    and get :: "string \<Rightarrow> 'w \<Rightarrow> image option acm_result outcome \<times> 'w"
  assumes get_finds: "list w = (Done (Ok is), w') \<Longrightarrow> fst (get t w) = Done (Ok (find (\<lambda>i. tag i = t) is))"
begin

lemma get_Some_iff:
  assumes "list w = (Done (Ok is), w')" and "distinct (map tag is)"
  shows "fst (get t w) = Done (Ok (Some i)) \<longleftrightarrow> i \<in> set is \<and> tag i = t"
proof -
  have "find (\<lambda>i. tag i = t) is = Some i \<longleftrightarrow> i \<in> set is \<and> tag i = t"
    using assms(2)
    by (induction "is") (auto simp: image_iff dest: image_eqI [of _ tag])
  with get_finds [OF assms(1), of t] show ?thesis by simp
qed

lemma get_None_iff:
  assumes "list w = (Done (Ok is), w')"
  shows "fst (get t w) = Done (Ok None) \<longleftrightarrow> t \<notin> tag ` set is"
  using get_finds [OF assms, of t] by (auto simp: find_None_iff)

end

interpretation ecr: tag_registry "ecr_list sh sd e" "ecr_get sh sd e"
  for sh :: "'w shell" and sd e
  by unfold_locales (simp add: ecr_get_def)

lemma fetch_images_map:
  assumes "\<forall>t. fetch web (manifest_url e t) manifest_type w = (Done (st t, f t), w)"
  shows "fetch_images web e ts w = (Done (map (\<lambda>t. \<lparr>tag = t, digest = digest_of web (f t)\<rparr>) ts), w)"
  using assms by (induction ts) auto

lemma find_tag:
  "find (\<lambda>i. tag i = t) (map (\<lambda>t. \<lparr>tag = t, digest = g t\<rparr>) ts)
     = (if t \<in> set ts then Some \<lparr>tag = t, digest = g t\<rparr> else None)"
  by (induction ts) auto

text \<open>
  A registry server that nobody changes meanwhile, whose manifests are those of the tags it lists.
\<close>

locale steady_web =
  fixes web :: "'w web" and sd :: serde and e :: env
  assumes steady: "snd (http_get web url hs w) = w"
    and urls: "url_ok web (manifest_url e t)"
    and manifests: "fst (http_get web (tags_url e) [] w) = Reply st body \<Longrightarrow>
      \<exists>st' b. fst (http_get web (manifest_url e t) manifest_type w) = Reply st' b
        \<and> (st' = 404 \<longleftrightarrow> st = 404 \<or> (\<forall>ts. from_str sd decode_tags body = Ok ts \<longrightarrow> t \<notin> set ts))"
begin

lemma fetch_tags:
  assumes "fetch web (tags_url e) [] w = (Done (st, body), w')"
  shows "w' = w"
    and "\<exists>st' b. \<forall>t. fetch web (manifest_url e t) manifest_type w = (Done (st' t, b t), w)
      \<and> (st' t = 404 \<longleftrightarrow> st = 404 \<or> (\<forall>ts. from_str sd decode_tags body = Ok ts \<longrightarrow> t \<notin> set ts))"
proof -
  from assms have r: "http_get web (tags_url e) [] w = (Reply st body, w')"
    by (auto simp: fetch_def split: if_splits prod.splits reply.splits)
  with steady [of "tags_url e" "[]" w] show "w' = w" by simp
  from r have "fst (http_get web (tags_url e) [] w) = Reply st body" by simp
  note known = manifests [OF this]
  have "\<exists>p. fetch web (manifest_url e t) manifest_type w = (Done p, w)
      \<and> (fst p = 404 \<longleftrightarrow> st = 404 \<or> (\<forall>ts. from_str sd decode_tags body = Ok ts \<longrightarrow> t \<notin> set ts))" for t
  proof -
    from known [of t] obtain st' b where st':
      "fst (http_get web (manifest_url e t) manifest_type w) = Reply st' b"
      "st' = 404 \<longleftrightarrow> st = 404 \<or> (\<forall>ts. from_str sd decode_tags body = Ok ts \<longrightarrow> t \<notin> set ts)"
      by blast
    with steady [of "manifest_url e t" manifest_type w]
    have "http_get web (manifest_url e t) manifest_type w = (Reply st' b, w)" by (metis prod.collapse)
    with urls have "fetch web (manifest_url e t) manifest_type w = (Done (st', b), w)" by (simp add: fetch_def)
    with st'(2) show ?thesis by (intro exI [where x = "(st', b)"]) simp
  qed
  then have "\<forall>t. \<exists>p. fetch web (manifest_url e t) manifest_type w = (Done p, w)
      \<and> (fst p = 404 \<longleftrightarrow> st = 404 \<or> (\<forall>ts. from_str sd decode_tags body = Ok ts \<longrightarrow> t \<notin> set ts))"
    by blast
  from choice [OF this] obtain p where "\<forall>t. fetch web (manifest_url e t) manifest_type w = (Done (p t), w)
      \<and> (fst (p t) = 404 \<longleftrightarrow> st = 404 \<or> (\<forall>ts. from_str sd decode_tags body = Ok ts \<longrightarrow> t \<notin> set ts))"
    by blast
  then show "\<exists>st' b. \<forall>t. fetch web (manifest_url e t) manifest_type w = (Done (st' t, b t), w)
      \<and> (st' t = 404 \<longleftrightarrow> st = 404 \<or> (\<forall>ts. from_str sd decode_tags body = Ok ts \<longrightarrow> t \<notin> set ts))"
    by (intro exI [where x = "fst \<circ> p"] exI [where x = "snd \<circ> p"]) simp
qed

end

sublocale steady_web \<subseteq> minikube: tag_registry "minikube_list web sd e" "minikube_get web e"
proof
  fix w w' "is" t
  assume l: "minikube_list web sd e w = (Done (Ok is), w')"
  then obtain st body w1 where tags: "fetch web (tags_url e) [] w = (Done (st, body), w1)"
    by (auto simp: minikube_list_def split: prod.splits outcome.splits)
  from fetch_tags [OF this] obtain st' b where w1: "w1 = w" and
    m: "\<forall>t. fetch web (manifest_url e t) manifest_type w = (Done (st' t, b t), w)"
      "\<forall>t. st' t = 404 \<longleftrightarrow> st = 404 \<or> (\<forall>ts. from_str sd decode_tags body = Ok ts \<longrightarrow> t \<notin> set ts)"
    by blast
  show "fst (minikube_get web e t w) = Done (Ok (find (\<lambda>i. tag i = t) is))"
  proof (cases "st = 404")
    case True
    with l tags m show ?thesis by (auto simp: minikube_list_def minikube_get_def)
  next
    case False
    with l tags obtain ts where ts: "from_str sd decode_tags body = Ok ts"
      by (auto simp: minikube_list_def split: result.splits)
    with l tags False w1 fetch_images_map [OF m(1)]
    have "is = map (\<lambda>t. \<lparr>tag = t, digest = digest_of web (b t)\<rparr>) ts" by (simp add: minikube_list_def)
    with m False ts show ?thesis by (simp add: minikube_get_def find_tag)
  qed
qed

context steady_web
begin

lemma minikube_registry: "tag_registry (minikube_list web sd e) (minikube_get web e)"
  by (fact minikube.tag_registry_axioms)

end

text \<open>One image in a Minikube registry.\<close>

definition one_serde :: serde where
  "one_serde = \<lparr>parse_json = (\<lambda>_. Some (JObj [(''name'', JStr ''ocf''), (''tags'', JArr [JStr ''v1''])])),
               serde_text = (\<lambda>_. [])\<rparr>"

definition one_web :: "unit web" where
  "one_web = \<lparr>http_get = (\<lambda>url hs w. (Reply (if url = tags_url (\<lambda>_. None) \<or> url = manifest_url (\<lambda>_. None) ''v1''
                                          then 200 else 404) url, w)),
             http_delete = (\<lambda>_ w. (Reply 202 [], w)), url_ok = (\<lambda>_. True),
             sha256_hex = (\<lambda>s. s), status_text = show_nat\<rparr>"

interpretation one: steady_web one_web one_serde "\<lambda>_. None"
  by unfold_locales
    (auto simp: one_web_def one_serde_def manifest_url_def tags_url_def from_str_def decode_tags_def serde_field_def)

text \<open>
  Any answer but 404 counts as the manifest: of an error of the registry server the digest of the
  error page is reported as the digest of the image.
\<close>

lemma minikube_get_error_page:
  assumes "url_ok web (manifest_url e t)" and "http_get web (manifest_url e t) manifest_type w = (Reply 500 page, w')"
  shows "minikube_get web e t w = (Done (Ok (Some \<lparr>tag = t, digest = digest_of web page\<rparr>)), w')"
  using assms by (simp add: minikube_get_def fetch_def)

text \<open>
  Whichever registry is configured, looking up a tag answers with the image the listing shows under
  that tag, and with \<open>TagNotFound\<close> exactly when the listing shows none; the configured registry is
  named in it. Minikube's is one that nobody changes meanwhile.
\<close>

definition dependable :: "'w aim \<Rightarrow> bool" where
  "dependable a \<longleftrightarrow> which (lowercase a) (env_of a) = Done Ecr
     \<or> which (lowercase a) (env_of a) = Done Minikube \<and> steady_web (web_of a) (serde_of a) (env_of a)"

abbreviation tag_not_found :: "'w aim \<Rightarrow> string \<Rightarrow> acm_error" where
  "tag_not_found a t \<equiv> E_Registry (TagNotFound t (registry (env_of a) @ ''/'' @ repository (env_of a)))"

lemma dependableE:
  assumes "dependable a"
  obtains list get where "tag_registry list get"
    "\<And>w. aim_list a (Configured, w) = (fst (list w), Configured, snd (list w))"
    "\<And>t w. fst (aim_get a t (Configured, w))
       = outcome_bind (fst (get t w)) (\<lambda>r. Done (and_then r (\<lambda>i. ok_or (tag_not_found a t) i)))"
proof -
  from assms consider "which (lowercase a) (env_of a) = Done Ecr"
    | "which (lowercase a) (env_of a) = Done Minikube" "steady_web (web_of a) (serde_of a) (env_of a)"
    by (auto simp: dependable_def)
  then show thesis
  proof cases
    case 1
    then show ?thesis
      by (intro that [OF ecr.tag_registry_axioms [of "shell_of a" "serde_of a" "env_of a"]])
        (simp_all add: aim_list_def aim_get_def dispatch_def configure_def split: prod.splits)
  next
    case 2
    from this(1) show ?thesis
      by (intro that [OF steady_web.minikube_registry [OF 2(2)]])
        (simp_all add: aim_list_def aim_get_def dispatch_def configure_def split: prod.splits)
  qed
qed

lemma aim_get_finds:
  assumes "dependable a" and "aim_list a (Configured, w) = (Done (Ok is), once, w')" and "distinct (map tag is)"
  shows "(fst (aim_get a t (Configured, w)) = Done (Ok i) \<longleftrightarrow> i \<in> set is \<and> tag i = t)
    \<and> (t \<notin> tag ` set is \<longrightarrow> fst (aim_get a t (Configured, w)) = Done (Err (tag_not_found a t)))"
proof -
  from dependableE [OF assms(1)] obtain list get where r: "tag_registry list get"
    and l: "\<And>w. aim_list a (Configured, w) = (fst (list w), Configured, snd (list w))"
    and g: "\<And>t w. fst (aim_get a t (Configured, w))
       = outcome_bind (fst (get t w)) (\<lambda>r. Done (and_then r (\<lambda>i. ok_or (tag_not_found a t) i)))"
    by blast
  from l [of w] assms(2) have lw: "list w = (Done (Ok is), snd (list w))" by (metis fst_conv prod.collapse)
  note finds = tag_registry.get_finds [OF r lw, of t]
  show ?thesis
  proof (cases "find (\<lambda>i. tag i = t) is")
    case None
    with finds tag_registry.get_None_iff [OF r lw, of t] g show ?thesis by auto
  next
    case (Some j)
    with finds tag_registry.get_Some_iff [OF r lw assms(3), of t i] g show ?thesis by (auto simp: find_Some_iff)
  qed
qed

text \<open>The listing of ECR: an entry per image, without a tag for an image that has none.\<close>

fun ecr_entry :: "string \<times> string option \<Rightarrow> json" where
  "ecr_entry (d, Some t) = JObj [(''imageDigest'', JStr d), (''imageTag'', JStr t)]"
| "ecr_entry (d, None) = JObj [(''imageDigest'', JStr d)]"

lemma decode_ecr_entry:
  "decode_ecr_image (ecr_entry x) = map_option (\<lambda>t. \<lparr>image_digest = fst x, image_tag = t\<rparr>) (snd x)"
  by (cases x rule: ecr_entry.cases) (simp_all add: decode_ecr_image_def serde_field_def)

lemma those_entries:
  "those (map (decode_ecr_image \<circ> ecr_entry) xs)
     = (if \<forall>x \<in> set xs. snd x \<noteq> None
        then Some (map (\<lambda>x. \<lparr>image_digest = fst x, image_tag = the (snd x)\<rparr>) xs) else None)"
  by (induction xs) (auto simp: decode_ecr_entry split: option.splits)

text \<open>
  C35: ECR's listing is all or nothing. When every image has a tag the answer is exactly the tags
  and digests that ECR reports, in order; a single image without a tag makes listing, and with
  it every lookup, fail.
\<close>

theorem ecr_list_all_or_nothing:
  assumes "ecr sh [Text ''list-images'', Text ''--no-paginate'', Text ''--repository-name'', Text (repository e)] w
      = (Done (Ok txt), w')"
    and "parse_json sd txt = Some (JObj [(''imageIds'', JArr (map ecr_entry xs))])"
  shows "ecr_list sh sd e w =
    (Done (if \<forall>x \<in> set xs. snd x \<noteq> None then Ok (map (\<lambda>x. \<lparr>tag = the (snd x), digest = fst x\<rparr>) xs)
           else Err (E_Ecr (EcrImageSerdeError (serde_text sd txt)))), w')"
  using assms those_entries [of xs]
  by (simp add: ecr_list_def from_str_def decode_list_images_def serde_field_def image_from_ecr_def comp_def)

section \<open>Evaluation\<close>

definition ecr_serde :: "(string \<times> string option) list \<Rightarrow> serde" where
  "ecr_serde xs = \<lparr>parse_json = (\<lambda>_. Some (JObj [(''imageIds'', JArr (map ecr_entry xs))])),
                  serde_text = (\<lambda>_. ''missing field'')\<rparr>"

theorem ecr_list_all_or_nothing_witness:
  "ecr_list scripted (ecr_serde [(''d1'', Some ''v1''), (''d2'', None)]) (\<lambda>_. None) [said []]
     = (Done (Err (E_Ecr (EcrImageSerdeError ''missing field''))), [])"
  using ecr_list_all_or_nothing [of scripted "\<lambda>_. None" "[said []]" "[]" "[]"
      "ecr_serde [(''d1'', Some ''v1''), (''d2'', None)]" "[(''d1'', Some ''v1''), (''d2'', None)]"]
  by (simp add: exec_def ecr_serde_def)

end
