(* ===== verification/Client.thy ===== *)
theory Client
  imports K8s
begin

text \<open>
  Model of library/k8s/src/client.rs: clients of the Kubernetes API server, one namespace each, and
  the copying of a pod's log into a file. The crate \<open>kube\<close> builds the connection and answers the
  requests; tokio creates the file and copies. Both are arguments.
\<close>

section \<open>Clients\<close>

record 'k api =
  api_client :: 'k
  api_namespace :: string

text \<open>Without a Kubernetes environment there is no alternative to a panic.\<close>

definition new_with_namespace :: "('k, kube_error) result \<Rightarrow> string \<Rightarrow> 'k api outcome" where
  "new_with_namespace try_default ns =
     (case map_err api_error_from try_default of
        Err e \<Rightarrow> Panic (api_error_display e)
      | Ok k \<Rightarrow> Done \<lparr>api_client = k, api_namespace = ns\<rparr>)"

definition client_new :: "('k, kube_error) result \<Rightarrow> 'k api outcome" where
  "client_new try_default = new_with_namespace try_default OCF_NAMESPACE"

definition client_new_for_system :: "('k, kube_error) result \<Rightarrow> 'k api outcome" where
  "client_new_for_system try_default = new_with_namespace try_default OCF_SYSTEM_NAMESPACE"

text \<open>
  The API server as the Kubernetes layer sees it: the servicer is looked up with a client for the
  system namespace, pods are created and deleted with one for the namespace of the connectors.
  \<open>ops\<close> is what a client can ask of the server.
\<close>

definition cluster_api :: "('k api \<Rightarrow> kube_api) \<Rightarrow> ('k, kube_error) result \<Rightarrow> kube_api outcome" where
  "cluster_api ops try_default =
     outcome_bind (client_new_for_system try_default) (\<lambda>sys.
     outcome_bind (client_new try_default) (\<lambda>ocf.
       Done \<lparr>get_pod = get_pod (ops sys), create_pod = create_pod (ops ocf), delete_pod = delete_pod (ops ocf)\<rparr>))"

lemmas client_defs = new_with_namespace_def client_new_def client_new_for_system_def cluster_api_def

lemma cluster_api_cases:
  "cluster_api ops (Err e) = Panic (api_error_display (api_error_from e))"
  "cluster_api ops (Ok k) = Done
     \<lparr>get_pod = get_pod (ops \<lparr>api_client = k, api_namespace = ''ocf-system''\<rparr>),
      create_pod = create_pod (ops \<lparr>api_client = k, api_namespace = ''ocf''\<rparr>),
      delete_pod = delete_pod (ops \<lparr>api_client = k, api_namespace = ''ocf''\<rparr>)\<rparr>"
  by (simp_all add: client_defs OCF_NAMESPACE_def OCF_SYSTEM_NAMESPACE_def)

section \<open>Logs\<close>

record log_params =
  log_container :: "string option"
  log_follow :: bool
  log_limit_bytes :: "nat option"
  log_pretty :: bool
  log_previous :: bool
  log_since_seconds :: "nat option"
  log_tail_lines :: "nat option"
  log_timestamps :: bool

definition follow_log :: log_params where
  "follow_log =
     \<lparr>log_container = None, log_follow = True, log_limit_bytes = None, log_pretty = False, log_previous = False,
      log_since_seconds = None, log_tail_lines = None, log_timestamps = False\<rparr>"

record stream_error =
  stream_cause :: kube_error

definition stream_error_display :: "stream_error \<Rightarrow> string" where
  "stream_error_display _ = ''this is hard''"

datatype io_error_kind = BrokenPipe

record io_error =
  io_kind :: io_error_kind
  io_inner :: stream_error

definition io_error_from :: "stream_error \<Rightarrow> io_error" where
  "io_error_from e = \<lparr>io_kind = BrokenPipe, io_inner = e\<rparr>"

text \<open>
  \<open>log_stream\<close> is the crate's call, \<open>create\<close> whether the file can be made, and \<open>copy\<close> what
  \<open>tokio::io::copy\<close> leaves in the file for the chunks it reads, with its result, which is ignored.
\<close>

definition stream_into ::
  "(string \<Rightarrow> log_params \<Rightarrow> ((string, kube_error) result list, kube_error) result) \<Rightarrow> (string \<Rightarrow> bool)
   \<Rightarrow> ((string, io_error) result list \<Rightarrow> string \<times> (nat, io_error) result) \<Rightarrow> pod \<Rightarrow> string
   \<Rightarrow> (string \<times> string) outcome" where
  "stream_into log_stream create copy p dst =
     outcome_bind (resource_name p) (\<lambda>n.
       case log_stream n follow_log of
         Err e \<Rightarrow> Panic (kube_display e)
       | Ok chunks \<Rightarrow>
           if create dst
           then Done (dst, fst (copy (map (map_err (\<lambda>e. io_error_from \<lparr>stream_cause = e\<rparr>)) chunks)))
           else Panic ''File::create'')"

text \<open>
  What copying promises: everything is in the file when the stream comes to its end, and what came
  before the error, or a part of it, when it does not.
\<close>

fun received :: "('a list, 'e) result list \<Rightarrow> 'a list \<times> bool" where
  "received [] = ([], True)"
| "received (Ok x # xs) = (case received xs of (ys, done) \<Rightarrow> (x @ ys, done))"
| "received (Err _ # xs) = ([], False)"

definition copy_law :: "((string, io_error) result list \<Rightarrow> string \<times> (nat, io_error) result) \<Rightarrow> bool" where
  "copy_law copy \<longleftrightarrow>
     (\<forall>xs. take (length (fst (copy xs))) (fst (received xs)) = fst (copy xs)
        \<and> (snd (received xs) \<longrightarrow> fst (copy xs) = fst (received xs)))"

lemma whole_copy: "copy_law (\<lambda>xs. (fst (received xs), Ok (length (fst (received xs)))))"
  by (simp add: copy_law_def)

lemma received_map_err: "received (map (map_err f) xs) = received xs"
  by (induction xs rule: received.induct) auto

text \<open>A log that can be followed and written is copied whole if its stream ends well, a prefix of it otherwise.\<close>

lemma stream_into_copies:
  assumes "copy_law copy" and "meta_name (metadata p) = Some n" and "log_stream n follow_log = Ok chunks" and "create dst"
  shows "\<exists>txt. stream_into log_stream create copy p dst = Done (dst, txt)
    \<and> take (length txt) (fst (received chunks)) = txt
    \<and> (snd (received chunks) \<longrightarrow> txt = fst (received chunks))"
  using assms
  by (simp add: stream_into_def resource_name_def copy_law_def received_map_err)
    (metis received_map_err)

end
