(* ===== verification/Endpoints.thy ===== *)
theory Endpoints
  imports Wind_Down Lease Channels Adoption Registry Client
begin

text \<open>
  The HTTP side of the two services (acm main.rs, aim main.rs): the results of the registry operations
  and of the tasks that serve the connector manager's requests turned into responses, and the start
  of the servers. Routing, request guards and the handling of a panicking handler are the web framework's;
  a request is what reaches a handler.
\<close>

section \<open>Handlers and responses\<close>

text \<open>\<open>Ok(x.await?.into())\<close>, and the response that goes out.\<close>

definition into_response :: "'a acm_result outcome \<Rightarrow> 'a response acm_result outcome" where
  "into_response r = outcome_bind r (\<lambda>r. Done (and_then r (\<lambda>x. Ok (response_from x))))"

definition send ::
  "printer \<Rightarrow> ('a \<Rightarrow> string) \<Rightarrow> ('a \<Rightarrow> json) \<Rightarrow> 'a response acm_result outcome \<Rightarrow> http_response outcome" where
  "send pretty kind ser r = outcome_bind r (respond pretty kind ser)"

lemma send_Ok:
  "send pretty kind ser (into_response (Done (Ok x)))
     = send_json pretty StatusOk
         (JObj [(''payload'', JObj [(''kind'', JStr (kind x)), (''object'', ser x)]), (''error'', JNull)])"
  by (simp add: send_def into_response_def respond_payload_def)

lemma send_Err:
  "send pretty kind ser (into_response (Done (Err e)))
     = send_json pretty (http_code_of (acm_item e))
         (JObj [(''payload'', JNull), (''error'', serialize_error acm_item acm_display acm_source e)])"
  by (simp add: send_def into_response_def respond_error_def)

section \<open>The image manager\<close>

definition MAX_UPLOAD_SIZE :: nat where
  "MAX_UPLOAD_SIZE = 10 * 1000 * 1000 * 1000"

definition install ::
  "'w aim \<Rightarrow> draws \<Rightarrow> string option \<Rightarrow> once \<times> 'w
   \<Rightarrow> image response acm_result outcome \<times> cleanup list \<times> once \<times> 'w" where
  "install a dr upload ow = (case aim_import a dr upload ow of (r, cs, ow') \<Rightarrow> (into_response r, cs, ow'))"

definition uninstall :: "'w aim \<Rightarrow> string \<Rightarrow> once \<times> 'w \<Rightarrow> unit response acm_result outcome \<times> once \<times> 'w" where
  "uninstall a t ow = (case aim_uninstall a t ow of (r, ow') \<Rightarrow> (into_response r, ow'))"

definition list_images :: "'w aim \<Rightarrow> once \<times> 'w \<Rightarrow> image list response acm_result outcome \<times> once \<times> 'w" where
  "list_images a ow = (case aim_list a ow of (r, ow') \<Rightarrow> (into_response r, ow'))"

definition get_image :: "'w aim \<Rightarrow> string \<Rightarrow> once \<times> 'w \<Rightarrow> image response acm_result outcome \<times> once \<times> 'w" where
  "get_image a t ow = (case aim_get a t ow of (r, ow') \<Rightarrow> (into_response r, ow'))"

datatype aim_request =
    Post_Install "string option"
  | Delete_Uninstall string
  | Get_List
  | Get_Get string

fun aim_serve ::
  "printer \<Rightarrow> 'w aim \<Rightarrow> draws \<Rightarrow> aim_request \<Rightarrow> once \<times> 'w
   \<Rightarrow> http_response outcome \<times> cleanup list \<times> once \<times> 'w" where
  "aim_serve pretty a dr (Post_Install upload) ow =
     (case install a dr upload ow of (r, cs, ow') \<Rightarrow> (send pretty kind_image image_json r, cs, ow'))"
| "aim_serve pretty a dr (Delete_Uninstall t) ow =
     (case uninstall a t ow of (r, ow') \<Rightarrow> (send pretty kind_unit (\<lambda>_. JNull) r, [], ow'))"
| "aim_serve pretty a dr Get_List ow =
     (case list_images a ow of
        (r, ow') \<Rightarrow> (send pretty (kind_vec kind_image) (\<lambda>is. JArr (map image_json is)) r, [], ow'))"
| "aim_serve pretty a dr (Get_Get t) ow =
     (case get_image a t ow of (r, ow') \<Rightarrow> (send pretty kind_image image_json r, [], ow'))"

section \<open>The connector manager\<close>

definition kind_pod_ticket :: "pod_ticket \<Rightarrow> string" where
  "kind_pod_ticket _ = ''PodTicket''"

definition pod_ticket_json :: "(pod \<Rightarrow> json) \<Rightarrow> pod_ticket \<Rightarrow> json" where
  "pod_ticket_json ser t =
     JObj [(''pod'', ser (ticket_pod t)), (''ticket'', ticket_json (pod_ticket_ticket t))]"

text \<open>The response to an answered request; \<open>ser\<close> is serde's form of a pod.\<close>

fun acm_respond :: "printer \<Rightarrow> (pod \<Rightarrow> json) \<Rightarrow> acm_answer \<Rightarrow> http_response outcome" where
  "acm_respond pretty ser (Deployed r) = send pretty kind_pod ser (into_response (Done r))"
| "acm_respond pretty ser (Waited r) = send pretty kind_pod_ticket (pod_ticket_json ser) (into_response (Done r))"
| "acm_respond pretty ser (Refreshed r) = send pretty kind_ticket ticket_json (into_response (Done r))"
| "acm_respond pretty ser (Undeployed r) = send pretty kind_unit (\<lambda>_. JNull) (into_response (Done r))"

section \<open>Starting the servers\<close>

record rocket_config =
  rocket_address :: string
  rocket_limits :: "(string \<times> nat) list"

type_synonym launcher = "rocket_config \<Rightarrow> (string \<times> string) list \<Rightarrow> (unit, string) result"

definition ignite :: "launcher \<Rightarrow> rocket_config \<Rightarrow> (string \<times> string) list \<Rightarrow> unit outcome" where
  "ignite launch config routes = (case launch config routes of Ok _ \<Rightarrow> Done () | Err m \<Rightarrow> Panic m)"

definition aim_main :: "launcher \<Rightarrow> 'w aim \<Rightarrow> 'w \<Rightarrow> unit outcome \<times> once \<times> 'w" where
  "aim_main launch a w =
     (case configure (lowercase a) (env_of a) (shell_of a) (Fresh, w) of
        (Panic m, ow) \<Rightarrow> (Panic m, ow)
      | (Done _, ow) \<Rightarrow>
          (ignite launch \<lparr>rocket_address = ''0.0.0.0'', rocket_limits = [(''file'', MAX_UPLOAD_SIZE)]\<rparr>
             [(''POST'', ''/install''), (''DELETE'', ''/uninstall''), (''GET'', ''/list''), (''GET'', ''/get'')], ow))"

definition acm_main :: "launcher \<Rightarrow> unit outcome" where
  "acm_main launch =
     ignite launch \<lparr>rocket_address = ''0.0.0.0'', rocket_limits = []\<rparr>
       [(''POST'', ''/deploy''), (''GET'', ''/wait''), (''DELETE'', ''/delete''), (''POST'', ''/refresh'')]"

section \<open>What goes over the wire\<close>

text \<open>A printer that does not fail, as \<open>serde_json\<close> does not on these values.\<close>

definition sent :: "(json \<Rightarrow> string) \<Rightarrow> status \<Rightarrow> json \<Rightarrow> http_response" where
  "sent txt st j = \<lparr>content_type = ''application/json'', http_status = st, http_body = txt j, body_size = length (txt j)\<rparr>"

lemma send_json_total: "send_json (\<lambda>j. Ok (txt j)) st j = Done (sent txt st j)"
  by (simp add: send_json_def sent_def)

abbreviation payload_of :: "string \<Rightarrow> json \<Rightarrow> json" where
  "payload_of kind obj \<equiv> JObj [(''payload'', JObj [(''kind'', JStr kind), (''object'', obj)]), (''error'', JNull)]"

abbreviation error_of :: "acm_error \<Rightarrow> json" where
  "error_of e \<equiv> JObj [(''payload'', JNull), (''error'', serialize_error acm_item acm_display acm_source e)]"

lemma get_image_served:
  "fst (aim_serve (\<lambda>j. Ok (txt j)) a dr (Get_Get t) ow) =
     (case fst (aim_get a t ow) of
        Done (Ok i) \<Rightarrow> Done (sent txt StatusOk (payload_of ''Image'' (image_json i)))
      | Done (Err e) \<Rightarrow> Done (sent txt (http_code_of (acm_item e)) (error_of e))
      | Panic m \<Rightarrow> Panic m)"
  by (auto simp: get_image_def send_Ok send_Err send_json_total kind_image_def split: prod.splits outcome.splits result.splits)
    (simp add: send_def into_response_def)


text \<open>A handler's success is sent as status 200, and nothing else is.\<close>

lemma sent_ok_iff:
  assumes "send pretty kind ser (into_response (Done r)) = Done resp"
  shows "http_status resp = StatusOk \<longleftrightarrow> is_ok r"
  using assms boxed.code_not_ok
  by (cases r) (auto simp: send_Ok send_Err elim: send_json_DoneE)

lemma sent_answer:
  assumes "send pretty kind ser (into_response r) = Done resp"
  obtains q where "r = Done q" "http_status resp = StatusOk \<longleftrightarrow> is_ok q"
  using assms sent_ok_iff [of pretty kind ser _ resp]
  by (cases r) (auto simp: send_def into_response_def)


text \<open>
  C28: when \<open>DELETE /uninstall\<close> reports success. With ECR exactly when the deletion command succeeded
  and reported no failure or, first, that there is no such image; with Minikube exactly when the tag
  was not listed, and then nothing was deleted, or the registry accepted the deletion of the manifest
  of the image listed under the tag, or did not know it.
\<close>

theorem http_uninstall:
  assumes "aim_serve (\<lambda>j. Ok (txt j)) a dr (Delete_Uninstall t) (Configured, w) = (Done resp, cs, once, w')"
  shows "(which (lowercase a) (env_of a) = Done Ecr \<longrightarrow>
      (http_status resp = StatusOk \<longleftrightarrow> (\<exists>out gone fs.
         fst (ecr (shell_of a) [Text ''batch-delete-image'', Text ''--repository-name'', Text (repository (env_of a)),
               Text ''--image-ids'', Text (''imageTag='' @ t)] w) = Done (Ok out)
         \<and> from_str (serde_of a) decode_uninstall out = Ok (gone, fs)
         \<and> (fs = [] \<or> failure_code (hd fs) = ''ImageNotFound''))))
    \<and> (which (lowercase a) (env_of a) = Done Minikube \<longrightarrow>
      (http_status resp = StatusOk \<longleftrightarrow> (\<exists>is v.
         minikube_list (web_of a) (serde_of a) (env_of a) w = (Done (Ok is), v)
         \<and> (case find (\<lambda>i. tag i = t) is of
              None \<Rightarrow> w' = v
            | Some i \<Rightarrow> \<exists>st b. http_delete (web_of a) (manifest_url (env_of a) (digest i)) v = (Reply st b, w')
                \<and> st \<in> {202, 404}))))"
proof -
  obtain r where u: "aim_uninstall a t (Configured, w) = (r, once, w')"
    and s: "send (\<lambda>j. Ok (txt j)) kind_unit (\<lambda>_. JNull) (into_response r) = Done resp"
    using assms by (auto simp: uninstall_def split: prod.splits)
  from sent_answer [OF s] obtain q where q: "r = Done q" and ok: "http_status resp = StatusOk \<longleftrightarrow> is_ok q" .
  have verdict: "is_ok (uninstall_verdict fs) \<longleftrightarrow> fs = [] \<or> failure_code (hd fs) = ''ImageNotFound''" for fs
    by (cases fs) auto
  show ?thesis
  proof (intro conjI impI)
    assume "which (lowercase a) (env_of a) = Done Ecr"
    with u q have "ecr_uninstall (shell_of a) (serde_of a) (env_of a) t w = (Done q, w')"
      by (auto simp: aim_uninstall_def dispatch_def configure_def split: prod.splits)
    with ok show "http_status resp = StatusOk \<longleftrightarrow> (\<exists>out gone fs.
         fst (ecr (shell_of a) [Text ''batch-delete-image'', Text ''--repository-name'', Text (repository (env_of a)),
               Text ''--image-ids'', Text (''imageTag='' @ t)] w) = Done (Ok out)
         \<and> from_str (serde_of a) decode_uninstall out = Ok (gone, fs)
         \<and> (fs = [] \<or> failure_code (hd fs) = ''ImageNotFound''))"
      by (auto simp: ecr_uninstall_def simp flip: verdict split: prod.splits outcome.splits result.splits)
  next
    assume "which (lowercase a) (env_of a) = Done Minikube"
    with u q have "minikube_uninstall (web_of a) (serde_of a) (env_of a) t w = (Done q, w')"
      by (auto simp: aim_uninstall_def dispatch_def configure_def split: prod.splits)
    with ok show "http_status resp = StatusOk \<longleftrightarrow> (\<exists>is v.
         minikube_list (web_of a) (serde_of a) (env_of a) w = (Done (Ok is), v)
         \<and> (case find (\<lambda>i. tag i = t) is of
              None \<Rightarrow> w' = v
            | Some i \<Rightarrow> \<exists>st b. http_delete (web_of a) (manifest_url (env_of a) (digest i)) v = (Reply st b, w')
                \<and> st \<in> {202, 404}))"
      by (auto simp: minikube_uninstall_def split: prod.splits outcome.splits result.splits option.splits if_splits reply.splits)
  qed
qed

lemma answer_ok_waited: "answer_ok a ds (Get_Wait n) ans \<Longrightarrow> \<exists>r. ans = Waited r"
  by (cases ans) auto

text \<open>
  C1: what a client of the connector manager may rely on. When \<open>GET /wait?id=n\<close> is answered with
  status 200, the body is the JSON of a pod and of a ticket for \<open>n\<close>; and in the pod manager started
  for \<open>n\<close>, the API server reported that very pod as applied and running, and then, later, its health
  check had a connection accepted. This is so whatever other requests and pods there are, in every
  interleaving of coroutines, cleanups and requests.
\<close>

theorem http_wait_sound:
  assumes "run (server_step en bo ck) server_new is = (s, es)"
    and "tasks s ! t = (Get_Wait n, Answered ans)" and "t < length (tasks s)"
    and "acm_respond (\<lambda>j. Ok (txt j)) ser ans = Done resp" and "http_status resp = StatusOk"
  shows "\<exists>p tk arc xs t1 ready ys t2 zs.
      http_body resp = txt (payload_of ''PodTicket'' (JObj [(''pod'', ser p), (''ticket'', ticket_json tk)]))
    \<and> ticket tk = n \<and> running p \<and> named (acm_of s) arc n
    \<and> daemon_turns arc is = xs @ StreamItem (Ok (Some (Applied p))) t1 ready # ys @ OnCheck (Connection (Ok ())) t2 # zs"
proof -
  from task_ok_at [OF run_serving [OF assms(1)] assms(3)] assms(2) answer_ok_waited obtain r where ans: "ans = Waited r"
    by fastforce
  with assms(4,5) sent_ok_iff [of "\<lambda>j. Ok (txt j)" kind_pod_ticket "pod_ticket_json ser" r resp] obtain pt where
    pt: "r = Ok pt" by auto
  with assms(4) ans have "http_body resp
      = txt (payload_of ''PodTicket'' (JObj [(''pod'', ser (ticket_pod pt)), (''ticket'', ticket_json (pod_ticket_ticket pt))]))"
    by (auto simp: send_Ok send_json_total sent_def kind_pod_ticket_def pod_ticket_json_def)
  with wait_request_sound [OF assms(1) _ assms(3), of n pt] assms(2) ans pt show ?thesis by blast
qed

text \<open>
  A pod that is gone. When no manager is cached for an identifier, \<open>wait\<close> and \<open>refresh\<close> are
  answered at once, with status 404 and the same error, and nothing changes; when the API server
  does not know the pod either, \<open>delete\<close> is still answered with 200, as often as it is called.
\<close>

lemma acm_http_gone:
  assumes "cached (acm_of s) n = None"
    and "delete_pod (ctx_api x) n \<lparr>dry_run = False, grace_period_seconds = Some 60\<rparr> = Err (Kube_Api resp)"
    and "resp_code resp = 404"
  shows "\<exists>a1 a2 a3. server_step en bo ck s (Request (Get_Wait n) x) = (start (Get_Wait n) (Answered a1) s, [])
    \<and> acm_respond (\<lambda>j. Ok (txt j)) ser a1 = Done (sent txt NotFound (error_of (E_PodManager (PodManagerNotFound n))))
    \<and> server_step en bo ck s (Request (Post_Refresh n) x) = (start (Post_Refresh n) (Answered a2) s, [])
    \<and> acm_respond (\<lambda>j. Ok (txt j)) ser a2 = Done (sent txt NotFound (error_of (E_PodManager (PodManagerNotFound n))))
    \<and> server_step en bo ck s (Request (Delete_Delete n) x) = (start (Delete_Delete n) (Answered a3) s, [])
    \<and> acm_respond (\<lambda>j. Ok (txt j)) ser a3 = Done (sent txt StatusOk (payload_of ''()'' JNull))"
proof (intro exI conjI)
  show "server_step en bo ck s (Request (Get_Wait n) x)
      = (start (Get_Wait n) (Answered (Waited (Err (E_PodManager (PodManagerNotFound n))))) s, [])"
    "server_step en bo ck s (Request (Post_Refresh n) x)
      = (start (Post_Refresh n) (Answered (Refreshed (Err (E_PodManager (PodManagerNotFound n))))) s, [])"
    using assms(1) by (simp_all add: server_step_def acm_wait_def acm_refresh_def pm_get_def)
  show "server_step en bo ck s (Request (Delete_Delete n) x) = (start (Delete_Delete n) (Answered (Undeployed (Ok ()))) s, [])"
    using assms(2,3) by (simp add: server_step_def acm_delete_def k8s_delete_def)
qed (simp_all add: send_Ok send_Err send_json_total kind_unit_def err_simps)

section \<open>Evaluation\<close>

definition one_image :: "unit aim" where
  "one_image = \<lparr>shell_of = \<lambda>_ _ w. (said [], w), web_of = one_web, serde_of = ecr_serde [(''d1'', Some ''v1'')],
     lowercase = (\<lambda>_. ''ecr''), error_debug = (\<lambda>_. []), env_of = (\<lambda>_. None)\<rparr>"

lemma one_image_list: "aim_list one_image (Configured, ()) = (Done (Ok [\<lparr>tag = ''v1'', digest = ''d1''\<rparr>]), Configured, ())"
  by (simp add: one_image_def aim_list_def dispatch_def configure_def which_def ecr_list_def exec_def ecr_serde_def
      from_str_def decode_list_images_def serde_field_def decode_ecr_image_def image_from_ecr_def)

definition one_minikube :: "unit aim" where
  "one_minikube = one_image\<lparr>serde_of := one_serde, lowercase := (\<lambda>_. ''minikube'')\<rparr>"

lemma one_minikube_list:
  "aim_list one_minikube (Configured, ()) = (Done (Ok [\<lparr>tag = ''v1'', digest = digest_of one_web (manifest_url (\<lambda>_. None) ''v1'')\<rparr>]), Configured, ())"
  by (simp add: one_minikube_def one_image_def aim_list_def dispatch_def configure_def which_def minikube_list_def fetch_def one_web_def
      one_serde_def from_str_def decode_tags_def serde_field_def)


theorem http_uninstall_witness:
  "\<exists>resp w'. aim_serve (\<lambda>_. Ok []) one_minikube some_draws (Delete_Uninstall ''v1'') (Configured, ()) = (Done resp, [], Configured, w')
     \<and> http_status resp = StatusOk
     \<and> (\<exists>is v. minikube_list (web_of one_minikube) (serde_of one_minikube) (env_of one_minikube) () = (Done (Ok is), v))"
proof -
  obtain resp w' where r: "aim_serve (\<lambda>_. Ok []) one_minikube some_draws (Delete_Uninstall ''v1'') (Configured, ()) = (Done resp, [], Configured, w')"
    and ok: "http_status resp = StatusOk"
    by (simp add: one_minikube_def one_image_def uninstall_def aim_uninstall_def dispatch_def configure_def which_def
        minikube_uninstall_def minikube_list_def fetch_def one_web_def one_serde_def from_str_def decode_tags_def serde_field_def
        send_Ok send_json_def)
  moreover have "which (lowercase one_minikube) (env_of one_minikube) = Done Minikube"
    by (simp add: one_minikube_def one_image_def which_def)
  ultimately show ?thesis using http_uninstall [OF r] by blast
qed

definition local_aim :: "(string list list \<times> spawned list) aim" where
  "local_aim = \<lparr>shell_of = logged scripted, web_of = \<lparr>http_get = (\<lambda>_ _ w. (Net_Err [], w)), http_delete = (\<lambda>_ w. (Net_Err [], w)),
       url_ok = (\<lambda>_. True), sha256_hex = (\<lambda>s. s), status_text = show_nat\<rparr>,
     serde_of = one_serde, lowercase = (\<lambda>_. ''minikube''), error_debug = (\<lambda>_. []), env_of = (\<lambda>_. None)\<rparr>"


theorem http_wait_sound_witness:
  "\<exists>s es. \<exists>p :: pod. \<exists>tk :: keep_alive_ticket. run conn_step server_new (goes_online @ fetches 0 1 ''conn-1'' quiet some_gc 2000 @ refreshes 0 1 some_gc) = (s, es)
     \<and> ticket tk = ''conn-1'' \<and> running p
     \<and> (\<forall>ser txt. acm_respond (\<lambda>j. Ok (txt j)) ser (Waited (Ok \<lparr>ticket_pod = up_pod, pod_ticket_ticket = leasing\<rparr>))
         = Done (sent txt StatusOk (payload_of ''PodTicket'' (JObj [(''pod'', ser up_pod), (''ticket'', ticket_json leasing)]))))"
proof -
  let ?js = "fetches 0 1 ''conn-1'' quiet some_gc 2000 @ refreshes 0 1 some_gc"
  let ?ans = "Waited (Ok \<lparr>ticket_pod = up_pod, pod_ticket_ticket = leasing\<rparr>)"
  from goes_online_run obtain s0 fs where r: "run conn_step server_new goes_online = (s0, fs)"
    "tasks s0 = [(Post_Deploy ''t'' ''Oracle v1'' None, Answered (Deployed (Ok up_pod)))]"
    "online quarter_hour ''conn-1'' DEFAULT_TTL 0 up_pod 0 s0" by blast
  obtain s es where r': "run conn_step server_new (goes_online @ ?js) = (s, es)" by fastforce
  with run_after [OF r(1), of ?js] have "s = fst (run conn_step s0 ?js)" by (metis fst_conv)
  with session_run [OF r(3) leasing_ticket, of "half_second 30000" quiet 2000] r(2) have
    t: "tasks s ! 1 = (Get_Wait ''conn-1'', Answered ?ans)" "1 < length (tasks s)"
    by (simp_all add: gc_at_def)
  have resp: "acm_respond (\<lambda>j. Ok (pr j)) ser ?ans
      = Done (sent pr StatusOk (payload_of ''PodTicket'' (JObj [(''pod'', ser up_pod), (''ticket'', ticket_json leasing)])))" for pr ser
    by (simp add: send_Ok send_json_total kind_pod_ticket_def pod_ticket_json_def)
  then have "http_status (sent pr StatusOk j) = StatusOk" for pr j by (simp add: sent_def)
  from http_wait_sound [OF r' t resp [of "\<lambda>_. []" "\<lambda>_. JNull"] this] obtain p :: pod and tk :: keep_alive_ticket where
    "ticket tk = ''conn-1''" "running p" by blast
  with r' resp show ?thesis by blast
qed

end
